theory Spec2Isabelle
  imports Main "HOL-Library.AList"
begin

section \<open>Python strings and dictionaries\<close>

text \<open>
  Strings are lists of characters; the world generator only produces and compares ASCII
  text. A Python \<^verbatim>\<open>dict\<close> keeps its keys in insertion order, so a dictionary is an
  association list whose keys are pairwise distinct: assigning to an existing key replaces
  the value in place, assigning to a new key appends the entry.
\<close>

definition lower_char :: "char \<Rightarrow> char" where
  "lower_char c =
     (case map_of (zip ''ABCDEFGHIJKLMNOPQRSTUVWXYZ'' ''abcdefghijklmnopqrstuvwxyz'') c of
        Some l \<Rightarrow> l | None \<Rightarrow> c)"

definition py_lower :: "string \<Rightarrow> string" where
  "py_lower s = map lower_char s"

text \<open>The ASCII characters Python counts as whitespace: codes 9 to 13 and 28 to 32.\<close>

definition is_space :: "char \<Rightarrow> bool" where
  "is_space c =
     (c \<in> set [CHR 0x09, CHR 0x0A, CHR 0x0B, CHR 0x0C, CHR 0x0D,
                CHR 0x1C, CHR 0x1D, CHR 0x1E, CHR 0x1F, CHR 0x20])"

definition py_strip :: "string \<Rightarrow> string" where
  "py_strip s = rev (dropWhile is_space (rev (dropWhile is_space s)))"

definition starts_with :: "string \<Rightarrow> string \<Rightarrow> bool" where
  "starts_with s p = (take (length p) s = p)"

fun py_in :: "string \<Rightarrow> string \<Rightarrow> bool" where
  "py_in p [] = (p = [])"
| "py_in p (c # cs) = (starts_with (c # cs) p \<or> py_in p cs)"

fun dict_set :: "('k \<times> 'v) list \<Rightarrow> 'k \<Rightarrow> 'v \<Rightarrow> ('k \<times> 'v) list" where
  "dict_set [] k v = [(k, v)]"
| "dict_set ((k', v') # d) k v = (if k' = k then (k, v) # d else (k', v') # dict_set d k v)"

definition dict_keys :: "('k \<times> 'v) list \<Rightarrow> 'k list" where
  "dict_keys d = map fst d"

definition dict_update :: "('k \<times> 'v) list \<Rightarrow> ('k \<times> 'v) list \<Rightarrow> ('k \<times> 'v) list" where
  "dict_update d e = fold (\<lambda>(k, v) acc. dict_set acc k v) e d"

definition dict_get :: "('k \<times> 'v) list \<Rightarrow> 'k \<Rightarrow> 'v option" where
  "dict_get d k = map_of d k"

text \<open>\<^verbatim>\<open>s.replace(a, b)\<close> for a single character \<open>a\<close>, and \<^verbatim>\<open>s.replace(a, '')\<close>.\<close>

definition replace_char :: "char \<Rightarrow> char \<Rightarrow> string \<Rightarrow> string" where
  "replace_char a b s = map (\<lambda>c. if c = a then b else c) s"

definition remove_char :: "char \<Rightarrow> string \<Rightarrow> string" where
  "remove_char a s = filter (\<lambda>c. c \<noteq> a) s"

text \<open>
  \<^verbatim>\<open>str(i)\<close> for an integer: \<open>str_digits\<close> writes a non-negative integer in decimal.
\<close>

definition digit_char :: "nat \<Rightarrow> char" where
  "digit_char d = ''0123456789'' ! d"

function str_digits :: "int \<Rightarrow> string" where
  "str_digits i =
     (if i < 10 then [digit_char (nat i)]
      else str_digits (i div 10) @ [digit_char (nat (i mod 10))])"
  by pat_completeness auto
termination
  by (relation "measure nat") auto

declare str_digits.simps [simp del]

definition str_int :: "int \<Rightarrow> string" where
  "str_int i = (if i < 0 then CHR ''-'' # str_digits (- i) else str_digits i)"

definition str_nat :: "nat \<Rightarrow> string" where
  "str_nat n = str_digits (int n)"

text \<open>\<^verbatim>\<open>sep.join(xs)\<close>.\<close>

fun py_join :: "string \<Rightarrow> string list \<Rightarrow> string" where
  "py_join sep [] = []"
| "py_join sep [x] = x"
| "py_join sep (x # y # ys) = x @ sep @ py_join sep (y # ys)"

text \<open>\<^verbatim>\<open>list(dict.fromkeys(xs))\<close>: the elements in order of first occurrence.\<close>

fun dedup_first :: "'a list \<Rightarrow> 'a list \<Rightarrow> 'a list" where
  "dedup_first seen [] = []"
| "dedup_first seen (x # xs) =
     (if x \<in> set seen then dedup_first seen xs else x # dedup_first (x # seen) xs)"

text \<open>The long dash of the source's texts, as the three bytes of its UTF-8 encoding.\<close>

definition em_dash :: string where
  "em_dash = [CHR 0xE2, CHR 0x80, CHR 0x94]"

subsection \<open>The random source\<close>

text \<open>
  The module-level generator \<^verbatim>\<open>random\<close> is modelled by the sequence of raw draws it
  will deliver: a list of natural numbers, read from the front, a draw from the exhausted
  list being 0. A statement that holds for every such list holds for every random
  outcome. \<^verbatim>\<open>randint(0, n - 1)\<close> and the index \<^verbatim>\<open>choice\<close> picks are a draw reduced
  modulo \<open>n\<close>; \<^verbatim>\<open>shuffle\<close> builds its permutation by inserting each element at a
  drawn position of the shuffled rest, which can produce every permutation, and leaves
  the list as it is when every draw is 0.
\<close>

type_synonym rng = "nat list"

definition next_draw :: "rng \<Rightarrow> nat \<times> rng" where
  "next_draw r = (case r of [] \<Rightarrow> (0, []) | x # xs \<Rightarrow> (x, xs))"

definition randbelow :: "nat \<Rightarrow> rng \<Rightarrow> nat \<times> rng" where
  "randbelow n r = (fst (next_draw r) mod n, snd (next_draw r))"

datatype py_error = IndexError | KeyError

text \<open>\<^verbatim>\<open>random.choice(xs)\<close> raises IndexError on an empty sequence.\<close>

definition random_choice :: "'a list \<Rightarrow> rng \<Rightarrow> py_error + ('a \<times> rng)" where
  "random_choice xs r =
     (if xs = [] then Inl IndexError
      else Inr (xs ! fst (randbelow (length xs) r), snd (randbelow (length xs) r)))"

fun random_shuffle :: "'a list \<Rightarrow> rng \<Rightarrow> 'a list \<times> rng" where
  "random_shuffle [] r = ([], r)"
| "random_shuffle (x # xs) r =
     (let (ys, r1) = random_shuffle xs r;
          (k, r2) = randbelow (Suc (length ys)) r1
      in (take k ys @ x # drop k ys, r2))"

section \<open>Theme classification (theme\_engine.py)\<close>

datatype WorldTheme =
  SCIFI | MILITARY | FANTASY | DOMESTIC | HORROR | ADVENTURE | SITCOM | CRIME_SPY
  | DISCO | NIGHTCLUB | ORIGINAL

text \<open>The members of the enumeration in declaration order (what iterating over it yields).\<close>

definition WorldTheme_members :: "WorldTheme list" where
  "WorldTheme_members =
     [SCIFI, MILITARY, FANTASY, DOMESTIC, HORROR, ADVENTURE, SITCOM, CRIME_SPY,
      DISCO, NIGHTCLUB, ORIGINAL]"

definition THEME_KEYWORDS :: "(WorldTheme \<times> string list) list" where
  "THEME_KEYWORDS =
  [
    (SCIFI,
     [''area 51'', ''alien'', ''space'', ''star trek'', ''galaxy'', ''mars'', ''ufo'',
      ''nasa'', ''robot'', ''android'', ''scifi'', ''sci-fi'', ''stargate'',
      ''battlestar'', ''moon'', ''orbit'', ''cosmic'', ''nebula'', ''federation'',
      ''empire'']),
    (MILITARY,
     [''mash'', ''hogan'', ''stalag'', ''army'', ''combat'', ''war'', ''military'',
      ''soldier'', ''battalion'', ''platoon'', ''fort'', ''barracks'',
      ''mission impossible'', ''a-team'', ''seal'', ''ranger'', ''special ops'',
      ''frontline'', ''vietnam'', ''korean'', ''wwii'', ''ww2'', ''normandy'', ''patrol'']),
    (FANTASY,
     [''hogwarts'', ''wizard'', ''dragon'', ''medieval'', ''castle'', ''zork'',
      ''dungeon'', ''magic'', ''elf'', ''dwarf'', ''sword'', ''quest'', ''realm'',
      ''kingdom'', ''sorcerer'', ''witch'', ''enchanted'', ''fantasy'', ''rpg'',
      ''adventure'', ''hero'']),
    (DOMESTIC,
     [''barbie'', ''full house'', ''brady'', ''family'', ''home'', ''house'', ''suburb'',
      ''kitchen'', ''cozy'', ''domestic'', ''sitcom'', ''neighborhood'', ''school'',
      ''mall'', ''shop'', ''bakery'', ''cafe'', ''dollhouse'', ''dream house'']),
    (HORROR,
     [''haunted'', ''halloween'', ''dracula'', ''vampire'', ''zombie'', ''horror'',
      ''ghost'', ''dark'', ''mansion'', ''cemetery'', ''asylum'', ''cursed'',
      ''forbidden'', ''cthulhu'', ''evil'', ''nightmare'', ''terror'', ''shadow'',
      ''silent hill'']),
    (ADVENTURE,
     [''indiana jones'', ''pirate'', ''jungle'', ''explorer'', ''treasure'',
      ''expedition'', ''safari'', ''island'', ''temple'', ''ruins'', ''artifact'',
      ''archaeology'', ''map'', ''tomb'', ''raiders'', ''national treasure'',
      ''uncharted'']),
    (SITCOM,
     [''bewitched'', ''i love lucy'', ''gilligan'', ''cheers'', ''seinfeld'',
      ''friends'', ''office'', ''parks'', ''frasier'', ''taxi'', ''mork'',
      ''three company'', ''laverne'', ''happy days'', ''fonzie'', ''sam malone'',
      ''norm'', ''cliff'']),
    (DISCO,
     [''studio 54'', ''disco'', ''dance club'', ''nightclub'', ''dance floor'',
      ''saturday night fever'', ''dance hall'', ''roller rink'', ''boogie'', ''dj'',
      ''turntable'', ''rave'', ''club night'', ''discotheque'']),
    (NIGHTCLUB,
     [''bar'', ''nightclub'', ''lounge'', ''speakeasy'', ''jazz club'', ''cocktail'',
      ''vip lounge'', ''rooftop bar'', ''cabaret'', ''burlesque'', ''velvet rope'',
      ''bouncer'', ''bartender'']),
    (CRIME_SPY,
     [''james bond'', ''spy'', ''agent'', ''cia'', ''mi6'', ''fbi'', ''detective'',
      ''noir'', ''mystery'', ''crime'', ''heist'', ''get smart'', ''man from uncle'',
      ''magnum'', ''columbo'', ''sherlock'', ''poirot'', ''morse'', '' hitman''])
  ]"

text \<open>
  The pattern \<^verbatim>\<open>(?<![a-z0-9])\<close> keyword \<^verbatim>\<open>(?![a-z0-9])\<close>: the keyword, escaped and so
  matched literally, with no lower-case letter or digit right before or right after it.
  \<open>word_match_here prev kw s\<close> tries the match at the position whose remaining text is
  \<open>s\<close> and whose preceding character is \<open>prev\<close>; \<open>re_search_word\<close> tries every position.
\<close>

definition is_a_z_0_9 :: "char \<Rightarrow> bool" where
  "is_a_z_0_9 c = (c \<in> set ''abcdefghijklmnopqrstuvwxyz0123456789'')"

definition word_match_here :: "char option \<Rightarrow> string \<Rightarrow> string \<Rightarrow> bool" where
  "word_match_here prev kw s =
     ((case prev of None \<Rightarrow> True | Some p \<Rightarrow> \<not> is_a_z_0_9 p)
      \<and> starts_with s kw
      \<and> (case drop (length kw) s of [] \<Rightarrow> True | c # _ \<Rightarrow> \<not> is_a_z_0_9 c))"

fun re_search_from :: "char option \<Rightarrow> string \<Rightarrow> string \<Rightarrow> bool" where
  "re_search_from prev kw [] = word_match_here prev kw []"
| "re_search_from prev kw (c # cs) =
     (word_match_here prev kw (c # cs) \<or> re_search_from (Some c) kw cs)"

definition re_search_word :: "string \<Rightarrow> string \<Rightarrow> bool" where
  "re_search_word kw s = re_search_from None kw s"

text \<open>
  \<^verbatim>\<open>scores[key] += n\<close> on a score dictionary. Every member of the enumeration is a
  key from the start, so the key is always found.
\<close>

fun add_score :: "('k \<times> int) list \<Rightarrow> 'k \<Rightarrow> int \<Rightarrow> ('k \<times> int) list" where
  "add_score [] t n = []"
| "add_score ((k, v) # d) t n = (if k = t then (k, v + n) # d else (k, v) # add_score d t n)"

definition score_of :: "('k \<times> int) list \<Rightarrow> 'k \<Rightarrow> int" where
  "score_of d t = (case map_of d t of Some v \<Rightarrow> v | None \<Rightarrow> 0)"

definition kw_points :: "string \<Rightarrow> int" where
  "kw_points kw = (if length kw > 6 then 2 else 1)"

definition score_keyword :: "string \<Rightarrow> WorldTheme \<Rightarrow> string \<Rightarrow> (WorldTheme \<times> int) list \<Rightarrow> (WorldTheme \<times> int) list" where
  "score_keyword name_lower theme kw scores =
     (if re_search_word kw name_lower then add_score scores theme (kw_points kw) else scores)"

definition score_row :: "string \<Rightarrow> WorldTheme \<times> string list \<Rightarrow> (WorldTheme \<times> int) list \<Rightarrow> (WorldTheme \<times> int) list" where
  "score_row name_lower row scores = fold (score_keyword name_lower (fst row)) (snd row) scores"

definition theme_scores :: "string \<Rightarrow> (WorldTheme \<times> int) list" where
  "theme_scores world_name =
     fold (score_row (py_strip (py_lower world_name))) THEME_KEYWORDS
       (map (\<lambda>t. (t, 0)) WorldTheme_members)"

text \<open>
  Python's \<^verbatim>\<open>max(iterable, key=f)\<close> on a non-empty iterable: the first element whose
  key is maximal. \<open>py_max_key f best xs\<close> is the scan with \<open>best\<close> the element kept so far.
\<close>

fun py_max_key :: "('a \<Rightarrow> int) \<Rightarrow> 'a \<Rightarrow> 'a list \<Rightarrow> 'a" where
  "py_max_key f best [] = best"
| "py_max_key f best (x # xs) = py_max_key f (if f best < f x then x else best) xs"

definition classify :: "string \<Rightarrow> WorldTheme" where
  "classify world_name =
     (let scores = theme_scores world_name;
          best_theme = py_max_key (score_of scores) (hd (dict_keys scores)) (tl (dict_keys scores))
      in if score_of scores best_theme = 0 then ORIGINAL else best_theme)"

text \<open>
  The total a theme collects for a world name, written as a sum over the keyword table:
  every keyword of the theme's row that occurs as a whole word contributes 2 points when
  it is longer than 6 characters and 1 point otherwise.
\<close>

definition hit_points :: "string \<Rightarrow> string \<Rightarrow> int" where
  "hit_points name_lower kw = (if re_search_word kw name_lower then (if length kw > 6 then 2 else 1) else 0)"

definition row_total :: "string \<Rightarrow> WorldTheme \<Rightarrow> WorldTheme \<times> string list \<Rightarrow> int" where
  "row_total name_lower t row = (if fst row = t then sum_list (map (hit_points name_lower) (snd row)) else 0)"

definition theme_total :: "string \<Rightarrow> WorldTheme \<Rightarrow> int" where
  "theme_total world_name t =
     sum_list (map (row_total (py_strip (py_lower world_name)) t) THEME_KEYWORDS)"

section \<open>The world model (world\_model.py)\<close>

text \<open>
  The dataclasses of the world model as records, with the field names of the source
  (prefixed where two classes share a name). Dictionaries keyed by identifier are
  association lists in insertion order. The floating-point fields (a sprite's aggression
  and spawn chance, the combat weapon multiplier, the image guidance scale) hold no
  identifier and no text; no check of the validator depends on their value, and they are
  not represented.
\<close>

datatype SpriteRole = HERO | VILLAIN | NEUTRAL | BOSS | ALLY | GUARD

datatype PhysicsType =
  TEMPERATURE | ENERGY | LOCK_KEY | CRAFTING | TELEPORTATION | DISGUISE | EXPLOSIVES
  | BRIBERY | MAGIC | MEDICAL | GROWTH | ALIEN_TECH

record Room =
  room_id :: string
  room_name :: string
  room_description :: string
  exits :: "(string \<times> string) list"
  room_properties :: "(string \<times> string) list"
  is_start :: bool

record GameObject =
  object_id :: string
  obj_name :: string
  obj_description :: string
  location :: string
  takeable :: bool
  is_weapon :: bool
  damage :: int
  is_consumable :: bool
  health_restore :: int
  is_container :: bool
  is_wearable :: bool
  bribe_value :: string
  valid_verbs :: "string list"
  obj_properties :: "(string \<times> string) list"

record Sprite =
  sprite_id :: string
  sprite_name :: string
  sprite_description :: string
  health :: int
  sprite_damage :: int
  ai_behavior :: string
  spawn_rooms :: "string list"
  loot_on_death :: string
  can_pickup :: bool
  role :: SpriteRole
  sprite_properties :: "(string \<times> string) list"

record Transformation =
  transform_id :: string
  subject_object_id :: string
  state_required :: string
  turns_required :: int
  new_state :: string
  message :: string
  new_object_id :: string
  requires_object :: string
  requires_object_2 :: string
  location_property :: string
  new_location :: string
  transform_properties :: "(string \<times> string) list"

record CombatConfig =
  base_damage :: int
  respawn_location :: string
  death_penalty :: int
  friendly_fire :: bool

record SDConfig =
  host :: string
  port :: int
  steps :: int
  width :: int
  height :: int
  sampler :: string
  scene_suffix :: string
  negative_prompt :: string
  cache_images :: bool

record WorldConfig =
  world_name :: string
  theme :: WorldTheme
  rooms :: "(string \<times> Room) list"
  objects :: "(string \<times> GameObject) list"
  sprites :: "(string \<times> Sprite) list"
  transformations :: "(string \<times> Transformation) list"
  combat :: CombatConfig
  sd_config :: SDConfig
  physics_applied :: "PhysicsType list"

record ThemeDefaults =
  td_theme :: WorldTheme
  sd_scene_suffix :: string
  sd_negative_prompt :: string
  td_base_damage :: int
  boss_health :: int
  minion_health :: int
  suggested_room_prefixes :: "string list"
  suggested_object_types :: "string list"
  default_physics :: "PhysicsType list"
  suggested_verbs_extra :: "string list"
  flavor_adjective :: string
  flavor_noun :: string

definition room_ids :: "WorldConfig \<Rightarrow> string set" where
  "room_ids world = set (dict_keys (rooms world))"

definition object_ids :: "WorldConfig \<Rightarrow> string set" where
  "object_ids world = set (dict_keys (objects world))"

definition sprite_ids :: "WorldConfig \<Rightarrow> string set" where
  "sprite_ids world = set (dict_keys (sprites world))"

text \<open>\<^verbatim>\<open>start_room\<close>: the id of the first room flagged as start, or \<^verbatim>\<open>None\<close>.\<close>

definition start_room :: "WorldConfig \<Rightarrow> string option" where
  "start_room world = map_option fst (find (\<lambda>(rid, room). is_start room) (rooms world))"

text \<open>Python's \<^verbatim>\<open>str(b).lower()\<close> for a boolean.\<close>

definition str_bool :: "bool \<Rightarrow> string" where
  "str_bool b = (if b then ''true'' else ''false'')"

text \<open>
  The \<^verbatim>\<open>to_ini_section\<close> methods: the key-value pairs a record is written as. The
  pairs of the floating-point fields are left out (see above; their text is a decimal
  numeral).
\<close>

definition room_to_ini_section :: "Room \<Rightarrow> (string \<times> string) list" where
  "room_to_ini_section r =
     (let d = [(''name'', room_name r), (''description'', room_description r)];
          d = dict_update d (exits r);
          d = dict_update d (room_properties r)
      in if is_start r then dict_set d ''start'' ''true'' else d)"

definition object_to_ini_section :: "GameObject \<Rightarrow> (string \<times> string) list" where
  "object_to_ini_section ob =
     (let d = [(''name'', obj_name ob), (''description'', obj_description ob),
               (''location'', location ob), (''takeable'', str_bool (takeable ob))];
          d = (if is_weapon ob
               then dict_set (dict_set d ''weapon'' ''true'') ''damage'' (str_int (damage ob))
               else d);
          d = (if is_consumable ob
               then dict_set (dict_set d ''consumable'' ''true'')
                      ''health_restore'' (str_int (health_restore ob))
               else d);
          d = (if is_container ob then dict_set d ''container'' ''true'' else d);
          d = (if is_wearable ob
               then dict_set (dict_set d ''wearable'' ''true'') ''worn'' ''false''
               else d);
          d = (if bribe_value ob \<noteq> [] then dict_set d ''bribe_value'' (bribe_value ob) else d);
          d = (if valid_verbs ob \<noteq> []
               then dict_set d ''valid_verbs'' (py_join '', '' (valid_verbs ob))
               else d)
      in dict_update d (obj_properties ob))"

definition sprite_to_ini_section :: "Sprite \<Rightarrow> (string \<times> string) list" where
  "sprite_to_ini_section s =
     (let d = [(''type'', ''sprite''), (''name'', sprite_name s),
               (''description'', sprite_description s),
               (''health'', str_int (health s)), (''damage'', str_int (sprite_damage s)),
               (''ai_behavior'', ai_behavior s),
               (''spawn_rooms'', py_join '', '' (spawn_rooms s)),
               (''can_pickup'', str_bool (can_pickup s)), (''takeable'', ''false'')];
          d = (if loot_on_death s \<noteq> [] then dict_set d ''loot_on_death'' (loot_on_death s) else d)
      in dict_update d (sprite_properties s))"

definition transformation_to_ini_section :: "Transformation \<Rightarrow> (string \<times> string) list" where
  "transformation_to_ini_section t =
     (let d = [(''object_id'', subject_object_id t), (''state'', state_required t),
               (''turns_required'', str_int (turns_required t)),
               (''new_state'', new_state t), (''message'', message t)];
          d = (if new_object_id t \<noteq> [] then dict_set d ''new_object_id'' (new_object_id t) else d);
          d = (if requires_object t \<noteq> [] then dict_set d ''requires_object'' (requires_object t) else d);
          d = (if requires_object_2 t \<noteq> []
               then dict_set d ''requires_object_2'' (requires_object_2 t) else d);
          d = (if location_property t \<noteq> []
               then dict_set d ''location_has_property'' (location_property t) else d);
          d = (if new_location t \<noteq> [] then dict_set d ''new_location'' (new_location t) else d)
      in dict_update d (transform_properties t))"

text \<open>
  \<^verbatim>\<open>SDConfig.to_ini_sections\<close>: three sections; the guidance-scale pair of the settings
  section is left out.
\<close>

definition sd_to_ini_sections :: "SDConfig \<Rightarrow> (string \<times> (string \<times> string) list) list" where
  "sd_to_ini_sections c =
     [(''settings'',
        [(''default_steps'', str_int (steps c)), (''default_width'', str_int (width c)),
         (''default_height'', str_int (height c)), (''default_sampler'', sampler c),
         (''cache_images'', str_bool (cache_images c)), (''image_format'', ''jpg''),
         (''image_quality'', ''88'')]),
      (''prompt_style'',
        [(''scene_suffix'', scene_suffix c), (''negative_prompt'', negative_prompt c)]),
      (''SD1'',
        [(''host'', host c), (''port'', str_int (port c)), (''weight'', ''1''),
         (''timeout'', ''60''), (''enabled'', ''true'')])]"

section \<open>The sprite factory (sprite\_factory.py)\<close>

definition SpriteRole_members :: "SpriteRole list" where
  "SpriteRole_members = [HERO, VILLAIN, NEUTRAL, BOSS, ALLY, GUARD]"

definition ROLE_KEYWORDS :: "(SpriteRole \<times> string list) list" where
  "ROLE_KEYWORDS =
  [
    (VILLAIN,
     [''villain'', ''enemy'', ''guard'', ''soldier'', ''officer'', ''agent'',
      ''monster'', ''demon'', ''dragon'', ''dark'', ''evil'', ''bad'', ''boss'',
      ''commander'', ''general'', ''overlord'', ''antagonist'', ''gestapo'',
      ''mib'', ''alien'', ''troll'', ''orc'', ''zombie'', ''vampire'']),
    (BOSS,
     [''boss'', ''chief'', ''leader'', ''king'', ''queen'', ''emperor'',
      ''overlord'', ''master'', ''commander'', ''colonel'', ''general'',
      ''admiral'', ''director'', ''president'']),
    (ALLY,
     [''ally'', ''friend'', ''partner'', ''companion'', ''hero'', ''helper'',
      ''medic'', ''doctor'', ''nurse'', ''priest'', ''father'', ''chaplain'',
      ''hawkeye'', ''bj'', ''radar'', ''mulcahy'', ''hogan'', ''newkirk'',
      ''carter'', ''lebeau'', ''kinchloe'']),
    (NEUTRAL,
     [''clerk'', ''shopkeeper'', ''merchant'', ''civilian'', ''villager'',
      ''butler'', ''maid'', ''servant'', ''cook'', ''farmer'', ''child'',
      ''schultz'', ''klink'', ''igor'', ''klinger'', ''winchester'',
      ''margaret'', ''potter'', ''frank'']),
    (GUARD,
     [''guard'', ''sentry'', ''patrol'', ''watchman'', ''security'',
      ''trooper'', ''private'', ''grunt''])
  ]"

definition ROLE_BEHAVIOR :: "(SpriteRole \<times> string) list" where
  "ROLE_BEHAVIOR =
     [(HERO, ''ally_support''), (VILLAIN, ''aggressive_patrol''), (NEUTRAL, ''neutral_npc''),
      (BOSS, ''aggressive_patrol''), (ALLY, ''ally_support''), (GUARD, ''patrol_basic'')]"

text \<open>The hand-tuned overrides: name fragment, behaviour, role (the aggression is left out).\<close>

definition KNOWN_CHARACTER_OVERRIDES :: "(string \<times> string \<times> SpriteRole) list" where
  "KNOWN_CHARACTER_OVERRIDES =
     [(''schultz'', ''willful_blindness'', NEUTRAL),
      (''klink'', ''pompous_bluster'', NEUTRAL),
      (''burkhalter'', ''pompous_authority'', NEUTRAL),
      (''radar'', ''logistics_genius'', ALLY),
      (''klinger'', ''escape_artist'', NEUTRAL),
      (''hawkeye'', ''ally_wit'', ALLY),
      (''potter'', ''commanding_fair'', ALLY),
      (''margaret'', ''regulation_authority'', NEUTRAL),
      (''frank'', ''regulation_enforcer'', VILLAIN),
      (''winchester'', ''pompous_bluster'', NEUTRAL),
      (''mulcahy'', ''moral_compass'', ALLY),
      (''barbie'', ''neutral_npc'', NEUTRAL),
      (''ken'', ''neutral_npc'', NEUTRAL),
      (''skipper'', ''neutral_npc'', NEUTRAL),
      (''tabitha'', ''magic_user'', ALLY),
      (''samantha'', ''magic_user'', ALLY),
      (''darrin'', ''neutral_npc'', NEUTRAL)]"

definition make_id :: "string \<Rightarrow> string" where
  "make_id n =
     replace_char CHR ''-'' CHR ''_''
       (remove_char (CHR 0x27)
         (replace_char CHR '' '' CHR ''_'' (py_strip (py_lower n)))) @ ''_template''"

definition role_keyword_scores :: "string \<Rightarrow> (SpriteRole \<times> int) list" where
  "role_keyword_scores name_lower =
     fold (\<lambda>(r, keywords) scores.
             fold (\<lambda>kw scores. if py_in kw name_lower then add_score scores r 1 else scores)
               keywords scores)
       ROLE_KEYWORDS (map (\<lambda>r. (r, 0)) SpriteRole_members)"

text \<open>\<^verbatim>\<open>_classify\<close>: the role and the behaviour tag of a name.\<close>

definition classify_sprite :: "string \<Rightarrow> SpriteRole \<times> string" where
  "classify_sprite n =
     (let name_lower = py_strip (py_lower n)
      in case find (\<lambda>(known, ov). py_in known name_lower) KNOWN_CHARACTER_OVERRIDES of
           Some (known, behavior, r) \<Rightarrow> (r, behavior)
         | None \<Rightarrow>
            (let scores = role_keyword_scores name_lower;
                 best = py_max_key (score_of scores) (hd (dict_keys scores)) (tl (dict_keys scores));
                 best = (if score_of scores best = 0 then NEUTRAL else best);
                 behavior = (case dict_get ROLE_BEHAVIOR best of
                               Some b \<Rightarrow> b | None \<Rightarrow> ''neutral_npc'')
             in (best, behavior)))"

text \<open>
  \<^verbatim>\<open>int(x * c)\<close> for an integer \<open>x\<close> and the decimal constant \<open>c = num / den\<close>:
  truncation toward zero of the exact product (the floating-point product truncates to the
  same integer for the magnitudes a theme holds).
\<close>

definition int_times :: "int \<Rightarrow> int \<Rightarrow> int \<Rightarrow> int" where
  "int_times x num den =
     (if 0 \<le> x * num then (x * num) div den else - ((- (x * num)) div den))"

definition calc_stats :: "SpriteRole \<Rightarrow> ThemeDefaults \<Rightarrow> int \<times> int" where
  "calc_stats r th =
     (if r = BOSS then (boss_health th, int_times (td_base_damage th) 15 10)
      else if r = ALLY \<or> r = HERO
        then (int_times (minion_health th) 13 10, int_times (td_base_damage th) 8 10)
      else if r = NEUTRAL
        then (int_times (minion_health th) 9 10, int_times (td_base_damage th) 4 10)
      else if r = GUARD then (minion_health th, int_times (td_base_damage th) 11 10)
      else (int_times (minion_health th) 11 10, td_base_damage th))"

definition assign_spawn_rooms :: "nat \<Rightarrow> nat \<Rightarrow> string list \<Rightarrow> string list" where
  "assign_spawn_rooms idx n_names rids =
     (if rids = [] then []
      else let rooms_per = max 1 (length rids div max 1 n_names);
               start = (idx * rooms_per) mod length rids
           in dedup_first []
                (map (\<lambda>j. rids ! ((start + j) mod length rids)) [0 ..< min 2 rooms_per]))"

definition assign_loot :: "WorldConfig \<Rightarrow> SpriteRole \<Rightarrow> rng \<Rightarrow> string \<times> rng" where
  "assign_loot world r g =
     (if objects world = [] then ([], g)
      else let candidates = map fst (filter (\<lambda>(oid, ob). takeable ob \<and> location ob \<noteq> ''none'')
                                       (objects world))
           in if candidates = [] then ([], g)
              else let best = filter (\<lambda>oid. case dict_get (objects world) oid of
                                               Some ob \<Rightarrow> is_weapon ob \<or> is_consumable ob
                                             | None \<Rightarrow> False) candidates
                   in if r = BOSS \<and> best \<noteq> []
                      then (best ! fst (randbelow (length best) g),
                            snd (randbelow (length best) g))
                      else (candidates ! fst (randbelow (length candidates) g),
                            snd (randbelow (length candidates) g)))"

definition sprite_describe :: "string \<Rightarrow> SpriteRole \<Rightarrow> ThemeDefaults \<Rightarrow> string" where
  "sprite_describe n r th =
     n @ ''. '' @
     (case r of
        HERO \<Rightarrow> ''A central figure in this '' @ flavor_adjective th @ '' world.''
      | VILLAIN \<Rightarrow> ''A hostile presence in this '' @ flavor_noun th @ ''.''
      | NEUTRAL \<Rightarrow> ''A resident of this '' @ flavor_adjective th @ '' '' @ flavor_noun th @ ''.''
      | BOSS \<Rightarrow> ''The most dangerous entity in this '' @ flavor_noun th @ ''.''
      | ALLY \<Rightarrow> ''A trustworthy ally in this '' @ flavor_adjective th @ '' world.''
      | GUARD \<Rightarrow> ''A patrol element in this '' @ flavor_adjective th @ '' ''
                  @ flavor_noun th @ ''.'')"

text \<open>
  One round of the loop of \<^verbatim>\<open>generate_sprites\<close>, for the name at position \<open>i\<close>;
  the state is the dictionary built so far and the random source.
\<close>

definition sprite_step ::
  "nat \<Rightarrow> ThemeDefaults \<Rightarrow> WorldConfig \<Rightarrow> string list \<Rightarrow> nat \<times> string
     \<Rightarrow> (string \<times> Sprite) list \<times> rng \<Rightarrow> (string \<times> Sprite) list \<times> rng" where
  "sprite_step n_names th world rids entry st =
     (let (i, n) = entry; (acc, g) = st
      in if py_strip n = [] then (acc, g)
         else let sid = make_id n;
                  sid = (if sid \<in> set (dict_keys acc) then sid @ ''_'' @ str_nat i else sid);
                  (r, behavior) = classify_sprite n;
                  (hp, dmg) = calc_stats r th;
                  spawn = assign_spawn_rooms i n_names rids;
                  (loot, g') = assign_loot world r g
              in (dict_set acc sid
                    \<lparr> sprite_id = sid, sprite_name = n @ '' (template)'',
                      sprite_description = sprite_describe n r th,
                      health = hp, sprite_damage = dmg, ai_behavior = behavior,
                      spawn_rooms = spawn, loot_on_death = loot,
                      can_pickup = (r \<noteq> BOSS), role = r, sprite_properties = [] \<rparr>,
                  g'))"

definition generate_sprites ::
  "string list \<Rightarrow> ThemeDefaults \<Rightarrow> WorldConfig \<Rightarrow> rng \<Rightarrow> (string \<times> Sprite) list \<times> rng" where
  "generate_sprites names th world g =
     (if names = [] \<or> rooms world = [] then ([], g)
      else fold (sprite_step (length names) th world (dict_keys (rooms world)))
             (zip [0 ..< length names] names) ([], g))"

text \<open>What the factory promises of a sprite's spawn rooms, given the room ids of the world.\<close>

definition spawn_ok :: "string list \<Rightarrow> Sprite \<Rightarrow> bool" where
  "spawn_ok rids s =
     (spawn_rooms s \<noteq> [] \<and> length (spawn_rooms s) \<le> 2 \<and> set (spawn_rooms s) \<subseteq> set rids)"

subsection \<open>A small world: two rooms, one object\<close>

definition scenario_theme :: ThemeDefaults where
  "scenario_theme =
     \<lparr> td_theme = ORIGINAL, sd_scene_suffix = ''cinematic'', sd_negative_prompt = ''blurry'',
       td_base_damage = 20, boss_health = 150, minion_health = 50,
       suggested_room_prefixes = [''Hall'', ''Cellar''],
       suggested_object_types = [''sword''], default_physics = [LOCK_KEY],
       suggested_verbs_extra = [], flavor_adjective = ''quiet'', flavor_noun = ''place'' \<rparr>"

definition scenario_room :: "string \<Rightarrow> string \<Rightarrow> (string \<times> string) list \<Rightarrow> bool \<Rightarrow> Room" where
  "scenario_room rid n ex st =
     \<lparr> room_id = rid, room_name = n, room_description = ''The '' @ n @ ''.'',
       exits = ex, room_properties = [], is_start = st \<rparr>"

definition scenario_object :: "string \<Rightarrow> string \<Rightarrow> GameObject" where
  "scenario_object oid loc =
     \<lparr> object_id = oid, obj_name = ''access key'', obj_description = ''A key.'',
       location = loc, takeable = True, is_weapon = False, damage = 0,
       is_consumable = False, health_restore = 0, is_container = False,
       is_wearable = False, bribe_value = [], valid_verbs = [''take'', ''drop''],
       obj_properties = [] \<rparr>"

definition scenario_world :: WorldConfig where
  "scenario_world =
     \<lparr> world_name = ''Quiet Place'', theme = ORIGINAL,
       rooms = [(''entrance'', scenario_room ''entrance'' ''Entrance'' [(''north'', ''hall'')] True),
                (''hall'', scenario_room ''hall'' ''Hall'' [(''south'', ''entrance'')] False)],
       objects = [(''starter_key'', scenario_object ''starter_key'' ''entrance'')],
       sprites = [], transformations = [],
       combat = \<lparr> base_damage = 20, respawn_location = ''entrance'', death_penalty = 3,
                  friendly_fire = False \<rparr>,
       sd_config = \<lparr> host = ''127.0.0.1'', port = 7860, steps = 25, width = 512, height = 512,
                     sampler = ''DPM++ 2M'', scene_suffix = ''cinematic'',
                     negative_prompt = ''blurry'', cache_images = True \<rparr>,
       physics_applied = [] \<rparr>"

section \<open>The validation engine (validation\_engine.py)\<close>

text \<open>
  A message of the validator or of the round-trip verifier: one constructor for each
  format string of the source, holding the values the string interpolates. The prefixes
  \<^verbatim>\<open>FAIL:\<close> and \<^verbatim>\<open>WARN:\<close> that \<^verbatim>\<open>add_error\<close> and \<^verbatim>\<open>add_warning\<close> put in front
  are told by the list a message stands in.
\<close>

datatype vmsg =
    ExitMissing string string string
  | NoStartRoom
  | MultipleStartRooms "string list"
  | Unreachable string
  | RoomMissingName string
  | RoomMissingDescription string
  | ObjectLocationMissing string string
  | ObjectLocationNotContainer string string
  | ObjectMissingName string
  | ObjectMissingDescription string
  | SpawnRoomMissing string string
  | NoSpawnRooms string
  | LootMissing string string
  | SpriteMissingName string
  | TransformObjectMissing string string
  | TransformNewObjectMissing string string
  | TransformRequiresObjectMissing string string
  | TransformRequiresObject2Missing string string
  | TransformNewLocationMissing string string
  | RespawnLocationMissing string
  | SDSectionNotSD string
  | SDCombinedUrl string
  | SDMissingHost string
  | SDMissingPort string
  | BarePercent string string string
  | DuplicateSectionId string
  | FileMissing string
  | ExitMissingAfterWrite string string string
  | ExitNotReadByEngine string string
  | ObjectLocationMissingAfterWrite string string
  | SpawnRoomMissingAfterWrite string string
  | TransformRefMissingAfterWrite string string string
  | SDSectionNotSDAfterWrite string
  | BarePercentLineAfterWrite string nat
  | PipelineError string

record ValidationResult =
  errors :: "vmsg list"
  warnings :: "vmsg list"

definition new_result :: ValidationResult where
  "new_result = \<lparr> errors = [], warnings = [] \<rparr>"

definition is_valid :: "ValidationResult \<Rightarrow> bool" where
  "is_valid res = (length (errors res) = 0)"

definition add_error :: "vmsg \<Rightarrow> ValidationResult \<Rightarrow> ValidationResult" where
  "add_error m res = res \<lparr> errors := errors res @ [m] \<rparr>"

definition add_warning :: "vmsg \<Rightarrow> ValidationResult \<Rightarrow> ValidationResult" where
  "add_warning m res = res \<lparr> warnings := warnings res @ [m] \<rparr>"

definition add_errors :: "vmsg list \<Rightarrow> ValidationResult \<Rightarrow> ValidationResult" where
  "add_errors ms res = fold add_error ms res"

text \<open>
  The search \<^verbatim>\<open>(?<!%)%(?!%)\<close>: a percent sign with no percent sign right before it
  and none right after it. \<open>bare_percent_from prev s\<close> scans \<open>s\<close>, \<open>prev\<close> telling
  whether the character before \<open>s\<close> is a percent sign.
\<close>

fun bare_percent_from :: "bool \<Rightarrow> string \<Rightarrow> bool" where
  "bare_percent_from prev [] = False"
| "bare_percent_from prev [c] = (c = CHR ''%'' \<and> \<not> prev)"
| "bare_percent_from prev (c # d # s) =
     ((c = CHR ''%'' \<and> \<not> prev \<and> d \<noteq> CHR ''%'') \<or> bare_percent_from (c = CHR ''%'') (d # s))"

definition bare_percent :: "string \<Rightarrow> bool" where
  "bare_percent s = bare_percent_from False s"

definition upper_char :: "char \<Rightarrow> char" where
  "upper_char c =
     (case map_of (zip ''abcdefghijklmnopqrstuvwxyz'' ''ABCDEFGHIJKLMNOPQRSTUVWXYZ'') c of
        Some u \<Rightarrow> u | None \<Rightarrow> c)"

definition py_upper :: "string \<Rightarrow> string" where
  "py_upper s = map upper_char s"

subsection \<open>The eighteen checks of \<^verbatim>\<open>ValidationEngine.validate\<close>\<close>

text \<open>Check 1: every exit leads to a room.\<close>

definition check_exits :: "WorldConfig \<Rightarrow> vmsg list" where
  "check_exits world =
     concat (map (\<lambda>(rid, room).
        concat (map (\<lambda>(direction, target).
                  if target \<notin> room_ids world then [ExitMissing rid direction target] else [])
                (exits room)))
       (rooms world))"

text \<open>Check 2: exactly one start room.\<close>

definition start_rooms :: "WorldConfig \<Rightarrow> string list" where
  "start_rooms world = map fst (filter (\<lambda>(rid, r). is_start r) (rooms world))"

definition check_start :: "WorldConfig \<Rightarrow> vmsg list" where
  "check_start world =
     (if length (start_rooms world) = 0 then [NoStartRoom]
      else if length (start_rooms world) > 1 then [MultipleStartRooms (start_rooms world)]
      else [])"

text \<open>
  Check 3: the breadth-first search from the first start room. \<open>bfs_rooms rs queue reachable\<close>
  is the \<^verbatim>\<open>while queue\<close> loop; the set \<^verbatim>\<open>reachable\<close> is kept as a list.
\<close>

definition room_successors :: "(string \<times> Room) list \<Rightarrow> string \<Rightarrow> string list \<Rightarrow> string list" where
  "room_successors rs cur reachable =
     (case dict_get rs cur of
        None \<Rightarrow> []
      | Some room \<Rightarrow>
          filter (\<lambda>t. t \<in> set (dict_keys rs) \<and> t \<notin> set reachable) (map snd (exits room)))"

function bfs_rooms :: "(string \<times> Room) list \<Rightarrow> string list \<Rightarrow> string list \<Rightarrow> string list" where
  "bfs_rooms rs [] reachable = reachable"
| "bfs_rooms rs (cur # queue) reachable =
     (if cur \<in> set reachable then bfs_rooms rs queue reachable
      else bfs_rooms rs (queue @ room_successors rs cur (cur # reachable)) (cur # reachable))"
  by pat_completeness auto
termination
proof (relation "measures [\<lambda>(rs, queue, reachable).
                             card ((set (dict_keys rs) \<union> set queue) - set reachable),
                           \<lambda>(rs, queue, reachable). length queue]")
  show "wf (measures [\<lambda>(rs, queue, reachable).
                             card ((set (dict_keys rs) \<union> set queue) - set reachable),
                           \<lambda>(rs, queue, reachable). length queue])"
    by simp
next
  fix rs :: "(string \<times> Room) list" and cur :: string and queue reachable :: "string list"
  assume "cur \<in> set reachable"
  have "(set (dict_keys rs) \<union> set queue) - set reachable
          \<subseteq> (set (dict_keys rs) \<union> set (cur # queue)) - set reachable"
    by auto
  then have "card ((set (dict_keys rs) \<union> set queue) - set reachable)
          \<le> card ((set (dict_keys rs) \<union> set (cur # queue)) - set reachable)"
    by (intro card_mono) auto
  then show "((rs, queue, reachable), (rs, cur # queue, reachable))
        \<in> measures [\<lambda>(rs, queue, reachable).
                             card ((set (dict_keys rs) \<union> set queue) - set reachable),
                           \<lambda>(rs, queue, reachable). length queue]"
    by auto
next
  fix rs :: "(string \<times> Room) list" and cur :: string and queue reachable :: "string list"
  assume c: "cur \<notin> set reachable"
  let ?q = "queue @ room_successors rs cur (cur # reachable)"
  have "set (room_successors rs cur (cur # reachable)) \<subseteq> set (dict_keys rs)"
    by (auto simp: room_successors_def split: option.splits)
  then have "(set (dict_keys rs) \<union> set ?q) - set (cur # reachable)
          \<subset> (set (dict_keys rs) \<union> set (cur # queue)) - set reachable"
    using c by auto
  then have "card ((set (dict_keys rs) \<union> set ?q) - set (cur # reachable))
          < card ((set (dict_keys rs) \<union> set (cur # queue)) - set reachable)"
    by (intro psubset_card_mono) auto
  then show "((rs, ?q, cur # reachable), (rs, cur # queue, reachable))
        \<in> measures [\<lambda>(rs, queue, reachable).
                             card ((set (dict_keys rs) \<union> set queue) - set reachable),
                           \<lambda>(rs, queue, reachable). length queue]"
    by auto
qed

definition check_connectivity :: "WorldConfig \<Rightarrow> vmsg list" where
  "check_connectivity world =
     (if start_rooms world \<noteq> [] \<and> length (rooms world) > 1
      then let reachable = bfs_rooms (rooms world) [hd (start_rooms world)] []
           in map Unreachable (filter (\<lambda>rid. rid \<notin> set reachable) (dict_keys (rooms world)))
      else [])"

text \<open>Checks 4, 6 and 9: names and descriptions are not blank.\<close>

definition check_room_text :: "WorldConfig \<Rightarrow> vmsg list" where
  "check_room_text world =
     concat (map (\<lambda>(rid, room).
        (if py_strip (room_name room) = [] then [RoomMissingName rid] else []) @
        (if py_strip (room_description room) = [] then [RoomMissingDescription rid] else []))
       (rooms world))"

definition check_object_text :: "WorldConfig \<Rightarrow> vmsg list" where
  "check_object_text world =
     concat (map (\<lambda>(oid, ob).
        (if py_strip (obj_name ob) = [] then [ObjectMissingName oid] else []) @
        (if py_strip (obj_description ob) = [] then [ObjectMissingDescription oid] else []))
       (objects world))"

definition check_sprite_name :: "WorldConfig \<Rightarrow> vmsg list" where
  "check_sprite_name world =
     concat (map (\<lambda>(sid, s). if py_strip (sprite_name s) = [] then [SpriteMissingName sid] else [])
       (sprites world))"

text \<open>
  Check 5: an object's location is a room or a container object.
  \<open>object_is_container world oid\<close> is \<^verbatim>\<open>world.objects[oid].is_container\<close>, looked up
  only for an \<open>oid\<close> that is a key.
\<close>

definition object_is_container :: "WorldConfig \<Rightarrow> string \<Rightarrow> bool" where
  "object_is_container world oid =
     (case dict_get (objects world) oid of Some holder \<Rightarrow> is_container holder | None \<Rightarrow> False)"

definition check_object_locations :: "WorldConfig \<Rightarrow> vmsg list" where
  "check_object_locations world =
     concat (map (\<lambda>(oid, ob).
        if location ob \<noteq> [] \<and> location ob \<noteq> ''none''
        then (if location ob \<notin> room_ids world \<and> location ob \<notin> object_ids world
              then [ObjectLocationMissing oid (location ob)]
              else if location ob \<in> object_ids world
              then (if \<not> object_is_container world (location ob)
                    then [ObjectLocationNotContainer oid (location ob)] else [])
              else [])
        else [])
       (objects world))"

text \<open>
  Check 7: spawn rooms. One round of the loop over the sprites: an error for every spawn
  room that is no room, and a warning when the list is empty.
\<close>

definition check_spawn_rooms_of :: "WorldConfig \<Rightarrow> string \<times> Sprite \<Rightarrow> ValidationResult \<Rightarrow> ValidationResult" where
  "check_spawn_rooms_of world entry res =
     (let (sid, s) = entry;
          res = add_errors (map (SpawnRoomMissing sid)
                             (filter (\<lambda>r. r \<notin> room_ids world) (spawn_rooms s))) res
      in if spawn_rooms s = [] then add_warning (NoSpawnRooms sid) res else res)"

definition check_spawn_rooms :: "WorldConfig \<Rightarrow> ValidationResult \<Rightarrow> ValidationResult" where
  "check_spawn_rooms world res = fold (check_spawn_rooms_of world) (sprites world) res"

text \<open>Check 8: loot.\<close>

definition check_loot :: "WorldConfig \<Rightarrow> vmsg list" where
  "check_loot world =
     concat (map (\<lambda>(sid, s).
        if loot_on_death s \<noteq> [] \<and> loot_on_death s \<notin> object_ids world
        then [LootMissing sid (loot_on_death s)] else [])
       (sprites world))"

text \<open>Checks 10 to 13: the references of a transformation.\<close>

definition check_transform_object :: "WorldConfig \<Rightarrow> vmsg list" where
  "check_transform_object world =
     concat (map (\<lambda>(tid, t).
        if subject_object_id t \<notin> object_ids world
        then [TransformObjectMissing tid (subject_object_id t)] else [])
       (transformations world))"

definition check_transform_new_object :: "WorldConfig \<Rightarrow> vmsg list" where
  "check_transform_new_object world =
     concat (map (\<lambda>(tid, t).
        if new_object_id t \<noteq> [] \<and> new_object_id t \<notin> object_ids world
        then [TransformNewObjectMissing tid (new_object_id t)] else [])
       (transformations world))"

definition check_transform_requires :: "WorldConfig \<Rightarrow> vmsg list" where
  "check_transform_requires world =
     concat (map (\<lambda>(tid, t).
        (if requires_object t \<noteq> [] \<and> requires_object t \<notin> object_ids world
         then [TransformRequiresObjectMissing tid (requires_object t)] else []) @
        (if requires_object_2 t \<noteq> [] \<and> requires_object_2 t \<notin> object_ids world
         then [TransformRequiresObject2Missing tid (requires_object_2 t)] else []))
       (transformations world))"

definition check_transform_new_location :: "WorldConfig \<Rightarrow> vmsg list" where
  "check_transform_new_location world =
     concat (map (\<lambda>(tid, t).
        if new_location t \<noteq> [] \<and> new_location t \<notin> room_ids world
        then [TransformNewLocationMissing tid (new_location t)] else [])
       (transformations world))"

text \<open>Check 14: the respawn room.\<close>

definition check_respawn :: "WorldConfig \<Rightarrow> vmsg list" where
  "check_respawn world =
     (if respawn_location (combat world) \<noteq> [] \<and> respawn_location (combat world) \<notin> room_ids world
      then [RespawnLocationMissing (respawn_location (combat world))] else [])"

text \<open>Checks 15 and 16: the sections of the image configuration.\<close>

definition check_sd_sections :: "WorldConfig \<Rightarrow> vmsg list" where
  "check_sd_sections world =
     concat (map (\<lambda>(sec, kv).
        if sec \<noteq> ''settings'' \<and> sec \<noteq> ''prompt_style'' \<and> \<not> starts_with (py_upper sec) ''SD''
        then [SDSectionNotSD sec] else [])
       (sd_to_ini_sections (sd_config world)))"

definition check_sd_host_port :: "WorldConfig \<Rightarrow> vmsg list" where
  "check_sd_host_port world =
     concat (map (\<lambda>(sec, kv).
        if sec \<noteq> ''settings'' \<and> sec \<noteq> ''prompt_style''
        then (if ''url'' \<in> set (dict_keys kv) then [SDCombinedUrl sec] else []) @
             (if ''host'' \<notin> set (dict_keys kv) then [SDMissingHost sec] else []) @
             (if ''port'' \<notin> set (dict_keys kv) then [SDMissingPort sec] else [])
        else [])
       (sd_to_ini_sections (sd_config world)))"

text \<open>Check 17: no bare percent sign in any value to be written.\<close>

definition check_pct :: "string \<Rightarrow> string \<Rightarrow> (string \<times> string) list \<Rightarrow> vmsg list" where
  "check_pct source sec kv =
     concat (map (\<lambda>(k, v). if bare_percent v then [BarePercent source sec k] else []) kv)"

definition check_percent :: "WorldConfig \<Rightarrow> vmsg list" where
  "check_percent world =
     concat (map (\<lambda>(rid, room). check_pct ''rooms'' rid (room_to_ini_section room)) (rooms world)) @
     concat (map (\<lambda>(oid, ob). check_pct ''objects'' oid (object_to_ini_section ob)) (objects world)) @
     concat (map (\<lambda>(sid, s). check_pct ''sprites'' sid (sprite_to_ini_section s)) (sprites world)) @
     concat (map (\<lambda>(tid, t). check_pct ''transforms'' tid (transformation_to_ini_section t))
               (transformations world))"

text \<open>
  Check 18: no identifier is used by two record collections. \<open>duplicates seen ids\<close> is the
  loop over \<^verbatim>\<open>all_ids\<close> with the set \<^verbatim>\<open>seen\<close>.
\<close>

fun duplicates :: "string list \<Rightarrow> string list \<Rightarrow> vmsg list" where
  "duplicates seen [] = []"
| "duplicates seen (i # ids) =
     (if i \<in> set seen then DuplicateSectionId i # duplicates (i # seen) ids
      else duplicates (i # seen) ids)"

definition check_duplicate_ids :: "WorldConfig \<Rightarrow> vmsg list" where
  "check_duplicate_ids world =
     duplicates []
       (dict_keys (rooms world) @ dict_keys (objects world) @ dict_keys (sprites world)
        @ dict_keys (transformations world))"

text \<open>
  The validator: the checks in the order of the source, each appending to the result.
  Where the source iterates over a set (the unreachable rooms of check 3, the id sets of
  check 18) the model follows the order of the dictionary.
\<close>

definition validate :: "WorldConfig \<Rightarrow> ValidationResult" where
  "validate world =
     (let res = new_result;
          res = add_errors (check_exits world) res;
          res = add_errors (check_start world) res;
          res = add_errors (check_connectivity world) res;
          res = add_errors (check_room_text world) res;
          res = add_errors (check_object_locations world) res;
          res = add_errors (check_object_text world) res;
          res = check_spawn_rooms world res;
          res = add_errors (check_loot world) res;
          res = add_errors (check_sprite_name world) res;
          res = add_errors (check_transform_object world) res;
          res = add_errors (check_transform_new_object world) res;
          res = add_errors (check_transform_requires world) res;
          res = add_errors (check_transform_new_location world) res;
          res = add_errors (check_respawn world) res;
          res = add_errors (check_sd_sections world) res;
          res = add_errors (check_sd_host_port world) res;
          res = add_errors (check_percent world) res;
          res = add_errors (check_duplicate_ids world) res
      in res)"

subsection \<open>The round-trip verifier\<close>

text \<open>
  A written artifact as the verifier sees it: the sections \<^verbatim>\<open>configparser\<close> reads from
  it (section name, then option name and value, option names in lower case as the parser
  delivers them) and its raw lines. Parsing and printing the text format belong to the
  library. The disk is a dictionary from path to file; a path that is no key does not
  exist.
\<close>

type_synonym ini_cfg = "(string \<times> (string \<times> string) list) list"

record ini_file =
  ini_sections :: ini_cfg
  ini_lines :: "string list"

type_synonym disk = "(string \<times> ini_file) list"

definition path_join :: "string \<Rightarrow> string \<Rightarrow> string" where
  "path_join dir f = (if dir = [] then f else if last dir = CHR ''/'' then dir @ f else dir @ ''/'' @ f)"

definition ENGINE_DIRECTIONS :: "string list" where
  "ENGINE_DIRECTIONS = [''north'', ''south'', ''east'', ''west'', ''up'', ''down'']"

definition INVALID_FOR_ENGINE :: "string list" where
  "INVALID_FOR_ENGINE =
     [''northeast'', ''northwest'', ''southeast'', ''southwest'', ''enter'', ''exit'']"

definition filemap :: "string \<Rightarrow> (string \<times> string) list" where
  "filemap output_dir =
     [(''rooms'', path_join output_dir ''rooms.ini''),
      (''objects'', path_join output_dir ''objects.ini''),
      (''sprites'', path_join output_dir ''sprites.ini''),
      (''transformations'', path_join output_dir ''transformations.ini''),
      (''combat'', path_join output_dir ''combat.ini''),
      (''sd'', path_join output_dir ''stablediffusion.ini'')]"

text \<open>\<^verbatim>\<open>s.split(',')\<close>, and the entries of a comma-separated option, stripped, blanks dropped.\<close>

fun split_on :: "char \<Rightarrow> string \<Rightarrow> string list" where
  "split_on sep [] = [[]]"
| "split_on sep (c # cs) =
     (if c = sep then [] # split_on sep cs
      else (case split_on sep cs of [] \<Rightarrow> [[c]] | w # ws \<Rightarrow> (c # w) # ws))"

definition spawn_entries :: "string \<Rightarrow> string list" where
  "spawn_entries raw = filter (\<lambda>x. x \<noteq> []) (map py_strip (split_on CHR '','' raw))"

definition opt_get :: "(string \<times> string) list \<Rightarrow> string \<Rightarrow> string" where
  "opt_get d k = (case dict_get d k of Some v \<Rightarrow> v | None \<Rightarrow> [])"

definition verify_room_section :: "string set \<Rightarrow> string \<times> (string \<times> string) list \<Rightarrow> vmsg list" where
  "verify_room_section room_set sec =
     (let (s, d) = sec
      in concat (map (\<lambda>dr. case dict_get d dr of
                             Some target \<Rightarrow>
                               if target \<notin> room_set then [ExitMissingAfterWrite s dr target] else []
                           | None \<Rightarrow> [])
                  ENGINE_DIRECTIONS) @
         concat (map (\<lambda>dr. if dr \<in> set (dict_keys d) then [ExitNotReadByEngine s dr] else [])
                  INVALID_FOR_ENGINE))"

definition verify_object_section ::
  "string set \<Rightarrow> string set \<Rightarrow> string \<times> (string \<times> string) list \<Rightarrow> vmsg list" where
  "verify_object_section room_set object_set sec =
     (let (s, d) = sec; loc = opt_get d ''location''
      in if loc \<noteq> [] \<and> loc \<noteq> ''none'' \<and> loc \<notin> room_set \<and> loc \<notin> object_set
         then [ObjectLocationMissingAfterWrite s loc] else [])"

definition verify_sprite_section :: "string set \<Rightarrow> string \<times> (string \<times> string) list \<Rightarrow> vmsg list" where
  "verify_sprite_section room_set sec =
     (let (s, d) = sec
      in map (SpawnRoomMissingAfterWrite s)
           (filter (\<lambda>r. r \<notin> room_set) (spawn_entries (opt_get d ''spawn_rooms''))))"

definition verify_transformation_section ::
  "string set \<Rightarrow> string \<times> (string \<times> string) list \<Rightarrow> vmsg list" where
  "verify_transformation_section object_set sec =
     (let (s, d) = sec
      in concat (map (\<lambda>k. if opt_get d k \<noteq> [] \<and> opt_get d k \<notin> object_set
                           then [TransformRefMissingAfterWrite s k (opt_get d k)] else [])
                  [''object_id'', ''new_object_id'', ''requires_object'', ''requires_object_2'']))"

definition verify_lines :: "string \<Rightarrow> string list \<Rightarrow> vmsg list" where
  "verify_lines fname ls =
     concat (map (\<lambda>(i, l). if bare_percent l then [BarePercentLineAfterWrite fname i] else [])
               (zip [1 ..< Suc (length ls)] ls))"

definition verify :: "disk \<Rightarrow> string \<Rightarrow> ValidationResult" where
  "verify dk output_dir =
     (let missing = concat (map (\<lambda>(fname, path).
                                   if dict_get dk path = None then [FileMissing path] else [])
                              (filemap output_dir));
          res = add_errors missing new_result
      in if errors res \<noteq> [] then res
         else
          let file = (\<lambda>fname. case dict_get dk (opt_get (filemap output_dir) fname) of
                                  Some f \<Rightarrow> f
                                | None \<Rightarrow> \<lparr> ini_sections = [], ini_lines = [] \<rparr>);
              room_set = set (dict_keys (ini_sections (file ''rooms'')));
              object_set = set (dict_keys (ini_sections (file ''objects'')));
              res = add_errors (concat (map (verify_room_section room_set)
                                          (ini_sections (file ''rooms'')))) res;
              res = add_errors (concat (map (verify_object_section room_set object_set)
                                          (ini_sections (file ''objects'')))) res;
              res = add_errors (concat (map (verify_sprite_section room_set)
                                          (ini_sections (file ''sprites'')))) res;
              res = add_errors (concat (map (verify_transformation_section object_set)
                                          (ini_sections (file ''transformations'')))) res;
              res = add_errors
                      (concat (map (\<lambda>(sec, d).
                                 if sec \<noteq> ''settings'' \<and> sec \<noteq> ''prompt_style''
                                    \<and> \<not> starts_with (py_upper sec) ''SD''
                                 then [SDSectionNotSDAfterWrite sec] else [])
                               (ini_sections (file ''sd'')))) res;
              res = add_errors
                      (concat (map (\<lambda>(fname, path). verify_lines fname (ini_lines (file fname)))
                                 (filemap output_dir))) res
          in res)"

section \<open>The orchestrator, from validation on (generator.py)\<close>

text \<open>
  Stages 1 to 8 of \<^verbatim>\<open>_run_pipeline\<close> assemble the world in memory and write nothing.
  Stages 9 to 11 are modelled here for an arbitrary assembled world. The serializer
  \<^verbatim>\<open>INIWriter.write_all\<close> is not among the sources; it is a parameter: given the world,
  the output directory and the disk it returns the map of written files and the new disk,
  or raises. The state records the disk and every call of the serializer and of the
  verifier.
\<close>

datatype io_event = WriteAllCalled string | VerifyCalled string

record io_state =
  disk_state :: disk
  calls :: "io_event list"

type_synonym ini_writer =
  "WorldConfig \<Rightarrow> string \<Rightarrow> disk \<Rightarrow> string + ((string \<times> string) list \<times> disk)"

record GeneratorResult =
  success :: bool
  result_world :: "WorldConfig option"
  written_files :: "(string \<times> string) list"
  validation_errors :: "vmsg list"
  validation_warnings :: "vmsg list"
  roundtrip_errors :: "vmsg list"
  summary :: string
  theme_used :: "WorldTheme option"

definition world_summary :: "WorldConfig \<Rightarrow> string" where
  "world_summary world =
     ''Rooms:'' @ str_nat (length (rooms world)) @ ''  Objects:'' @ str_nat (length (objects world))
     @ ''  Sprites:'' @ str_nat (length (sprites world))
     @ ''  Transforms:'' @ str_nat (length (transformations world))"

definition physics_value :: "PhysicsType \<Rightarrow> string" where
  "physics_value p =
     (case p of
        TEMPERATURE \<Rightarrow> ''temperature'' | ENERGY \<Rightarrow> ''energy'' | LOCK_KEY \<Rightarrow> ''lock_key''
      | CRAFTING \<Rightarrow> ''crafting'' | TELEPORTATION \<Rightarrow> ''teleportation''
      | DISGUISE \<Rightarrow> ''disguise'' | EXPLOSIVES \<Rightarrow> ''explosives'' | BRIBERY \<Rightarrow> ''bribery''
      | MAGIC \<Rightarrow> ''magic'' | MEDICAL \<Rightarrow> ''medical'' | GROWTH \<Rightarrow> ''growth''
      | ALIEN_TECH \<Rightarrow> ''alien_tech'')"

definition repr_str_list :: "string list \<Rightarrow> string" where
  "repr_str_list xs = ''['' @ py_join '', '' (map (\<lambda>x. [CHR 0x27] @ x @ [CHR 0x27]) xs) @ '']''"

definition run_pipeline_stages_9_to_11 ::
  "ini_writer \<Rightarrow> string \<Rightarrow> WorldTheme \<Rightarrow> WorldConfig \<Rightarrow> io_state
     \<Rightarrow> (string + GeneratorResult) \<times> io_state" where
  "run_pipeline_stages_9_to_11 write_all output_dir th world st =
     (let validation = validate world
      in if \<not> is_valid validation
         then (Inr \<lparr> success = False, result_world = Some world, written_files = [],
                     validation_errors = errors validation,
                     validation_warnings = warnings validation,
                     roundtrip_errors = [], summary = world_summary world,
                     theme_used = Some th \<rparr>, st)
         else
           let st1 = st \<lparr> calls := calls st @ [WriteAllCalled output_dir] \<rparr>
           in case write_all world output_dir (disk_state st1) of
                Inl exc \<Rightarrow> (Inl exc, st1)
              | Inr (written, dk) \<Rightarrow>
                 (let st2 = st1 \<lparr> disk_state := dk,
                                  calls := calls st1 @ [VerifyCalled output_dir] \<rparr>;
                      rt_result = verify dk output_dir
                  in (Inr \<lparr> success = is_valid rt_result, result_world = Some world,
                             written_files = written,
                             validation_errors = errors validation @ errors rt_result,
                             validation_warnings = warnings validation @ warnings rt_result,
                             roundtrip_errors = errors rt_result,
                             summary = world_summary world @ ''  |  Physics: ''
                                       @ repr_str_list (map physics_value (physics_applied world)),
                             theme_used = Some th \<rparr>, st2)))"

text \<open>
  \<^verbatim>\<open>generate\<close> wraps the pipeline: an exception becomes a failed result with one
  generic message.
\<close>

definition generate_stages_9_to_11 ::
  "ini_writer \<Rightarrow> string \<Rightarrow> WorldTheme \<Rightarrow> WorldConfig \<Rightarrow> io_state
     \<Rightarrow> GeneratorResult \<times> io_state" where
  "generate_stages_9_to_11 write_all output_dir th world st =
     (case run_pipeline_stages_9_to_11 write_all output_dir th world st of
        (Inr res, st') \<Rightarrow> (res, st')
      | (Inl exc, st') \<Rightarrow>
          (\<lparr> success = False, result_world = None, written_files = [],
             validation_errors = [PipelineError exc], validation_warnings = [],
             roundtrip_errors = [],
             summary = ''Generation failed with unexpected error.'',
             theme_used = None \<rparr>, st'))"

subsection \<open>What check 7 contributes\<close>

text \<open>The errors and the warnings of check 7, as functions of the sprite dictionary.\<close>

definition spawn_errors :: "WorldConfig \<Rightarrow> (string \<times> Sprite) list \<Rightarrow> vmsg list" where
  "spawn_errors world ss =
     concat (map (\<lambda>(sid, s). map (SpawnRoomMissing sid)
                                (filter (\<lambda>r. r \<notin> room_ids world) (spawn_rooms s))) ss)"

definition spawn_warnings :: "(string \<times> Sprite) list \<Rightarrow> vmsg list" where
  "spawn_warnings ss =
     concat (map (\<lambda>(sid, s). if spawn_rooms s = [] then [NoSpawnRooms sid] else []) ss)"

subsection \<open>Sample inputs\<close>

text \<open>
  A serializer to run the orchestrator with: it records one empty file for each of the six
  artifacts. The small world with an exit that leads nowhere, and with a sprite that has
  no spawn room.
\<close>

definition example_writer :: ini_writer where
  "example_writer world output_dir dk =
     Inr (map (\<lambda>(fname, path). (fname, path)) (filemap output_dir),
          fold (\<lambda>(fname, path) d. dict_set d path \<lparr> ini_sections = [], ini_lines = [] \<rparr>)
            (filemap output_dir) dk)"

definition dangling_world :: WorldConfig where
  "dangling_world =
     scenario_world \<lparr> rooms :=
       [(''entrance'', scenario_room ''entrance'' ''Entrance'' [(''north'', ''hall''), (''up'', ''attic'')] True),
        (''hall'', scenario_room ''hall'' ''Hall'' [(''south'', ''entrance'')] False)] \<rparr>"

definition homeless_sprite :: Sprite where
  "homeless_sprite =
     \<lparr> sprite_id = ''igor_template'', sprite_name = ''Igor (template)'',
       sprite_description = ''Igor. A resident.'', health = 45, sprite_damage = 8,
       ai_behavior = ''neutral_npc'', spawn_rooms = [], loot_on_death = [],
       can_pickup = True, role = NEUTRAL, sprite_properties = [] \<rparr>"

definition homeless_world :: WorldConfig where
  "homeless_world = scenario_world \<lparr> sprites := [(''igor_template'', homeless_sprite)] \<rparr>"

section \<open>The room graph generator (room\_graph.py)\<close>

definition DIRECTION_PAIRS :: "(string \<times> string) list" where
  "DIRECTION_PAIRS = [(''north'', ''south''), (''east'', ''west''), (''up'', ''down'')]"

definition ALL_DIRECTIONS :: "string list" where
  "ALL_DIRECTIONS = concat (map (\<lambda>(a, b). [a, b]) DIRECTION_PAIRS)"

definition safe_id :: "string \<Rightarrow> string" where
  "safe_id n =
     remove_char CHR ''.''
       (remove_char CHR '',''
         (remove_char CHR '')''
           (remove_char CHR ''(''
             (replace_char CHR ''/'' CHR ''_''
               (replace_char CHR ''-'' CHR ''_''
                 (remove_char (CHR 0x27)
                   (replace_char CHR '' '' CHR ''_'' (py_lower n))))))))"

text \<open>
  \<^verbatim>\<open>_escape_percent\<close>: every bare percent sign of the text is doubled; \<open>prev\<close> tells
  whether the character before the rest \<open>s\<close> is a percent sign.
\<close>

fun escape_percent_from :: "bool \<Rightarrow> string \<Rightarrow> string" where
  "escape_percent_from prev [] = []"
| "escape_percent_from prev [c] = (if c = CHR ''%'' \<and> \<not> prev then ''%%'' else [c])"
| "escape_percent_from prev (c # d # s) =
     (if c = CHR ''%'' \<and> \<not> prev \<and> d \<noteq> CHR ''%'' then ''%%'' else [c])
     @ escape_percent_from (c = CHR ''%'') (d # s)"

definition escape_percent :: "string \<Rightarrow> string" where
  "escape_percent s = escape_percent_from False s"

subsection \<open>Names and identifiers\<close>

definition generic_names :: "string list" where
  "generic_names =
     [''Chamber'', ''Passage'', ''Hall'', ''Area'', ''Zone'',
      ''Room'', ''Space'', ''Level'', ''Section'', ''Sector'']"

text \<open>\<^verbatim>\<open>while len(prefixes) < count: prefixes.extend(generic)\<close>.\<close>

function pad_prefixes :: "nat \<Rightarrow> string list \<Rightarrow> string list" where
  "pad_prefixes n prefixes =
     (if length prefixes < n then pad_prefixes n (prefixes @ generic_names) else prefixes)"
  by pat_completeness auto
termination
  by (relation "measure (\<lambda>(n, prefixes). n - length prefixes)") (auto simp: generic_names_def)

declare pad_prefixes.simps [simp del]

text \<open>
  The overlay of the caller's names: position \<open>i\<close> takes the stripped custom name when
  there is one and it is not blank.
\<close>

fun overlay_custom :: "string list \<Rightarrow> string list \<Rightarrow> string list" where
  "overlay_custom [] custom = []"
| "overlay_custom (n # ns) [] = n # ns"
| "overlay_custom (n # ns) (c # cs) =
     (if py_strip c \<noteq> [] then py_strip c else n) # overlay_custom ns cs"

text \<open>
  The two de-duplication loops. \<open>seen\<close> is the counter dictionary; a name seen before
  gets the counter plus one after a blank, an identifier seen before gets the counter
  after an underscore. Only the names (identifiers) as they come in are entered in
  \<open>seen\<close>, never the ones the loop makes up.
\<close>

fun dedup_names :: "(string \<times> nat) list \<Rightarrow> string list \<Rightarrow> string list" where
  "dedup_names seen [] = []"
| "dedup_names seen (n # ns) =
     (case dict_get seen n of
        Some c \<Rightarrow> (n @ '' '' @ str_nat (c + 1 + 1)) # dedup_names (dict_set seen n (c + 1)) ns
      | None \<Rightarrow> n # dedup_names (dict_set seen n 0) ns)"

fun dedup_ids :: "(string \<times> nat) list \<Rightarrow> string list \<Rightarrow> string list" where
  "dedup_ids seen_ids [] = []"
| "dedup_ids seen_ids (i # ids) =
     (case dict_get seen_ids i of
        Some c \<Rightarrow> (i @ ''_'' @ str_nat (c + 1)) # dedup_ids (dict_set seen_ids i (c + 1)) ids
      | None \<Rightarrow> i # dedup_ids (dict_set seen_ids i 0) ids)"

definition generate_names :: "nat \<Rightarrow> ThemeDefaults \<Rightarrow> string list \<Rightarrow> rng \<Rightarrow> string list \<times> rng" where
  "generate_names n th custom_names g =
     (let prefixes = pad_prefixes n (suggested_room_prefixes th);
          (prefixes, g1) = random_shuffle prefixes g;
          names = take n prefixes;
          names = overlay_custom names (take n custom_names);
          names = names [0 := ''Entrance'']
      in (dedup_names [] names, g1))"

subsection \<open>The adjacency structure\<close>

text \<open>
  \<^verbatim>\<open>adjacency[i]\<close> is the list of the edges of room \<open>i\<close>: the neighbour, the direction
  from \<open>i\<close>, the direction back. The dictionary has the keys \<open>0\<close> to \<open>room_count - 1\<close>
  and is a list indexed by the room number; the generator looks up these keys only.
\<close>

type_synonym edge = "nat \<times> string \<times> string"

type_synonym adjacency = "edge list list"

definition adj_at :: "adjacency \<Rightarrow> nat \<Rightarrow> edge list" where
  "adj_at adj i = (if i < length adj then adj ! i else [])"

definition adj_append :: "adjacency \<Rightarrow> nat \<Rightarrow> edge \<Rightarrow> adjacency" where
  "adj_append adj i e = adj [i := adj_at adj i @ [e]]"

definition used_directions :: "adjacency \<Rightarrow> nat \<Rightarrow> string set" where
  "used_directions adj i = set (map (\<lambda>(n, d, r). d) (adj_at adj i))"

definition get_available_direction ::
  "adjacency \<Rightarrow> nat \<Rightarrow> nat \<Rightarrow> rng \<Rightarrow> (string \<times> string) option \<times> rng" where
  "get_available_direction adj node_a node_b g =
     (let (pairs, g1) = random_shuffle DIRECTION_PAIRS g
      in (find (\<lambda>(d_a, d_b). d_a \<notin> used_directions adj node_a
                             \<and> d_b \<notin> used_directions adj node_b) pairs, g1))"

text \<open>Adding the edge between \<open>i\<close> and \<open>j\<close>: one entry in each of the two lists.\<close>

definition add_edge :: "adjacency \<Rightarrow> nat \<Rightarrow> nat \<Rightarrow> string \<Rightarrow> string \<Rightarrow> adjacency" where
  "add_edge adj i j direction reverse =
     adj_append (adj_append adj i (j, direction, reverse)) j (i, reverse, direction)"

subsection \<open>Step 3: the spanning tree\<close>

text \<open>The loop over the shuffled candidates; the flag tells whether room \<open>i\<close> was attached.\<close>

fun try_candidates :: "adjacency \<Rightarrow> nat \<Rightarrow> nat list \<Rightarrow> rng \<Rightarrow> (adjacency \<times> bool) \<times> rng" where
  "try_candidates adj i [] g = ((adj, False), g)"
| "try_candidates adj i (target # cs) g =
     (case get_available_direction adj i target g of
        (Some (direction, reverse), g1) \<Rightarrow> ((add_edge adj i target direction reverse, True), g1)
      | (None, g1) \<Rightarrow> try_candidates adj i cs g1)"

text \<open>\<^verbatim>\<open>min(candidates, key=...)\<close>: the first candidate with the fewest edges.\<close>

fun py_min_key :: "('a \<Rightarrow> nat) \<Rightarrow> 'a \<Rightarrow> 'a list \<Rightarrow> 'a" where
  "py_min_key f best [] = best"
| "py_min_key f best (x # xs) = py_min_key f (if f x < f best then x else best) xs"

text \<open>
  The branch taken when no candidate has a free slot: the first edge of the most lightly
  connected room is taken out and rerouted through room \<open>i\<close>.
\<close>

definition reroute :: "adjacency \<Rightarrow> nat \<Rightarrow> nat list \<Rightarrow> rng \<Rightarrow> adjacency \<times> rng" where
  "reroute adj i candidates g =
     (let lightest = py_min_key (\<lambda>n. length (adj_at adj n)) (hd candidates) (tl candidates)
      in if adj_at adj lightest = [] then (adj, g)
         else
          let (old_j, old_d_from_lightest, old_d_from_j) = hd (adj_at adj lightest);
              adj = adj [lightest := tl (adj_at adj lightest)];
              adj = adj [old_j := filter (\<lambda>(n, d, r). n \<noteq> lightest) (adj_at adj old_j)];
              (p1, g1) = get_available_direction adj lightest i g;
              adj = (case p1 of Some (d1, r1) \<Rightarrow> add_edge adj lightest i d1 r1 | None \<Rightarrow> adj);
              (p2, g2) = get_available_direction adj i old_j g1;
              adj = (case p2 of Some (d2, r2) \<Rightarrow> add_edge adj i old_j d2 r2 | None \<Rightarrow> adj)
          in (adj, g2))"

text \<open>
  One round of the loop \<^verbatim>\<open>for i in range(1, room_count)\<close>. The set of connected rooms
  is \<open>{0, ..., i - 1}\<close> at the start of round \<open>i\<close>, since every round ends by adding \<open>i\<close>.
\<close>

definition attach_room :: "nat \<Rightarrow> adjacency \<times> rng \<Rightarrow> adjacency \<times> rng" where
  "attach_room i st =
     (let (adj, g) = st;
          (candidates, g1) = random_shuffle [0 ..< i] g;
          ((adj1, connected), g2) = try_candidates adj i candidates g1
      in if connected then (adj1, g2) else reroute adj1 i candidates g2)"

definition spanning_tree :: "nat \<Rightarrow> rng \<Rightarrow> adjacency \<times> rng" where
  "spanning_tree n g = fold attach_room [1 ..< n] (replicate n [], g)"

subsection \<open>Step 4: bonus connections\<close>

text \<open>\<^verbatim>\<open>int(room_count * 0.3)\<close> is \<open>3 * room_count div 10\<close> for the counts 3 to 100.\<close>

definition bonus_count :: "nat \<Rightarrow> nat" where
  "bonus_count n = max 2 (3 * n div 10)"

function bonus_loop :: "nat \<Rightarrow> nat \<Rightarrow> nat \<Rightarrow> adjacency \<Rightarrow> rng \<Rightarrow> adjacency \<times> rng" where
  "bonus_loop n attempts added adj g =
     (if added < bonus_count n \<and> attempts < bonus_count n * 20
      then
        (let (i, g1) = randbelow n g;
             (j, g2) = randbelow n g1
         in if i = j then bonus_loop n (attempts + 1) added adj g2
            else if j \<in> set (map (\<lambda>(t, d, r). t) (adj_at adj i))
              then bonus_loop n (attempts + 1) added adj g2
            else
              (case get_available_direction adj i j g2 of
                 (Some (direction, reverse), g3) \<Rightarrow>
                   bonus_loop n (attempts + 1) (added + 1) (add_edge adj i j direction reverse) g3
               | (None, g3) \<Rightarrow> bonus_loop n (attempts + 1) added adj g3))
      else (adj, g))"
  by pat_completeness auto
termination
  by (relation "measure (\<lambda>(n, attempts, added, adj, g). bonus_count n * 20 - attempts)") auto

declare bonus_loop.simps [simp del]

subsection \<open>Step 5: the connectivity check and the safety net\<close>

function bfs_adj :: "adjacency \<Rightarrow> nat list \<Rightarrow> nat list \<Rightarrow> nat list" where
  "bfs_adj adj [] reachable = reachable"
| "bfs_adj adj (cur # queue) reachable =
     (if cur \<in> set reachable then bfs_adj adj queue reachable
      else bfs_adj adj
             (queue @ filter (\<lambda>nb. nb \<notin> set (cur # reachable))
                        (map (\<lambda>(nb, d, r). nb) (adj_at adj cur)))
             (cur # reachable))"
  by pat_completeness auto
termination
proof (relation "measures [\<lambda>(adj, queue, reachable).
                             card ((set (map (\<lambda>(nb, d, r). nb) (concat adj)) \<union> set queue)
                                   - set reachable),
                           \<lambda>(adj, queue, reachable). length queue]")
  show "wf (measures [\<lambda>(adj, queue, reachable).
                             card ((set (map (\<lambda>(nb, d, r). nb) (concat adj)) \<union> set queue)
                                   - set reachable),
                           \<lambda>(adj, queue, reachable). length queue])"
    by simp
next
  fix adj :: adjacency and cur :: nat and queue reachable :: "nat list"
  assume "cur \<in> set reachable"
  have "(set (map (\<lambda>(nb, d, r). nb) (concat adj)) \<union> set queue) - set reachable
          \<subseteq> (set (map (\<lambda>(nb, d, r). nb) (concat adj)) \<union> set (cur # queue)) - set reachable"
    by auto
  then have "card ((set (map (\<lambda>(nb, d, r). nb) (concat adj)) \<union> set queue) - set reachable)
          \<le> card ((set (map (\<lambda>(nb, d, r). nb) (concat adj)) \<union> set (cur # queue)) - set reachable)"
    by (intro card_mono) auto
  then show "((adj, queue, reachable), (adj, cur # queue, reachable))
        \<in> measures [\<lambda>(adj, queue, reachable).
                             card ((set (map (\<lambda>(nb, d, r). nb) (concat adj)) \<union> set queue)
                                   - set reachable),
                           \<lambda>(adj, queue, reachable). length queue]"
    by auto
next
  fix adj :: adjacency and cur :: nat and queue reachable :: "nat list"
  assume c: "cur \<notin> set reachable"
  let ?new = "filter (\<lambda>nb. nb \<notin> set (cur # reachable)) (map (\<lambda>(nb, d, r). nb) (adj_at adj cur))"
  have "set (adj_at adj cur) \<subseteq> set (concat adj)"
  proof (cases "cur < length adj")
    case True
    then have "adj ! cur \<in> set adj" by (rule nth_mem)
    then have "set (adj ! cur) \<subseteq> \<Union> (set ` set adj)" by blast
    then show ?thesis using True by (simp add: adj_at_def)
  next
    case False
    then show ?thesis by (simp add: adj_at_def)
  qed
  then have "(\<lambda>(nb, d, r). nb) ` set (adj_at adj cur) \<subseteq> (\<lambda>(nb, d, r). nb) ` set (concat adj)"
    by (rule image_mono)
  moreover have "set ?new \<subseteq> (\<lambda>(nb, d, r). nb) ` set (adj_at adj cur)"
    by auto
  ultimately have "set ?new \<subseteq> set (map (\<lambda>(nb, d, r). nb) (concat adj))"
    unfolding set_map by (rule order_trans [rotated])
  then have "(set (map (\<lambda>(nb, d, r). nb) (concat adj)) \<union> set (queue @ ?new)) - set (cur # reachable)
          \<subset> (set (map (\<lambda>(nb, d, r). nb) (concat adj)) \<union> set (cur # queue)) - set reachable"
    using c by auto
  then have "card ((set (map (\<lambda>(nb, d, r). nb) (concat adj)) \<union> set (queue @ ?new))
                   - set (cur # reachable))
          < card ((set (map (\<lambda>(nb, d, r). nb) (concat adj)) \<union> set (cur # queue)) - set reachable)"
    by (intro psubset_card_mono) auto
  then show "((adj, queue @ ?new, cur # reachable), (adj, cur # queue, reachable))
        \<in> measures [\<lambda>(adj, queue, reachable).
                             card ((set (map (\<lambda>(nb, d, r). nb) (concat adj)) \<union> set queue)
                                   - set reachable),
                           \<lambda>(adj, queue, reachable). length queue]"
    by auto
qed

text \<open>
  One round of the loop over the unreachable rooms: the first reachable room (in shuffled
  order) with a free slot is connected to \<open>idx\<close>, and \<open>idx\<close> becomes reachable.
  The two sets are lists here: the unreachable rooms in ascending order, the reachable
  rooms in the order the search found them. The loop has no room to work on, whatever the
  random source (\<open>verify_connectivity_id\<close> below).
\<close>

fun force_candidates ::
  "adjacency \<Rightarrow> nat \<Rightarrow> nat list \<Rightarrow> rng \<Rightarrow> (adjacency \<times> bool) \<times> rng" where
  "force_candidates adj idx [] g = ((adj, False), g)"
| "force_candidates adj idx (target # ts) g =
     (case get_available_direction adj idx target g of
        (Some (direction, reverse), g1) \<Rightarrow> ((add_edge adj idx target direction reverse, True), g1)
      | (None, g1) \<Rightarrow> force_candidates adj idx ts g1)"

definition force_connect ::
  "nat \<Rightarrow> (adjacency \<times> nat list) \<times> rng \<Rightarrow> (adjacency \<times> nat list) \<times> rng" where
  "force_connect idx st =
     (let ((adj, reachable), g) = st;
          (reachable_list, g1) = random_shuffle reachable g;
          ((adj1, found), g2) = force_candidates adj idx reachable_list g1
      in ((adj1, if found then reachable @ [idx] else reachable), g2))"

definition verify_connectivity :: "nat \<Rightarrow> adjacency \<Rightarrow> rng \<Rightarrow> adjacency \<times> rng" where
  "verify_connectivity n adj g =
     (let reachable = bfs_adj adj [0] [];
          unreachable = filter (\<lambda>k. k \<notin> set reachable) [0 ..< n];
          ((adj1, reachable1), g1) = fold force_connect unreachable ((adj, reachable), g)
      in (adj1, g1))"

subsection \<open>Step 6: the room records\<close>

definition generate_description ::
  "string \<Rightarrow> ThemeDefaults \<Rightarrow> string \<Rightarrow> (string \<times> string) list \<Rightarrow> rng \<Rightarrow> string \<times> rng" where
  "generate_description rname th wname ex g =
     (let exit_list = (if ex \<noteq> [] then py_join '', '' (dict_keys ex) else ''none'');
          templates =
            [''The '' @ rname @ '' of '' @ wname @ ''. A '' @ flavor_adjective th @ '' ''
               @ flavor_noun th @ '' with an atmosphere that feels ''
               @ ''entirely in keeping with this place. Exits lead '' @ exit_list @ ''.'',
             ''You stand in the '' @ rname @ ''. Everything here speaks to the ''
               @ flavor_adjective th @ '' nature of '' @ wname @ ''. ''
               @ ''The air carries traces of what this '' @ flavor_noun th
               @ '' has witnessed. Exits: '' @ exit_list @ ''.'',
             ''The '' @ rname @ ''. In the broader context of '' @ wname @ '', ''
               @ ''this space has its own particular character '' @ em_dash @ '' ''
               @ flavor_adjective th @ '' in ways that are immediately apparent. ''
               @ ''Passages lead '' @ exit_list @ ''.'']
      in (templates ! fst (randbelow (length templates) g),
          snd (randbelow (length templates) g)))"

definition room_exits :: "string list \<Rightarrow> edge list \<Rightarrow> (string \<times> string) list" where
  "room_exits ids es =
     fold (\<lambda>(j, direction, r) ex.
             if direction \<in> set ALL_DIRECTIONS then dict_set ex direction (ids ! j) else ex)
       es []"

definition build_room ::
  "string list \<Rightarrow> string list \<Rightarrow> adjacency \<Rightarrow> ThemeDefaults \<Rightarrow> string \<Rightarrow> nat
     \<Rightarrow> (string \<times> Room) list \<times> rng \<Rightarrow> (string \<times> Room) list \<times> rng" where
  "build_room ids names adj th wname i st =
     (let (rs, g) = st;
          ex = room_exits ids (adj_at adj i);
          (description, g1) = generate_description (names ! i) th wname ex g
      in (dict_set rs (ids ! i)
            \<lparr> room_id = ids ! i, room_name = names ! i,
              room_description = escape_percent description,
              exits = ex, room_properties = [], is_start = (i = 0) \<rparr>, g1))"

subsection \<open>The generator\<close>

text \<open>
  The identifiers of step 2, the adjacency structure after steps 3 to 5, and the whole of
  \<^verbatim>\<open>generate\<close>. The requested count is an integer, clamped into 3 to 100.
\<close>

definition clamp_room_count :: "int \<Rightarrow> nat" where
  "clamp_room_count room_count = nat (max 3 (min room_count 100))"

definition generate_ids :: "string list \<Rightarrow> string list" where
  "generate_ids names = dedup_ids [] (map safe_id names)"

definition generate_adjacency :: "nat \<Rightarrow> rng \<Rightarrow> adjacency \<times> rng" where
  "generate_adjacency n g =
     (let (adj, g1) = spanning_tree n g;
          (adj, g2) = bonus_loop n 0 0 adj g1
      in verify_connectivity n adj g2)"

definition generate ::
  "int \<Rightarrow> ThemeDefaults \<Rightarrow> string \<Rightarrow> string list \<Rightarrow> rng \<Rightarrow> (string \<times> Room) list \<times> rng" where
  "generate room_count th wname custom_names g =
     (let n = clamp_room_count room_count;
          (names, g1) = generate_names n th custom_names g;
          ids = generate_ids names;
          (adj, g2) = generate_adjacency n g1
      in fold (build_room ids names adj th wname) [0 ..< n] ([], g2))"

subsection \<open>Reachability in a room map\<close>

text \<open>
  One step along an exit of a room of the map, and reachability by any number of steps.
\<close>

definition exit_step :: "(string \<times> Room) list \<Rightarrow> (string \<times> string) set" where
  "exit_step rs = {(a, b). \<exists>room d. dict_get rs a = Some room \<and> (d, b) \<in> set (exits room)}"

definition reachable_from :: "(string \<times> Room) list \<Rightarrow> string \<Rightarrow> string \<Rightarrow> bool" where
  "reachable_from rs a b = ((a, b) \<in> (exit_step rs)\<^sup>*)"

text \<open>The property of claim C5: the exit labels of a room are among the six of the engine.\<close>

definition exits_sanctioned :: "Room \<Rightarrow> bool" where
  "exits_sanctioned room = (set (dict_keys (exits room)) \<subseteq> set ENGINE_DIRECTIONS)"

subsection \<open>Well-formed adjacency structures\<close>

text \<open>
  Two directions are paired when they are the two ends of one axis of \<open>DIRECTION_PAIRS\<close>.
  An adjacency structure for \<open>n\<close> rooms is in order when every edge leads to one of the
  \<open>n\<close> rooms, its two directions are paired, the neighbour holds the edge back, and no
  room uses a direction twice. Room \<open>k\<close> has a parent when one of its edges leads to a
  room of smaller number. \<open>tree_inv n i\<close> is what holds before round \<open>i\<close> of the
  spanning-tree loop: the rooms below \<open>i\<close> are attached, the others have no edge yet, and
  the room attached last has used none of \<open>south\<close>, \<open>west\<close>, \<open>down\<close>.
\<close>

definition paired :: "string \<Rightarrow> string \<Rightarrow> bool" where
  "paired d r = ((d, r) \<in> set DIRECTION_PAIRS \<or> (r, d) \<in> set DIRECTION_PAIRS)"

definition graph_ok :: "nat \<Rightarrow> adjacency \<Rightarrow> bool" where
  "graph_ok n adj =
     (length adj = n
      \<and> (\<forall>k<n. \<forall>(j, d, r) \<in> set (adj ! k). j < n \<and> paired d r \<and> (k, r, d) \<in> set (adj ! j))
      \<and> (\<forall>k<n. distinct (map (\<lambda>(j, d, r). d) (adj ! k))))"

definition has_parents :: "nat \<Rightarrow> adjacency \<Rightarrow> bool" where
  "has_parents i adj = (\<forall>k. 0 < k \<and> k < i \<longrightarrow> (\<exists>j<k. \<exists>d r. (j, d, r) \<in> set (adj ! k)))"

definition tree_inv :: "nat \<Rightarrow> nat \<Rightarrow> adjacency \<Rightarrow> bool" where
  "tree_inv n i adj =
     (graph_ok n adj \<and> has_parents i adj
      \<and> (\<forall>k. i \<le> k \<and> k < n \<longrightarrow> adj ! k = [])
      \<and> (0 < i \<longrightarrow> used_directions adj (i - 1) \<subseteq> fst ` set DIRECTION_PAIRS))"

subsection \<open>A request with colliding names\<close>

text \<open>
  Five rooms with the custom names \<open>Entrance\<close>, \<open>a 1\<close>, \<open>a\<close>, \<open>A\<close>, \<open>b\<close>, and the
  random source whose every draw is 0 (no shuffle moves anything, every \<^verbatim>\<open>randint\<close>
  is 0).
\<close>

definition colliding_names :: "string list" where
  "colliding_names = [''Entrance'', ''a 1'', ''a'', ''A'', ''b'']"

definition colliding_rooms :: "(string \<times> Room) list" where
  "colliding_rooms = fst (generate 5 scenario_theme ''W'' colliding_names [])"

section \<open>The physics template library (physics\_templates.py)\<close>

text \<open>
  A package: the objects and the transformations of one subsystem. The field that holds a
  pictograph is not represented.
\<close>

record PhysicsPackage =
  physics_type :: PhysicsType
  display_name :: string
  pkg_description :: string
  pkg_objects :: "(string \<times> GameObject) list"
  pkg_transformations :: "(string \<times> Transformation) list"

text \<open>
  \<^verbatim>\<open>GameObject(object_id=...)\<close> and \<^verbatim>\<open>Transformation(transform_id=...)\<close> with the
  defaults of the dataclass for every field; a builder then sets the fields it names.
\<close>

definition new_GameObject :: "string \<Rightarrow> GameObject" where
  "new_GameObject oid =
     \<lparr> object_id = oid, obj_name = [], obj_description = [], location = [],
       takeable = True, is_weapon = False, damage = 0, is_consumable = False,
       health_restore = 0, is_container = False, is_wearable = False, bribe_value = [],
       valid_verbs = [], obj_properties = [] \<rparr>"

definition new_Transformation :: "string \<Rightarrow> Transformation" where
  "new_Transformation tid =
     \<lparr> transform_id = tid, subject_object_id = [], state_required = [], turns_required = 0,
       new_state = [], message = [], new_object_id = [], requires_object = [],
       requires_object_2 = [], location_property = [], new_location = [],
       transform_properties = [] \<rparr>"

text \<open>\<^verbatim>\<open>PhysicsPackage.inject\<close>.\<close>

definition inject :: "PhysicsPackage \<Rightarrow> WorldConfig \<Rightarrow> WorldConfig" where
  "inject pkg world =
     world \<lparr> objects := dict_update (objects world) (pkg_objects pkg),
             transformations := dict_update (transformations world) (pkg_transformations pkg),
             physics_applied :=
               (if physics_type pkg \<notin> set (physics_applied world)
                then physics_applied world @ [physics_type pkg] else physics_applied world) \<rparr>"

text \<open>
  \<^verbatim>\<open>_random_room\<close> on a world that has rooms (every builder raises IndexError before
  anything else when there is none), the name of a room that is a key, and the assignment
  \<^verbatim>\<open>world.rooms[rid].properties[k] = v\<close>.
\<close>

definition random_room :: "WorldConfig \<Rightarrow> rng \<Rightarrow> string \<times> rng" where
  "random_room world g =
     (dict_keys (rooms world) ! fst (randbelow (length (rooms world)) g),
      snd (randbelow (length (rooms world)) g))"

definition room_name_of :: "WorldConfig \<Rightarrow> string \<Rightarrow> string" where
  "room_name_of world rid = (case dict_get (rooms world) rid of Some r \<Rightarrow> room_name r | None \<Rightarrow> [])"

definition set_room_property :: "WorldConfig \<Rightarrow> string \<Rightarrow> string \<Rightarrow> string \<Rightarrow> WorldConfig" where
  "set_room_property world rid k v =
     world \<lparr> rooms := map (\<lambda>(rid', r). if rid' = rid
                                    then (rid', r \<lparr> room_properties := dict_set (room_properties r) k v \<rparr>)
                                    else (rid', r))
                        (rooms world) \<rparr>"

subsection \<open>The twelve builders\<close>

definition build_energy ::
  "WorldConfig \<Rightarrow> ThemeDefaults \<Rightarrow> rng \<Rightarrow> py_error + ((PhysicsPackage \<times> WorldConfig) \<times> rng)" where
  "build_energy world th g =
     (if rooms world = [] then Inl IndexError
      else
       let (room, g) = random_room world g;
           pkg = \<lparr> physics_type = ENERGY,
               display_name = ''Energy Charging'',
               pkg_description = ''Objects charge in power zones over time'',
               pkg_objects = [], pkg_transformations = [] \<rparr>;
           (loc1, g) = random_room world g;
           pkg = pkg \<lparr> pkg_objects := dict_set (pkg_objects pkg) ''power_cell_inert''
               (new_GameObject ''power_cell_inert''
                  \<lparr> obj_name := ''inert power cell'',
                    obj_description := ''A power cell in its inert state. It requires a power zone to become ''
                      @ ''energized. Handle with care.'',
                    location := loc1,
                    takeable := True,
                    valid_verbs := [''take'', ''drop'', ''examine'', ''use'', ''insert''] \<rparr>) \<rparr>;
           pkg = pkg \<lparr> pkg_objects := dict_set (pkg_objects pkg) ''power_cell_charged''
               (new_GameObject ''power_cell_charged''
                  \<lparr> obj_name := ''charged power cell'',
                    obj_description := ''A fully energized power cell, humming with contained power. It glows ''
                      @ ''faintly and is warm to the touch.'',
                    location := ''none'',
                    takeable := True,
                    valid_verbs := [''take'', ''drop'', ''examine'', ''use'', ''insert''] \<rparr>) \<rparr>;
           pkg = pkg \<lparr> pkg_transformations := dict_set (pkg_transformations pkg) ''energy_charge''
               (new_Transformation ''energy_charge''
                  \<lparr> subject_object_id := ''power_cell_inert'',
                    state_required := ''normal'',
                    turns_required := 5,
                    new_state := ''charged'',
                    new_object_id := ''power_cell_charged'',
                    location_property := ''power_zone'',
                    message := ''The power cell begins to absorb energy from the zone. After several ''
                      @ ''moments the humming intensifies and the cell glows with stored power. ''
                      @ ''It is fully charged.'' \<rparr>) \<rparr>;
           world = (if room \<in> set (dict_keys (rooms world))
                    then set_room_property world room ''power_zone'' ''true'' else world)
       in Inr ((pkg, world), g))"

definition build_lock_key ::
  "WorldConfig \<Rightarrow> ThemeDefaults \<Rightarrow> rng \<Rightarrow> py_error + ((PhysicsPackage \<times> WorldConfig) \<times> rng)" where
  "build_lock_key world th g =
     (if rooms world = [] then Inl IndexError
      else
       let rids = dict_keys (rooms world);
           locked_room = rids ! min 2 (length rids - 1);
           pkg = \<lparr> physics_type = LOCK_KEY,
               display_name = ''Lock & Key'',
               pkg_description = ''Doors and containers require keys'',
               pkg_objects = [], pkg_transformations = [] \<rparr>;
           (loc1, g) = random_room world g;
           pkg = pkg \<lparr> pkg_objects := dict_set (pkg_objects pkg) ''master_key''
               (new_GameObject ''master_key''
                  \<lparr> obj_name := ''master key'',
                    obj_description := ''A heavy key that opens the locked door. Someone left it here ''
                      @ em_dash
                      @ '' either careless or confident that you would never find it.'',
                    location := loc1,
                    takeable := True,
                    valid_verbs := [''take'', ''drop'', ''examine'', ''use''] \<rparr>) \<rparr>;
           pkg = pkg \<lparr> pkg_transformations := dict_set (pkg_transformations pkg) ''door_unlocked''
               (new_Transformation ''door_unlocked''
                  \<lparr> subject_object_id := ''master_key'',
                    state_required := ''normal'',
                    turns_required := 1,
                    new_state := ''used'',
                    message := ''The key fits. The lock disengages with a heavy clunk. The door swings ''
                      @ ''open. Whatever was locked away is now accessible.'' \<rparr>) \<rparr>;
           world = (if locked_room \<in> set (dict_keys (rooms world))
                    then set_room_property world locked_room ''locked'' ''true'' else world)
       in Inr ((pkg, world), g))"

definition build_crafting ::
  "WorldConfig \<Rightarrow> ThemeDefaults \<Rightarrow> rng \<Rightarrow> py_error + ((PhysicsPackage \<times> WorldConfig) \<times> rng)" where
  "build_crafting world th g =
     (if rooms world = [] then Inl IndexError
      else
       let pkg = \<lparr> physics_type = CRAFTING,
               display_name = ''Crafting / Combining'',
               pkg_description = ''Combine objects to create new ones'',
               pkg_objects = [], pkg_transformations = [] \<rparr>;
           (loc1, g) = random_room world g;
           pkg = pkg \<lparr> pkg_objects := dict_set (pkg_objects pkg) ''ingredient_a''
               (new_GameObject ''ingredient_a''
                  \<lparr> obj_name := ''component A'',
                    obj_description := ''One half of a combination. Alone it does little. Combined with the ''
                      @ ''right partner, it becomes something more.'',
                    location := loc1,
                    takeable := True,
                    valid_verbs := [''take'', ''drop'', ''examine'', ''use''] \<rparr>) \<rparr>;
           (loc2, g) = random_room world g;
           pkg = pkg \<lparr> pkg_objects := dict_set (pkg_objects pkg) ''ingredient_b''
               (new_GameObject ''ingredient_b''
                  \<lparr> obj_name := ''component B'',
                    obj_description := ''The complementary component. There is a satisfaction in finding the ''
                      @ ''thing that completes another thing.'',
                    location := loc2,
                    takeable := True,
                    valid_verbs := [''take'', ''drop'', ''examine'', ''use''] \<rparr>) \<rparr>;
           pkg = pkg \<lparr> pkg_objects := dict_set (pkg_objects pkg) ''crafted_result''
               (new_GameObject ''crafted_result''
                  \<lparr> obj_name := ''combined item'',
                    obj_description := ''The result of combining components A and B. Something new exists that ''
                      @ ''did not exist before. This is the point of crafting.'',
                    location := ''none'',
                    takeable := True,
                    is_consumable := True,
                    health_restore := 30,
                    valid_verbs := [''take'', ''drop'', ''examine'', ''use''] \<rparr>) \<rparr>;
           pkg = pkg \<lparr> pkg_transformations := dict_set (pkg_transformations pkg) ''craft_combine''
               (new_Transformation ''craft_combine''
                  \<lparr> subject_object_id := ''ingredient_a'',
                    state_required := ''normal'',
                    turns_required := 1,
                    new_state := ''combined'',
                    new_object_id := ''crafted_result'',
                    requires_object := ''ingredient_b'',
                    message := ''You combine the two components. There is a moment of uncertainty and ''
                      @ ''then ''
                      @ em_dash
                      @ '' yes. The combined item exists. It is more than the sum of its parts.'' \<rparr>) \<rparr>
       in Inr ((pkg, world), g))"

definition build_explosives ::
  "WorldConfig \<Rightarrow> ThemeDefaults \<Rightarrow> rng \<Rightarrow> py_error + ((PhysicsPackage \<times> WorldConfig) \<times> rng)" where
  "build_explosives world th g =
     (if rooms world = [] then Inl IndexError
      else
       let pkg = \<lparr> physics_type = EXPLOSIVES,
               display_name = ''Timed Explosives'',
               pkg_description = ''Place charges, arm, detonate'',
               pkg_objects = [], pkg_transformations = [] \<rparr>;
           (loc1, g) = random_room world g;
           pkg = pkg \<lparr> pkg_objects := dict_set (pkg_objects pkg) ''explosive_charge''
               (new_GameObject ''explosive_charge''
                  \<lparr> obj_name := ''explosive charge'',
                    obj_description := ''A shaped explosive charge. Treat with appropriate respect. Requires a ''
                      @ ''detonator to activate. Place at the target, arm with the detonator, ''
                      @ ''move to safe distance.'',
                    location := loc1,
                    takeable := True,
                    is_weapon := True,
                    damage := 80,
                    valid_verbs := [''take'', ''drop'', ''examine'', ''use'', ''place''] \<rparr>) \<rparr>;
           (loc2, g) = random_room world g;
           pkg = pkg \<lparr> pkg_objects := dict_set (pkg_objects pkg) ''detonator''
               (new_GameObject ''detonator''
                  \<lparr> obj_name := ''detonator'',
                    obj_description := ''A remote detonation device. Works at range. Press when clear of the ''
                      @ ''blast radius.'',
                    location := loc2,
                    takeable := True,
                    valid_verbs := [''take'', ''drop'', ''examine'', ''use''] \<rparr>) \<rparr>;
           pkg = pkg \<lparr> pkg_transformations := dict_set (pkg_transformations pkg) ''arm_explosive''
               (new_Transformation ''arm_explosive''
                  \<lparr> subject_object_id := ''explosive_charge'',
                    state_required := ''placed'',
                    turns_required := 1,
                    new_state := ''armed'',
                    requires_object := ''detonator'',
                    message := ''You connect the detonator. A small LED blinks red. The charge is ''
                      @ ''armed. Time to move.'' \<rparr>) \<rparr>;
           pkg = pkg \<lparr> pkg_transformations := dict_set (pkg_transformations pkg) ''detonate''
               (new_Transformation ''detonate''
                  \<lparr> subject_object_id := ''explosive_charge'',
                    state_required := ''armed'',
                    turns_required := 3,
                    new_state := ''detonated'',
                    message := ''The explosion is larger than expected. The structural damage is ''
                      @ ''extensive. The objective is achieved. Mission success.'' \<rparr>) \<rparr>
       in Inr ((pkg, world), g))"

definition build_disguise ::
  "WorldConfig \<Rightarrow> ThemeDefaults \<Rightarrow> rng \<Rightarrow> py_error + ((PhysicsPackage \<times> WorldConfig) \<times> rng)" where
  "build_disguise world th g =
     (if rooms world = [] then Inl IndexError
      else
       let pkg = \<lparr> physics_type = DISGUISE,
               display_name = ''Disguise System'',
               pkg_description = ''Wear disguises to change NPC reactions'',
               pkg_objects = [], pkg_transformations = [] \<rparr>;
           (loc1, g) = random_room world g;
           pkg = pkg \<lparr> pkg_objects := dict_set (pkg_objects pkg) ''disguise_item''
               (new_GameObject ''disguise_item''
                  \<lparr> obj_name := ''disguise'',
                    obj_description := ''A convincing disguise. Put it on and the world sees someone ''
                      @ ''different. Being someone else, even briefly, changes what is possible.'',
                    location := loc1,
                    takeable := True,
                    is_wearable := True,
                    valid_verbs := [''take'', ''drop'', ''examine'', ''wear'', ''use''] \<rparr>) \<rparr>;
           pkg = pkg \<lparr> pkg_transformations := dict_set (pkg_transformations pkg) ''wear_disguise''
               (new_Transformation ''wear_disguise''
                  \<lparr> subject_object_id := ''disguise_item'',
                    state_required := ''normal'',
                    turns_required := 1,
                    new_state := ''wearing'',
                    message := ''You put on the disguise. You look in the nearest reflective surface ''
                      @ ''and see someone else entirely. The transformation is complete. Act ''
                      @ ''the part.'' \<rparr>) \<rparr>
       in Inr ((pkg, world), g))"

definition build_bribery ::
  "WorldConfig \<Rightarrow> ThemeDefaults \<Rightarrow> rng \<Rightarrow> py_error + ((PhysicsPackage \<times> WorldConfig) \<times> rng)" where
  "build_bribery world th g =
     (if rooms world = [] then Inl IndexError
      else
       let pkg = \<lparr> physics_type = BRIBERY,
               display_name = ''Bribery / Persuasion'',
               pkg_description = ''Items that neutralize hostile sprites'',
               pkg_objects = [], pkg_transformations = [] \<rparr>;
           (loc1, g) = random_room world g;
           pkg = pkg \<lparr> pkg_objects := dict_set (pkg_objects pkg) ''bribe_item''
               (new_GameObject ''bribe_item''
                  \<lparr> obj_name := ''bribe'',
                    obj_description := ''Something that everyone wants. Currency is fungible but desire is ''
                      @ ''specific. This is the right currency for this particular situation.'',
                    location := loc1,
                    takeable := True,
                    is_consumable := True,
                    health_restore := 0,
                    bribe_value := ''high'',
                    valid_verbs := [''take'', ''drop'', ''examine'', ''use'', ''give''] \<rparr>) \<rparr>;
           pkg = pkg \<lparr> pkg_transformations := dict_set (pkg_transformations pkg) ''bribe_used''
               (new_Transformation ''bribe_used''
                  \<lparr> subject_object_id := ''bribe_item'',
                    state_required := ''normal'',
                    turns_required := 1,
                    new_state := ''consumed'',
                    message := ''You offer the bribe. There is a moment ''
                      @ em_dash
                      @ '' calculation behind their eyes ''
                      @ em_dash
                      @ '' and then acceptance. They look away. You have purchased temporary ''
                      @ ''blindness. Use it well.'' \<rparr>) \<rparr>
       in Inr ((pkg, world), g))"

definition build_medical ::
  "WorldConfig \<Rightarrow> ThemeDefaults \<Rightarrow> rng \<Rightarrow> py_error + ((PhysicsPackage \<times> WorldConfig) \<times> rng)" where
  "build_medical world th g =
     (if rooms world = [] then Inl IndexError
      else
       let pkg = \<lparr> physics_type = MEDICAL,
               display_name = ''Medical System'',
               pkg_description = ''Heal wounded, perform procedures'',
               pkg_objects = [], pkg_transformations = [] \<rparr>;
           (loc1, g) = random_room world g;
           pkg = pkg \<lparr> pkg_objects := dict_set (pkg_objects pkg) ''medical_kit''
               (new_GameObject ''medical_kit''
                  \<lparr> obj_name := ''medical kit'',
                    obj_description := ''A field medical kit containing the essentials. Not everything, but ''
                      @ ''enough. In the right hands it is more powerful than any weapon here.'',
                    location := loc1,
                    takeable := True,
                    is_consumable := True,
                    health_restore := 40,
                    valid_verbs := [''take'', ''drop'', ''examine'', ''use''] \<rparr>) \<rparr>;
           (loc2, g) = random_room world g;
           pkg = pkg \<lparr> pkg_objects := dict_set (pkg_objects pkg) ''advanced_medicine''
               (new_GameObject ''advanced_medicine''
                  \<lparr> obj_name := ''advanced medicine'',
                    obj_description := ''High-grade medical supplies. Requires skill to use correctly. In the ''
                      @ ''right hands, recovers what seemed lost.'',
                    location := loc2,
                    takeable := True,
                    is_consumable := True,
                    health_restore := 70,
                    valid_verbs := [''take'', ''drop'', ''examine'', ''use''] \<rparr>) \<rparr>;
           pkg = pkg \<lparr> pkg_transformations := dict_set (pkg_transformations pkg) ''apply_treatment''
               (new_Transformation ''apply_treatment''
                  \<lparr> subject_object_id := ''medical_kit'',
                    state_required := ''normal'',
                    turns_required := 2,
                    new_state := ''used'',
                    message := ''You apply the treatment with care and precision. The improvement is ''
                      @ ''immediate. There is no more reliable satisfaction than healing ''
                      @ ''working as intended.'' \<rparr>) \<rparr>
       in Inr ((pkg, world), g))"

definition build_magic ::
  "WorldConfig \<Rightarrow> ThemeDefaults \<Rightarrow> rng \<Rightarrow> py_error + ((PhysicsPackage \<times> WorldConfig) \<times> rng)" where
  "build_magic world th g =
     (if rooms world = [] then Inl IndexError
      else
       let pkg = \<lparr> physics_type = MAGIC,
               display_name = ''Magic Casting'',
               pkg_description = ''Spell words transform rooms and objects'',
               pkg_objects = [], pkg_transformations = [] \<rparr>;
           (loc1, g) = random_room world g;
           pkg = pkg \<lparr> pkg_objects := dict_set (pkg_objects pkg) ''spell_scroll''
               (new_GameObject ''spell_scroll''
                  \<lparr> obj_name := ''spell scroll'',
                    obj_description := ''A scroll containing an incantation. The words are precise ''
                      @ em_dash
                      @ '' power without precision is just noise. Read the words correctly and ''
                      @ ''something changes.'',
                    location := loc1,
                    takeable := True,
                    valid_verbs := [''take'', ''drop'', ''examine'', ''read'', ''cast'', ''use''] \<rparr>) \<rparr>;
           pkg = pkg \<lparr> pkg_objects := dict_set (pkg_objects pkg) ''enchanted_item''
               (new_GameObject ''enchanted_item''
                  \<lparr> obj_name := ''enchanted item'',
                    obj_description := ''An object altered by magical means. It is the same object it was and ''
                      @ ''also entirely different. Magic specializes in this kind of paradox.'',
                    location := ''none'',
                    takeable := True,
                    valid_verbs := [''take'', ''drop'', ''examine'', ''use''] \<rparr>) \<rparr>;
           pkg = pkg \<lparr> pkg_transformations := dict_set (pkg_transformations pkg) ''cast_spell''
               (new_Transformation ''cast_spell''
                  \<lparr> subject_object_id := ''spell_scroll'',
                    state_required := ''normal'',
                    turns_required := 1,
                    new_state := ''cast'',
                    new_object_id := ''enchanted_item'',
                    message := ''The words of the incantation form and release. There is a moment ''
                      @ ''where the laws of the world negotiate with the instruction you have ''
                      @ ''just given them. The spell takes effect.'' \<rparr>) \<rparr>
       in Inr ((pkg, world), g))"

definition build_teleportation ::
  "WorldConfig \<Rightarrow> ThemeDefaults \<Rightarrow> rng \<Rightarrow> py_error + ((PhysicsPackage \<times> WorldConfig) \<times> rng)" where
  "build_teleportation world th g =
     (if rooms world = [] then Inl IndexError
      else
       let rooms_list = dict_keys (rooms world);
           dest_room = (if length rooms_list > 1 then last rooms_list else rooms_list ! 0);
           pkg = \<lparr> physics_type = TELEPORTATION,
               display_name = ''Teleportation'',
               pkg_description = ''Portal devices transport players between locations'',
               pkg_objects = [], pkg_transformations = [] \<rparr>;
           (loc1, g) = random_room world g;
           pkg = pkg \<lparr> pkg_objects := dict_set (pkg_objects pkg) ''portal_device''
               (new_GameObject ''portal_device''
                  \<lparr> obj_name := ''portal device'',
                    obj_description := ''A device that folds space. The destination is encoded in its ''
                      @ ''configuration. Activate it and you are somewhere else. The transition ''
                      @ ''is instantaneous and profoundly disorienting.'',
                    location := loc1,
                    takeable := True,
                    valid_verbs := [''take'', ''drop'', ''examine'', ''activate'', ''use''] \<rparr>) \<rparr>;
           pkg = pkg \<lparr> pkg_transformations := dict_set (pkg_transformations pkg) ''teleport_activate''
               (new_Transformation ''teleport_activate''
                  \<lparr> subject_object_id := ''portal_device'',
                    state_required := ''normal'',
                    turns_required := 1,
                    new_state := ''activated'',
                    new_location := dest_room,
                    message := ''You activate the device. Space folds. You are somewhere else ''
                      @ ''entirely. You are in the ''
                      @ room_name_of world dest_room
                      @ ''.'' \<rparr>) \<rparr>
       in Inr ((pkg, world), g))"

definition build_temperature ::
  "WorldConfig \<Rightarrow> ThemeDefaults \<Rightarrow> rng \<Rightarrow> py_error + ((PhysicsPackage \<times> WorldConfig) \<times> rng)" where
  "build_temperature world th g =
     (if rooms world = [] then Inl IndexError
      else
       let pkg = \<lparr> physics_type = TEMPERATURE,
               display_name = ''Temperature Physics'',
               pkg_description = ''Water freezes, ice melts, temperature zones affect objects'',
               pkg_objects = [], pkg_transformations = [] \<rparr>;
           (loc1, g) = random_room world g;
           pkg = pkg \<lparr> pkg_objects := dict_set (pkg_objects pkg) ''water_container''
               (new_GameObject ''water_container''
                  \<lparr> obj_name := ''container of water'',
                    obj_description := ''Water in a container. Its state depends entirely on temperature.'',
                    location := loc1,
                    takeable := True,
                    valid_verbs := [''take'', ''drop'', ''examine'', ''use''] \<rparr>) \<rparr>;
           pkg = pkg \<lparr> pkg_objects := dict_set (pkg_objects pkg) ''ice_block''
               (new_GameObject ''ice_block''
                  \<lparr> obj_name := ''block of ice'',
                    obj_description := ''Frozen water. In a cold zone it stays frozen. Elsewhere it will ''
                      @ ''return to what it was.'',
                    location := ''none'',
                    takeable := True,
                    valid_verbs := [''take'', ''drop'', ''examine'', ''use''] \<rparr>) \<rparr>;
           pkg = pkg \<lparr> pkg_transformations := dict_set (pkg_transformations pkg) ''water_freezes''
               (new_Transformation ''water_freezes''
                  \<lparr> subject_object_id := ''water_container'',
                    state_required := ''normal'',
                    turns_required := 3,
                    new_state := ''frozen'',
                    new_object_id := ''ice_block'',
                    location_property := ''cold_zone'',
                    message := ''The water in the container begins to crystallize. The temperature ''
                      @ ''here is doing exactly what temperature does. The container now holds ''
                      @ ''a solid block of ice.'' \<rparr>) \<rparr>;
           pkg = pkg \<lparr> pkg_transformations := dict_set (pkg_transformations pkg) ''ice_melts''
               (new_Transformation ''ice_melts''
                  \<lparr> subject_object_id := ''ice_block'',
                    state_required := ''frozen'',
                    turns_required := 4,
                    new_state := ''normal'',
                    new_object_id := ''water_container'',
                    location_property := ''warm_zone'',
                    message := ''The ice block softens. Drops form. The solid becomes liquid again ''
                      @ ''with the unhurried patience of physics doing what physics does.'' \<rparr>) \<rparr>
       in Inr ((pkg, world), g))"

definition build_growth ::
  "WorldConfig \<Rightarrow> ThemeDefaults \<Rightarrow> rng \<Rightarrow> py_error + ((PhysicsPackage \<times> WorldConfig) \<times> rng)" where
  "build_growth world th g =
     (if rooms world = [] then Inl IndexError
      else
       let pkg = \<lparr> physics_type = GROWTH,
               display_name = ''Growth / Decay'',
               pkg_description = ''Plants grow, food spoils over time'',
               pkg_objects = [], pkg_transformations = [] \<rparr>;
           (loc1, g) = random_room world g;
           pkg = pkg \<lparr> pkg_objects := dict_set (pkg_objects pkg) ''seed''
               (new_GameObject ''seed''
                  \<lparr> obj_name := ''seed'',
                    obj_description := ''A seed. Contains the complete instructions for becoming something ''
                      @ ''much larger. Currently not using any of them.'',
                    location := loc1,
                    takeable := True,
                    valid_verbs := [''take'', ''drop'', ''examine'', ''plant'', ''use''] \<rparr>) \<rparr>;
           pkg = pkg \<lparr> pkg_objects := dict_set (pkg_objects pkg) ''grown_plant''
               (new_GameObject ''grown_plant''
                  \<lparr> obj_name := ''grown plant'',
                    obj_description := ''The seed followed its instructions. It is now a plant. This is what ''
                      @ ''seeds do when given time and a suitable location.'',
                    location := ''none'',
                    takeable := True,
                    is_consumable := True,
                    health_restore := 20,
                    valid_verbs := [''take'', ''drop'', ''examine'', ''eat'', ''use''] \<rparr>) \<rparr>;
           pkg = pkg \<lparr> pkg_transformations := dict_set (pkg_transformations pkg) ''seed_grows''
               (new_Transformation ''seed_grows''
                  \<lparr> subject_object_id := ''seed'',
                    state_required := ''planted'',
                    turns_required := 8,
                    new_state := ''grown'',
                    new_object_id := ''grown_plant'',
                    message := ''The seed has grown. It took time ''
                      @ em_dash
                      @ '' eight turns, to be precise ''
                      @ em_dash
                      @ '' but the instructions encoded in the seed have been executed ''
                      @ ''faithfully. A plant exists where there was none.'' \<rparr>) \<rparr>
       in Inr ((pkg, world), g))"

definition build_alien_tech ::
  "WorldConfig \<Rightarrow> ThemeDefaults \<Rightarrow> rng \<Rightarrow> py_error + ((PhysicsPackage \<times> WorldConfig) \<times> rng)" where
  "build_alien_tech world th g =
     (if rooms world = [] then Inl IndexError
      else
       let pkg = \<lparr> physics_type = ALIEN_TECH,
               display_name = ''Alien Technology'',
               pkg_description = ''Scan and activate alien artifacts'',
               pkg_objects = [], pkg_transformations = [] \<rparr>;
           (loc1, g) = random_room world g;
           pkg = pkg \<lparr> pkg_objects := dict_set (pkg_objects pkg) ''alien_artifact''
               (new_GameObject ''alien_artifact''
                  \<lparr> obj_name := ''alien artifact'',
                    obj_description := ''An object not made by human hands. The materials are unidentifiable. ''
                      @ ''The purpose is unclear. The craftsmanship is either primitive or so ''
                      @ ''advanced it looks primitive.'',
                    location := loc1,
                    takeable := True,
                    valid_verbs := [''take'', ''drop'', ''examine'', ''scan'', ''activate'', ''use''] \<rparr>) \<rparr>;
           (loc2, g) = random_room world g;
           pkg = pkg \<lparr> pkg_objects := dict_set (pkg_objects pkg) ''scanner_device''
               (new_GameObject ''scanner_device''
                  \<lparr> obj_name := ''scanner device'',
                    obj_description := ''A scanning device that analyzes non-terrestrial objects. Point at ''
                      @ ''artifact. Read output. Repeat until understanding approaches ''
                      @ ''something resembling certainty.'',
                    location := loc2,
                    takeable := True,
                    valid_verbs := [''take'', ''drop'', ''examine'', ''scan'', ''use''] \<rparr>) \<rparr>;
           pkg = pkg \<lparr> pkg_objects := dict_set (pkg_objects pkg) ''activated_artifact''
               (new_GameObject ''activated_artifact''
                  \<lparr> obj_name := ''activated alien artifact'',
                    obj_description := ''The artifact is doing something now. What it is doing is difficult to ''
                      @ ''describe precisely. The effect is measurable even if the mechanism is ''
                      @ ''not understood.'',
                    location := ''none'',
                    takeable := True,
                    valid_verbs := [''take'', ''drop'', ''examine'', ''use''] \<rparr>) \<rparr>;
           pkg = pkg \<lparr> pkg_transformations := dict_set (pkg_transformations pkg) ''alien_scan''
               (new_Transformation ''alien_scan''
                  \<lparr> subject_object_id := ''alien_artifact'',
                    state_required := ''dormant'',
                    turns_required := 2,
                    new_state := ''analyzed'',
                    requires_object := ''scanner_device'',
                    message := ''The scanner reads the artifact. The output is a cascade of data that ''
                      @ ''means something to someone who understands it. You understand enough ''
                      @ ''to proceed to activation.'' \<rparr>) \<rparr>;
           pkg = pkg \<lparr> pkg_transformations := dict_set (pkg_transformations pkg) ''alien_activate''
               (new_Transformation ''alien_activate''
                  \<lparr> subject_object_id := ''alien_artifact'',
                    state_required := ''analyzed'',
                    turns_required := 1,
                    new_state := ''active'',
                    new_object_id := ''activated_artifact'',
                    message := ''The artifact activates. The change is immediate and unmistakable. You ''
                      @ ''have caused something non-human to do what it was built to do. This ''
                      @ ''feels significant.'' \<rparr>) \<rparr>
       in Inr ((pkg, world), g))"

definition get_package ::
  "PhysicsType \<Rightarrow> WorldConfig \<Rightarrow> ThemeDefaults \<Rightarrow> rng
     \<Rightarrow> py_error + ((PhysicsPackage \<times> WorldConfig) \<times> rng)" where
  "get_package p world th g =
     (case p of
        TEMPERATURE \<Rightarrow> build_temperature world th g
      | ENERGY \<Rightarrow> build_energy world th g
      | LOCK_KEY \<Rightarrow> build_lock_key world th g
      | CRAFTING \<Rightarrow> build_crafting world th g
      | TELEPORTATION \<Rightarrow> build_teleportation world th g
      | DISGUISE \<Rightarrow> build_disguise world th g
      | EXPLOSIVES \<Rightarrow> build_explosives world th g
      | BRIBERY \<Rightarrow> build_bribery world th g
      | MAGIC \<Rightarrow> build_magic world th g
      | MEDICAL \<Rightarrow> build_medical world th g
      | GROWTH \<Rightarrow> build_growth world th g
      | ALIEN_TECH \<Rightarrow> build_alien_tech world th g)"

subsection \<open>Resolved references\<close>

text \<open>
  A package is closed over a world when the object identifiers its transformations name
  are objects of the package, a destination room is a room of the world, and every object
  of the package is located in a room of the world or nowhere (\<^verbatim>\<open>'none'\<close>).
\<close>

definition transformation_closed :: "string list \<Rightarrow> string set \<Rightarrow> Transformation \<Rightarrow> bool" where
  "transformation_closed oids rids t =
     (subject_object_id t \<in> set oids
      \<and> (new_object_id t = [] \<or> new_object_id t \<in> set oids)
      \<and> (requires_object t = [] \<or> requires_object t \<in> set oids)
      \<and> (requires_object_2 t = [] \<or> requires_object_2 t \<in> set oids)
      \<and> (new_location t = [] \<or> new_location t \<in> rids))"

definition package_closed :: "PhysicsPackage \<Rightarrow> WorldConfig \<Rightarrow> bool" where
  "package_closed pkg world =
     (list_all (\<lambda>(tid, t). transformation_closed (dict_keys (pkg_objects pkg)) (room_ids world) t)
        (pkg_transformations pkg)
      \<and> list_all (\<lambda>(oid, ob). location ob = ''none'' \<or> location ob \<in> room_ids world)
          (pkg_objects pkg))"

text \<open>
  The references of a world that do not resolve, as the validator finds them: the errors
  of its checks 1, 7, 8 and 10 to 14, and of check 5 those for a location that is neither
  a room nor an object.
\<close>

definition check_object_location_exists :: "WorldConfig \<Rightarrow> vmsg list" where
  "check_object_location_exists world =
     concat (map (\<lambda>(oid, ob).
        if location ob \<noteq> [] \<and> location ob \<noteq> ''none''
           \<and> location ob \<notin> room_ids world \<and> location ob \<notin> object_ids world
        then [ObjectLocationMissing oid (location ob)] else [])
       (objects world))"

definition unresolved_references :: "WorldConfig \<Rightarrow> vmsg list" where
  "unresolved_references world =
     check_exits world @ check_object_location_exists world
     @ spawn_errors world (sprites world) @ check_loot world
     @ check_transform_object world @ check_transform_new_object world
     @ check_transform_requires world @ check_transform_new_location world
     @ check_respawn world"

section \<open>The auto-repair pass (create\_world.py, step 5)\<close>

text \<open>
  The repair works on the three parsed artifacts: the sections of \<^verbatim>\<open>rooms.ini\<close>,
  \<^verbatim>\<open>objects.ini\<close> and \<^verbatim>\<open>sprites.ini\<close>. A file is rewritten only when one of its
  options changed; either way its sections afterwards are the ones computed here.
\<close>

definition DIRECTIONS :: "string list" where
  "DIRECTIONS =
     [''north'', ''south'', ''east'', ''west'', ''up'', ''down'',
      ''northeast'', ''northwest'', ''southeast'', ''southwest'', ''enter'', ''exit'']"

text \<open>\<^verbatim>\<open>remove_option\<close> on the options of a section.\<close>

definition remove_option :: "(string \<times> string) list \<Rightarrow> string \<Rightarrow> (string \<times> string) list" where
  "remove_option opts k = filter (\<lambda>(k', v). k' \<noteq> k) opts"

text \<open>
  The loop over \<^verbatim>\<open>DIRECTIONS\<close> for one room section: an exit whose target is no
  section of the rooms file is removed.
\<close>

definition repair_exit :: "string set \<Rightarrow> string \<Rightarrow> (string \<times> string) list \<Rightarrow> (string \<times> string) list" where
  "repair_exit valid_rooms d opts =
     (case dict_get opts d of
        Some target \<Rightarrow> if target \<notin> valid_rooms then remove_option opts d else opts
      | None \<Rightarrow> opts)"

definition repair_room_section ::
  "string set \<Rightarrow> string \<times> (string \<times> string) list \<Rightarrow> string \<times> (string \<times> string) list" where
  "repair_room_section valid_rooms sec = (fst sec, fold (repair_exit valid_rooms) DIRECTIONS (snd sec))"

definition repair_rooms :: "ini_cfg \<Rightarrow> ini_cfg" where
  "repair_rooms rooms_cfg = map (repair_room_section (set (dict_keys rooms_cfg))) rooms_cfg"

text \<open>
  The fallback room: \<^verbatim>\<open>'entrance'\<close> when there is such a room, the first element of
  \<^verbatim>\<open>list(valid_rooms_objs)\<close> otherwise. The order of that list is the order of a set;
  \<open>pick\<close> stands for whichever position comes first. With no room at all the
  index raises.
\<close>

definition fallback_room :: "string list \<Rightarrow> nat \<Rightarrow> py_error + string" where
  "fallback_room valid pick =
     (if ''entrance'' \<in> set valid then Inr ''entrance''
      else if valid = [] then Inl IndexError
      else Inr (valid ! (pick mod length valid)))"

definition repair_object_section ::
  "string list \<Rightarrow> nat \<Rightarrow> string \<times> (string \<times> string) list
     \<Rightarrow> py_error + (string \<times> (string \<times> string) list)" where
  "repair_object_section valid pick sec =
     (case dict_get (snd sec) ''location'' of
        None \<Rightarrow> Inr sec
      | Some loc \<Rightarrow>
          if loc \<noteq> [] \<and> loc \<noteq> ''none'' \<and> loc \<notin> set valid
          then (case fallback_room valid pick of
                  Inl e \<Rightarrow> Inl e
                | Inr fallback \<Rightarrow> Inr (fst sec, dict_set (snd sec) ''location'' fallback))
          else Inr sec)"

text \<open>
  The new spawn list of a sprite section, when the repair changes it: the entries that
  are rooms, or the fallback room alone when none is. The option is then set to these
  entries joined by a comma and a blank.
\<close>

definition fixed_spawns :: "string list \<Rightarrow> nat \<Rightarrow> string \<Rightarrow> py_error + string list option" where
  "fixed_spawns valid pick raw =
     (let rooms_list = spawn_entries raw;
          valid_spawns = filter (\<lambda>r. r \<in> set valid) rooms_list
      in if length valid_spawns < length rooms_list
         then (case fallback_room valid pick of
                 Inl e \<Rightarrow> Inl e
               | Inr fallback \<Rightarrow> Inr (Some (if valid_spawns \<noteq> [] then valid_spawns else [fallback])))
         else Inr None)"

definition repair_sprite_section ::
  "string list \<Rightarrow> nat \<Rightarrow> string \<times> (string \<times> string) list
     \<Rightarrow> py_error + (string \<times> (string \<times> string) list)" where
  "repair_sprite_section valid pick sec =
     (case dict_get (snd sec) ''spawn_rooms'' of
        None \<Rightarrow> Inr sec
      | Some raw \<Rightarrow>
          (case fixed_spawns valid pick raw of
             Inl e \<Rightarrow> Inl e
           | Inr None \<Rightarrow> Inr sec
           | Inr (Some fixed) \<Rightarrow>
               Inr (fst sec, dict_set (snd sec) ''spawn_rooms'' (py_join '', '' fixed))))"

text \<open>A loop over sections that stops at the first exception.\<close>

fun map_sections ::
  "('a \<Rightarrow> py_error + 'a) \<Rightarrow> 'a list \<Rightarrow> py_error + 'a list" where
  "map_sections f [] = Inr []"
| "map_sections f (x # xs) =
     (case f x of
        Inl e \<Rightarrow> Inl e
      | Inr y \<Rightarrow> (case map_sections f xs of Inl e \<Rightarrow> Inl e | Inr ys \<Rightarrow> Inr (y # ys)))"

text \<open>
  The whole pass, in the order of the source: rooms, then objects, then sprites, the
  latter two against the sections of the repaired rooms file.
\<close>

definition auto_repair ::
  "nat \<Rightarrow> ini_cfg \<Rightarrow> ini_cfg \<Rightarrow> ini_cfg \<Rightarrow> py_error + (ini_cfg \<times> ini_cfg \<times> ini_cfg)" where
  "auto_repair pick rooms_cfg obj_cfg spr_cfg =
     (let rooms_cfg' = repair_rooms rooms_cfg;
          valid_rooms_objs = dict_keys rooms_cfg'
      in case map_sections (repair_object_section valid_rooms_objs pick) obj_cfg of
           Inl e \<Rightarrow> Inl e
         | Inr obj_cfg' \<Rightarrow>
            (case map_sections (repair_sprite_section valid_rooms_objs pick) spr_cfg of
               Inl e \<Rightarrow> Inl e
             | Inr spr_cfg' \<Rightarrow> Inr (rooms_cfg', obj_cfg', spr_cfg')))"

text \<open>
  The identifiers an artifact set holds: the room sections and the exit targets, the
  object sections and the object locations that name something, the sprite sections and
  the spawn-room entries.
\<close>

definition exit_targets :: "ini_cfg \<Rightarrow> string set" where
  "exit_targets rooms_cfg =
     {v. \<exists>sec k. sec \<in> set rooms_cfg \<and> (k, v) \<in> set (snd sec) \<and> k \<in> set DIRECTIONS}"

definition object_locations :: "ini_cfg \<Rightarrow> string set" where
  "object_locations obj_cfg =
     {v. \<exists>sec. sec \<in> set obj_cfg \<and> (''location'', v) \<in> set (snd sec) \<and> v \<noteq> [] \<and> v \<noteq> ''none''}"

definition spawn_room_ids :: "ini_cfg \<Rightarrow> string set" where
  "spawn_room_ids spr_cfg =
     {r. \<exists>sec raw. sec \<in> set spr_cfg \<and> (''spawn_rooms'', raw) \<in> set (snd sec)
                   \<and> r \<in> set (spawn_entries raw)}"

text \<open>
  What the pass may do to a section. A room section keeps its name and loses exactly the
  direction options whose target is no room. An object section is left as it is or has
  its location set to a room. A sprite section is left as it is or has its spawn rooms
  set to the join of a non-empty list of rooms, which is a selection of the old entries
  or one room alone.
\<close>

definition exits_pruned ::
  "string set \<Rightarrow> string \<times> (string \<times> string) list \<Rightarrow> string \<times> (string \<times> string) list \<Rightarrow> bool" where
  "exits_pruned valid_rooms sec sec' =
     (fst sec' = fst sec
      \<and> snd sec' = filter (\<lambda>(k, v). \<not> (k \<in> set DIRECTIONS \<and> v \<notin> valid_rooms)) (snd sec))"

definition relocated_or_same ::
  "string list \<Rightarrow> string \<times> (string \<times> string) list \<Rightarrow> string \<times> (string \<times> string) list \<Rightarrow> bool" where
  "relocated_or_same valid sec sec' =
     (sec' = sec
      \<or> (\<exists>fallback. fallback \<in> set valid
             \<and> sec' = (fst sec, dict_set (snd sec) ''location'' fallback)))"

definition respawned_or_same ::
  "string list \<Rightarrow> string \<times> (string \<times> string) list \<Rightarrow> string \<times> (string \<times> string) list \<Rightarrow> bool" where
  "respawned_or_same valid sec sec' =
     (sec' = sec
      \<or> (\<exists>fixed. fixed \<noteq> [] \<and> set fixed \<subseteq> set valid
             \<and> (set fixed \<subseteq> set (spawn_entries (opt_get (snd sec) ''spawn_rooms''))
                  \<or> length fixed = 1)
             \<and> sec' = (fst sec, dict_set (snd sec) ''spawn_rooms'' (py_join '', '' fixed))))"

text \<open>
  An identifier that reads back as itself from a comma-separated option: not empty, no
  comma, no whitespace at either end. The identifiers \<open>safe_id\<close> derives from ordinary
  names are of this kind.
\<close>

definition clean_id :: "string \<Rightarrow> bool" where
  "clean_id x = (x \<noteq> [] \<and> CHR '','' \<notin> set x \<and> py_strip x = x)"

subsection \<open>Sample artifacts\<close>

text \<open>
  Two rooms; an exit, an object location and spawn entries that name rooms which do not
  exist.
\<close>

definition sample_rooms_cfg :: ini_cfg where
  "sample_rooms_cfg =
     [(''entrance'', [(''name'', ''Entrance''), (''north'', ''hall''), (''up'', ''attic'')]),
      (''hall'', [(''name'', ''Hall''), (''south'', ''entrance'')])]"

definition sample_obj_cfg :: ini_cfg where
  "sample_obj_cfg =
     [(''starter_key'', [(''name'', ''access key''), (''location'', ''attic'')]),
      (''crafted_result'', [(''name'', ''combined item''), (''location'', ''none'')])]"

definition sample_spr_cfg :: ini_cfg where
  "sample_spr_cfg =
     [(''igor_template'', [(''spawn_rooms'', ''attic, hall , cellar'')]),
      (''sentry_template'', [(''spawn_rooms'', ''attic'')]),
      (''queen_template'', [(''spawn_rooms'', ''hall'')])]"

text \<open>A written rooms file in which one section carries a label the engine does not read.\<close>

definition sample_disk :: disk where
  "sample_disk =
     [(''out/rooms.ini'',
        \<lparr> ini_sections =
            [(''entrance'', [(''name'', ''Entrance''), (''north'', ''hall''), (''northeast'', ''hall'')]),
             (''hall'', [(''name'', ''Hall''), (''south'', ''entrance'')])],
          ini_lines = [] \<rparr>),
      (''out/objects.ini'', \<lparr> ini_sections = [], ini_lines = [] \<rparr>),
      (''out/sprites.ini'', \<lparr> ini_sections = [], ini_lines = [] \<rparr>),
      (''out/transformations.ini'', \<lparr> ini_sections = [], ini_lines = [] \<rparr>),
      (''out/combat.ini'', \<lparr> ini_sections = [], ini_lines = [] \<rparr>),
      (''out/stablediffusion.ini'', \<lparr> ini_sections = [], ini_lines = [] \<rparr>)]"

section \<open>Theme classification: results\<close>

lemma add_score_keys: "map fst (add_score d t n) = map fst d"
  by (induction d t n rule: add_score.induct) auto

lemma map_of_add_score:
  "map_of (add_score d t n) u = (if u = t then map_option (\<lambda>v. v + n) (map_of d t) else map_of d u)"
  by (induction d t n rule: add_score.induct) auto

lemma score_of_add_score:
  "score_of (add_score d t n) u = (if u = t \<and> t \<in> fst ` set d then score_of d u + n else score_of d u)"
proof (cases "map_of d t")
  case None
  then have "t \<notin> fst ` set d" by (simp add: map_of_eq_None_iff)
  then show ?thesis using None by (simp add: score_of_def map_of_add_score)
next
  case (Some v)
  then have "t \<in> fst ` set d" by (metis map_of_eq_None_iff option.distinct(1))
  then show ?thesis using Some by (simp add: score_of_def map_of_add_score)
qed

lemma score_keyword_keys: "map fst (score_keyword nl th kw d) = map fst d"
  by (simp add: score_keyword_def add_score_keys)

lemma score_of_score_keyword:
  "th \<in> fst ` set d \<Longrightarrow>
   score_of (score_keyword nl th kw d) u = score_of d u + (if u = th then hit_points nl kw else 0)"
  by (simp add: score_keyword_def score_of_add_score hit_points_def kw_points_def)

lemma fold_score_keyword:
  "th \<in> fst ` set d \<Longrightarrow>
   map fst (fold (score_keyword nl th) kws d) = map fst d \<and>
   score_of (fold (score_keyword nl th) kws d) u =
     score_of d u + (if u = th then sum_list (map (hit_points nl) kws) else 0)"
proof (induction kws arbitrary: d)
  case Nil
  then show ?case by simp
next
  case (Cons kw kws)
  have k: "map fst (score_keyword nl th kw d) = map fst d" by (rule score_keyword_keys)
  then have "th \<in> fst ` set (score_keyword nl th kw d)"
    using Cons.prems by (metis list.set_map)
  from Cons.IH[OF this] show ?case
    using k score_of_score_keyword[OF Cons.prems, of nl kw u] by simp
qed

lemma score_row_effect:
  "fst row \<in> fst ` set d \<Longrightarrow>
   map fst (score_row nl row d) = map fst d \<and>
   score_of (score_row nl row d) u = score_of d u + row_total nl u row"
  using fold_score_keyword[of "fst row" d nl "snd row" u]
  by (auto simp: score_row_def row_total_def)

lemma fold_score_row:
  "fst ` set rows \<subseteq> fst ` set d \<Longrightarrow>
   map fst (fold (score_row nl) rows d) = map fst d \<and>
   score_of (fold (score_row nl) rows d) u = score_of d u + sum_list (map (row_total nl u) rows)"
proof (induction rows arbitrary: d)
  case Nil
  then show ?case by simp
next
  case (Cons row rows)
  have r: "fst row \<in> fst ` set d" using Cons.prems by auto
  note e = score_row_effect[OF r, of nl u]
  have "fst ` set rows \<subseteq> fst ` set (score_row nl row d)"
    using Cons.prems e by (metis (no_types, lifting) insert_subset list.set_map list.simps(15) image_insert)
  from Cons.IH[OF this] show ?case using e by simp
qed

lemma members_all: "t \<in> set WorldTheme_members"
  by (cases t) (simp_all add: WorldTheme_members_def)

lemma theme_scores_keys: "dict_keys (theme_scores w) = WorldTheme_members"
proof -
  have "fst ` set THEME_KEYWORDS \<subseteq> fst ` set (map (\<lambda>t. (t, 0::int)) WorldTheme_members)"
    using members_all by (auto simp: image_iff)
  from fold_score_row[OF this] show ?thesis
    by (simp add: theme_scores_def dict_keys_def comp_def)
qed

lemma score_of_theme_scores: "score_of (theme_scores w) u = theme_total w u"
proof -
  have "fst ` set THEME_KEYWORDS \<subseteq> fst ` set (map (\<lambda>t. (t, 0::int)) WorldTheme_members)"
    using members_all by (auto simp: image_iff)
  from fold_score_row[OF this, of "py_strip (py_lower w)" u]
  have "score_of (theme_scores w) u =
        score_of (map (\<lambda>t. (t, 0::int)) WorldTheme_members) u + theme_total w u"
    by (simp add: theme_scores_def theme_total_def)
  moreover have "score_of (map (\<lambda>t. (t, 0::int)) WorldTheme_members) u = 0"
    by (cases u) (simp_all add: score_of_def WorldTheme_members_def)
  ultimately show ?thesis by simp
qed

lemma py_max_key_first_max:
  "\<exists>pre post. b # xs = pre @ py_max_key f b xs # post
     \<and> (\<forall>y\<in>set pre. f y < f (py_max_key f b xs))
     \<and> (\<forall>y\<in>set post. f y \<le> f (py_max_key f b xs))"
proof (induction xs arbitrary: b)
  case Nil
  have "[b] = [] @ py_max_key f b [] # []" by simp
  then show ?case by (metis empty_iff empty_set order_refl)
next
  case (Cons x xs)
  show ?case
  proof (cases "f b < f x")
    case True
    define r where "r = py_max_key f x xs"
    have r: "py_max_key f b (x # xs) = r" using True by (simp add: r_def)
    from Cons.IH[of x] obtain pre post where
      d: "x # xs = pre @ r # post" and
      lt: "\<forall>y\<in>set pre. f y < f r" and le: "\<forall>y\<in>set post. f y \<le> f r"
      unfolding r_def by blast
    have "f x \<le> f r"
    proof (cases pre)
      case Nil
      then have "x = r" using d by simp
      then show ?thesis by simp
    next
      case (Cons p ps)
      then have "x \<in> set pre" using d by simp
      then show ?thesis using lt by force
    qed
    then have "\<forall>y\<in>set (b # pre). f y < f r" using True lt by auto
    moreover have "b # x # xs = (b # pre) @ r # post" using d by simp
    ultimately show ?thesis unfolding r using le by blast
  next
    case False
    define r where "r = py_max_key f b xs"
    have r: "py_max_key f b (x # xs) = r" using False by (simp add: r_def)
    from Cons.IH[of b] obtain pre post where
      d: "b # xs = pre @ r # post" and
      lt: "\<forall>y\<in>set pre. f y < f r" and le: "\<forall>y\<in>set post. f y \<le> f r"
      unfolding r_def by blast
    show ?thesis
    proof (cases pre)
      case Nil
      then have rb: "r = b" and p: "post = xs" using d by simp_all
      have "b # x # xs = [] @ r # (x # xs)" using rb by simp
      moreover have "\<forall>y\<in>set (x # xs). f y \<le> f r" using False le p rb by auto
      ultimately show ?thesis unfolding r by (metis empty_iff empty_set)
    next
      case (Cons p ps)
      then have pb: "p = b" and xs: "xs = ps @ r # post" using d by simp_all
      have "f b < f r" using lt Cons pb by simp
      then have "\<forall>y\<in>set (b # x # ps). f y < f r" using False lt Cons by auto
      moreover have "b # x # xs = (b # x # ps) @ r # post" using xs by simp
      ultimately show ?thesis unfolding r using le by blast
    qed
  qed
qed

lemma disco_spy_scores:
  "theme_scores ''disco spy'' =
     [(SCIFI, 0), (MILITARY, 0), (FANTASY, 0), (DOMESTIC, 0), (HORROR, 0), (ADVENTURE, 0),
      (SITCOM, 0), (CRIME_SPY, 1), (DISCO, 1), (NIGHTCLUB, 0), (ORIGINAL, 0)]"
  by code_simp

lemma disco_spy_classify: "classify ''disco spy'' = CRIME_SPY"
  unfolding classify_def disco_spy_scores by (simp add: dict_keys_def score_of_def)

text \<open>
  Claim C4, as the code has it. \<open>classify\<close> is a total function. Each theme's score is
  \<open>theme_total\<close>: 2 points for every whole-word keyword hit longer than 6 characters,
  1 point for every other hit. The result is determined by the theme \<open>t\<close> that comes
  first among the themes of highest total in the declaration order of the
  \<open>WorldTheme\<close> enumeration (every member before it has a strictly smaller total, no
  member after it has a larger one): \<open>classify\<close> returns \<open>t\<close>, or \<open>ORIGINAL\<close> when
  that highest total is 0, that is, when no keyword matches.
\<close>

theorem classify_highest_total_enum_order:
  "\<exists>t pre post. WorldTheme_members = pre @ t # post
     \<and> (\<forall>u\<in>set pre. theme_total w u < theme_total w t)
     \<and> (\<forall>u\<in>set post. theme_total w u \<le> theme_total w t)
     \<and> classify w = (if theme_total w t = 0 then ORIGINAL else t)"
proof -
  let ?sc = "theme_scores w"
  let ?r = "py_max_key (score_of ?sc) (hd WorldTheme_members) (tl WorldTheme_members)"
  have ne: "WorldTheme_members = hd WorldTheme_members # tl WorldTheme_members"
    by (simp add: WorldTheme_members_def)
  from py_max_key_first_max[of "hd WorldTheme_members" "tl WorldTheme_members" "score_of ?sc"]
  obtain pre post where
    d: "WorldTheme_members = pre @ ?r # post" and
    lt: "\<forall>y\<in>set pre. score_of ?sc y < score_of ?sc ?r" and
    le: "\<forall>y\<in>set post. score_of ?sc y \<le> score_of ?sc ?r"
    using ne by metis
  have c: "classify w = (if theme_total w ?r = 0 then ORIGINAL else ?r)"
    by (simp add: classify_def Let_def theme_scores_keys score_of_theme_scores)
  show ?thesis
    using d lt le c unfolding score_of_theme_scores by blast
qed

theorem classify_highest_total_enum_order_witness:
  "classify ''disco spy'' = CRIME_SPY
   \<and> (\<exists>t pre post. WorldTheme_members = pre @ t # post
        \<and> list_all (\<lambda>u. theme_total ''disco spy'' u < theme_total ''disco spy'' t) pre
        \<and> list_all (\<lambda>u. theme_total ''disco spy'' u \<le> theme_total ''disco spy'' t) post
        \<and> classify ''disco spy'' = (if theme_total ''disco spy'' t = 0 then ORIGINAL else t))"
proof -
  have "classify ''disco spy'' = CRIME_SPY" by (rule disco_spy_classify)
  then show ?thesis
    using classify_highest_total_enum_order [of "''disco spy''"]
    unfolding list_all_iff by blast
qed

text \<open>
  The claim as the specification words it resolves ties by the order in which the tags
  are declared in the keyword table. That table lists \<open>DISCO\<close> and \<open>NIGHTCLUB\<close>
  before \<open>CRIME_SPY\<close>, the enumeration lists \<open>CRIME_SPY\<close> first. For the world name
  ``disco spy'' the themes \<open>DISCO\<close> and \<open>CRIME_SPY\<close> tie at the highest total 1, and
  the result is \<open>CRIME_SPY\<close>, not the tag the keyword table declares first.
\<close>

theorem classify_keyword_table_order_counterexample:
  "map fst THEME_KEYWORDS =
     [SCIFI, MILITARY, FANTASY, DOMESTIC, HORROR, ADVENTURE, SITCOM, DISCO, NIGHTCLUB, CRIME_SPY]
   \<and> theme_total ''disco spy'' DISCO = 1
   \<and> theme_total ''disco spy'' CRIME_SPY = 1
   \<and> list_all (\<lambda>u. theme_total ''disco spy'' u \<le> 1) WorldTheme_members
   \<and> classify ''disco spy'' = CRIME_SPY"
  unfolding score_of_theme_scores [symmetric] disco_spy_scores
  by (simp add: disco_spy_classify THEME_KEYWORDS_def WorldTheme_members_def score_of_def)

section \<open>The sprite factory: results\<close>

lemma dedup_first_subset: "set (dedup_first seen xs) \<subseteq> set xs"
  by (induction seen xs rule: dedup_first.induct) auto

lemma dedup_first_length: "length (dedup_first seen xs) \<le> length xs"
  by (induction seen xs rule: dedup_first.induct) auto

lemma dedup_first_nonempty: "xs \<noteq> [] \<Longrightarrow> dedup_first [] xs \<noteq> []"
  by (cases xs) auto

lemma assign_spawn_rooms_ok:
  assumes "rids \<noteq> []"
  shows "assign_spawn_rooms idx n_names rids \<noteq> []"
    and "length (assign_spawn_rooms idx n_names rids) \<le> 2"
    and "set (assign_spawn_rooms idx n_names rids) \<subseteq> set rids"
proof -
  define rooms_per where "rooms_per = max 1 (length rids div max 1 n_names)"
  define start where "start = (idx * rooms_per) mod length rids"
  define picks where
    "picks = map (\<lambda>j. rids ! ((start + j) mod length rids)) [0 ..< min 2 rooms_per]"
  have a: "assign_spawn_rooms idx n_names rids = dedup_first [] picks"
    using assms by (simp add: assign_spawn_rooms_def Let_def picks_def start_def rooms_per_def)
  have "1 \<le> rooms_per" by (simp add: rooms_per_def)
  then have ne: "picks \<noteq> []" by (simp add: picks_def)
  have len: "length picks \<le> 2" by (simp add: picks_def)
  have sub: "set picks \<subseteq> set rids" using assms by (auto simp: picks_def)
  show "assign_spawn_rooms idx n_names rids \<noteq> []"
    unfolding a using ne by (rule dedup_first_nonempty)
  show "length (assign_spawn_rooms idx n_names rids) \<le> 2"
    unfolding a using dedup_first_length[of "[]" picks] len by simp
  show "set (assign_spawn_rooms idx n_names rids) \<subseteq> set rids"
    unfolding a using dedup_first_subset[of "[]" picks] sub by blast
qed

lemma dict_set_entries: "set (dict_set d k v) \<subseteq> insert (k, v) (set d)"
  by (induction d k v rule: dict_set.induct) auto

lemma sprite_step_shape:
  "sprite_step n_names th world rids (i, n) (acc, g) = (acc, g) \<or>
   (\<exists>sid s g'. sprite_step n_names th world rids (i, n) (acc, g) = (dict_set acc sid s, g')
      \<and> spawn_rooms s = assign_spawn_rooms i n_names rids)"
proof (cases "py_strip n = []")
  case True
  then show ?thesis by (simp add: sprite_step_def)
next
  case False
  obtain r behavior where c: "classify_sprite n = (r, behavior)" by (cases "classify_sprite n")
  obtain hp dmg where st: "calc_stats r th = (hp, dmg)" by (cases "calc_stats r th")
  obtain loot g' where l: "assign_loot world r g = (loot, g')" by (cases "assign_loot world r g")
  define sid where
    "sid = (if make_id n \<in> set (dict_keys acc) then make_id n @ ''_'' @ str_nat i else make_id n)"
  define sp where
    "sp = \<lparr> sprite_id = sid, sprite_name = n @ '' (template)'',
             sprite_description = sprite_describe n r th,
             health = hp, sprite_damage = dmg, ai_behavior = behavior,
             spawn_rooms = assign_spawn_rooms i n_names rids, loot_on_death = loot,
             can_pickup = (r \<noteq> BOSS), role = r, sprite_properties = [] \<rparr>"
  have "sprite_step n_names th world rids (i, n) (acc, g) = (dict_set acc sid sp, g')"
    using False by (simp add: sprite_step_def Let_def c st l sid_def sp_def)
  moreover have "spawn_rooms sp = assign_spawn_rooms i n_names rids" by (simp add: sp_def)
  ultimately show ?thesis by blast
qed

lemma sprite_step_spawn_ok:
  assumes "rids \<noteq> []" and "list_all (\<lambda>(sid, s). spawn_ok rids s) (fst st)"
  shows "list_all (\<lambda>(sid, s). spawn_ok rids s) (fst (sprite_step n_names th world rids entry st))"
proof -
  obtain i n where e: "entry = (i, n)" by (cases entry)
  obtain acc g where s: "st = (acc, g)" by (cases st)
  from sprite_step_shape[of n_names th world rids i n acc g]
  consider "sprite_step n_names th world rids (i, n) (acc, g) = (acc, g)"
    | sid sp g' where "sprite_step n_names th world rids (i, n) (acc, g) = (dict_set acc sid sp, g')"
        and "spawn_rooms sp = assign_spawn_rooms i n_names rids"
    by blast
  then show ?thesis
  proof cases
    case 1
    then show ?thesis using assms(2) by (simp add: e s)
  next
    case 2
    have "spawn_ok rids sp"
      unfolding spawn_ok_def 2(2) using assign_spawn_rooms_ok[OF assms(1)] by blast
    moreover have "\<forall>x\<in>set acc. case x of (sid, s) \<Rightarrow> spawn_ok rids s"
      using assms(2) by (simp add: s list_all_iff)
    ultimately have "\<forall>x\<in>set (dict_set acc sid sp). case x of (sid, s) \<Rightarrow> spawn_ok rids s"
      using dict_set_entries[of acc sid sp] by auto
    then show ?thesis by (simp add: e s 2(1) list_all_iff)
  qed
qed

lemma fold_sprite_step_spawn_ok:
  "rids \<noteq> [] \<Longrightarrow> list_all (\<lambda>(sid, s). spawn_ok rids s) (fst st) \<Longrightarrow>
   list_all (\<lambda>(sid, s). spawn_ok rids s) (fst (fold (sprite_step n_names th world rids) es st))"
  by (induction es arbitrary: st) (simp_all add: sprite_step_spawn_ok)

text \<open>
  Claim C7. \<open>generate_sprites\<close> is a total function: it returns a dictionary and raises
  nowhere. With no names or no rooms the dictionary is empty. In every other case, for
  every outcome of the random source, each sprite of the result has one or two spawn
  rooms, each of them a room id of the world.
\<close>

theorem generate_sprites_spawn_rooms:
  "(names = [] \<or> rooms world = [] \<longrightarrow> fst (generate_sprites names th world g) = [])
   \<and> (\<forall>(sid, s) \<in> set (fst (generate_sprites names th world g)).
         spawn_rooms s \<noteq> [] \<and> length (spawn_rooms s) \<le> 2
         \<and> set (spawn_rooms s) \<subseteq> room_ids world)"
proof (cases "names = [] \<or> rooms world = []")
  case True
  then show ?thesis by (simp add: generate_sprites_def)
next
  case False
  then have ne: "dict_keys (rooms world) \<noteq> []" by (simp add: dict_keys_def)
  have "list_all (\<lambda>(sid, s). spawn_ok (dict_keys (rooms world)) s)
          (fst (generate_sprites names th world g))"
    using False fold_sprite_step_spawn_ok[OF ne, of "([], g)"]
    by (simp add: generate_sprites_def)
  then show ?thesis
    using False unfolding list_all_iff spawn_ok_def room_ids_def by fastforce
qed

text \<open>Three names and the two rooms of the small world: three sprites, each placed.\<close>

theorem generate_sprites_spawn_rooms_witness:
  "map fst (fst (generate_sprites [''Igor'', ''Dark Queen'', ''Sentry''] scenario_theme scenario_world []))
     = [''igor_template'', ''dark_queen_template'', ''sentry_template'']
   \<and> list_all (\<lambda>(sid, s). spawn_rooms s \<noteq> [] \<and> length (spawn_rooms s) \<le> 2
          \<and> set (spawn_rooms s) \<subseteq> {''entrance'', ''hall''})
        (fst (generate_sprites [''Igor'', ''Dark Queen'', ''Sentry''] scenario_theme scenario_world []))"
proof -
  have k: "map fst (fst (generate_sprites [''Igor'', ''Dark Queen'', ''Sentry''] scenario_theme scenario_world []))
     = [''igor_template'', ''dark_queen_template'', ''sentry_template'']"
    by code_simp
  have r: "room_ids scenario_world = {''entrance'', ''hall''}"
    by (simp add: room_ids_def scenario_world_def dict_keys_def)
  show ?thesis
    using k generate_sprites_spawn_rooms
            [of "[''Igor'', ''Dark Queen'', ''Sentry'']" scenario_world scenario_theme "[]"]
    unfolding r list_all_iff by blast
qed

section \<open>Validation and the orchestrator: results\<close>

lemma errors_add_error [simp]: "errors (add_error m res) = errors res @ [m]"
  by (simp add: add_error_def)

lemma warnings_add_error [simp]: "warnings (add_error m res) = warnings res"
  by (simp add: add_error_def)

lemma errors_add_warning [simp]: "errors (add_warning m res) = errors res"
  by (simp add: add_warning_def)

lemma warnings_add_warning [simp]: "warnings (add_warning m res) = warnings res @ [m]"
  by (simp add: add_warning_def)

lemma errors_add_errors [simp]: "errors (add_errors ms res) = errors res @ ms"
  unfolding add_errors_def by (induction ms arbitrary: res) simp_all

lemma warnings_add_errors [simp]: "warnings (add_errors ms res) = warnings res"
  unfolding add_errors_def by (induction ms arbitrary: res) simp_all

lemma fold_check_spawn_rooms_of:
  "errors (fold (check_spawn_rooms_of world) ss res) = errors res @ spawn_errors world ss \<and>
   warnings (fold (check_spawn_rooms_of world) ss res) = warnings res @ spawn_warnings ss"
proof (induction ss arbitrary: res)
  case Nil
  show ?case by (simp add: spawn_errors_def spawn_warnings_def)
next
  case (Cons e ss)
  obtain sid s where e: "e = (sid, s)" by (cases e)
  show ?case
    using Cons.IH[of "check_spawn_rooms_of world e res"]
    by (simp add: e check_spawn_rooms_of_def spawn_errors_def spawn_warnings_def Let_def)
qed

lemma validate_warnings: "warnings (validate world) = spawn_warnings (sprites world)"
  by (simp add: validate_def Let_def check_spawn_rooms_def fold_check_spawn_rooms_of new_result_def)

lemma validate_errors:
  "errors (validate world) =
     check_exits world @ check_start world @ check_connectivity world @ check_room_text world
     @ check_object_locations world @ check_object_text world
     @ spawn_errors world (sprites world)
     @ check_loot world @ check_sprite_name world @ check_transform_object world
     @ check_transform_new_object world @ check_transform_requires world
     @ check_transform_new_location world @ check_respawn world @ check_sd_sections world
     @ check_sd_host_port world @ check_percent world @ check_duplicate_ids world"
  by (simp add: validate_def Let_def check_spawn_rooms_def fold_check_spawn_rooms_of new_result_def)

lemma spawn_warning_present:
  "(sid, s) \<in> set ss \<Longrightarrow> spawn_rooms s = [] \<Longrightarrow> NoSpawnRooms sid \<in> set (spawn_warnings ss)"
  by (force simp: spawn_warnings_def)

lemma spawn_errors_of_entry:
  "SpawnRoomMissing sid r \<in> set (spawn_errors world ss) \<Longrightarrow>
   \<exists>s. (sid, s) \<in> set ss \<and> r \<in> set (spawn_rooms s)"
  by (auto simp: spawn_errors_def)

lemma duplicates_msgs: "m \<in> set (duplicates seen ids) \<Longrightarrow> \<exists>i. m = DuplicateSectionId i"
  by (induction seen ids rule: duplicates.induct) (auto split: if_splits)

lemma other_checks_not_spawn:
  "SpawnRoomMissing sid r \<notin> set (check_exits world)"
  "SpawnRoomMissing sid r \<notin> set (check_start world)"
  "SpawnRoomMissing sid r \<notin> set (check_connectivity world)"
  "SpawnRoomMissing sid r \<notin> set (check_room_text world)"
  "SpawnRoomMissing sid r \<notin> set (check_object_locations world)"
  "SpawnRoomMissing sid r \<notin> set (check_object_text world)"
  "SpawnRoomMissing sid r \<notin> set (check_loot world)"
  "SpawnRoomMissing sid r \<notin> set (check_sprite_name world)"
  "SpawnRoomMissing sid r \<notin> set (check_transform_object world)"
  "SpawnRoomMissing sid r \<notin> set (check_transform_new_object world)"
  "SpawnRoomMissing sid r \<notin> set (check_transform_requires world)"
  "SpawnRoomMissing sid r \<notin> set (check_transform_new_location world)"
  "SpawnRoomMissing sid r \<notin> set (check_respawn world)"
  "SpawnRoomMissing sid r \<notin> set (check_sd_sections world)"
  "SpawnRoomMissing sid r \<notin> set (check_sd_host_port world)"
  "SpawnRoomMissing sid r \<notin> set (check_percent world)"
  "SpawnRoomMissing sid r \<notin> set (check_duplicate_ids world)"
proof -
  show "SpawnRoomMissing sid r \<notin> set (check_exits world)"
    by (auto simp: check_exits_def split: if_splits option.splits)
  show "SpawnRoomMissing sid r \<notin> set (check_start world)"
    by (auto simp: check_start_def split: if_splits option.splits)
  show "SpawnRoomMissing sid r \<notin> set (check_connectivity world)"
    by (auto simp: check_connectivity_def split: if_splits option.splits)
  show "SpawnRoomMissing sid r \<notin> set (check_room_text world)"
    by (auto simp: check_room_text_def split: if_splits option.splits)
  show "SpawnRoomMissing sid r \<notin> set (check_object_locations world)"
    by (auto simp: check_object_locations_def split: if_splits option.splits)
  show "SpawnRoomMissing sid r \<notin> set (check_object_text world)"
    by (auto simp: check_object_text_def split: if_splits option.splits)
  show "SpawnRoomMissing sid r \<notin> set (check_loot world)"
    by (auto simp: check_loot_def split: if_splits option.splits)
  show "SpawnRoomMissing sid r \<notin> set (check_sprite_name world)"
    by (auto simp: check_sprite_name_def split: if_splits option.splits)
  show "SpawnRoomMissing sid r \<notin> set (check_transform_object world)"
    by (auto simp: check_transform_object_def split: if_splits option.splits)
  show "SpawnRoomMissing sid r \<notin> set (check_transform_new_object world)"
    by (auto simp: check_transform_new_object_def split: if_splits option.splits)
  show "SpawnRoomMissing sid r \<notin> set (check_transform_requires world)"
    by (auto simp: check_transform_requires_def split: if_splits option.splits)
  show "SpawnRoomMissing sid r \<notin> set (check_transform_new_location world)"
    by (auto simp: check_transform_new_location_def split: if_splits option.splits)
  show "SpawnRoomMissing sid r \<notin> set (check_respawn world)"
    by (auto simp: check_respawn_def split: if_splits option.splits)
  show "SpawnRoomMissing sid r \<notin> set (check_sd_sections world)"
    by (auto simp: check_sd_sections_def split: if_splits option.splits)
  show "SpawnRoomMissing sid r \<notin> set (check_sd_host_port world)"
    by (auto simp: check_sd_host_port_def split: if_splits option.splits)
  show "SpawnRoomMissing sid r \<notin> set (check_percent world)"
    by (auto simp: check_percent_def check_pct_def split: if_splits)
  show "SpawnRoomMissing sid r \<notin> set (check_duplicate_ids world)"
    using duplicates_msgs by (fastforce simp: check_duplicate_ids_def)
qed

lemma other_checks_not_warning:
  "NoSpawnRooms sid \<notin> set (check_exits world)"
  "NoSpawnRooms sid \<notin> set (check_start world)"
  "NoSpawnRooms sid \<notin> set (check_connectivity world)"
  "NoSpawnRooms sid \<notin> set (check_room_text world)"
  "NoSpawnRooms sid \<notin> set (check_object_locations world)"
  "NoSpawnRooms sid \<notin> set (check_object_text world)"
  "NoSpawnRooms sid \<notin> set (check_loot world)"
  "NoSpawnRooms sid \<notin> set (check_sprite_name world)"
  "NoSpawnRooms sid \<notin> set (check_transform_object world)"
  "NoSpawnRooms sid \<notin> set (check_transform_new_object world)"
  "NoSpawnRooms sid \<notin> set (check_transform_requires world)"
  "NoSpawnRooms sid \<notin> set (check_transform_new_location world)"
  "NoSpawnRooms sid \<notin> set (check_respawn world)"
  "NoSpawnRooms sid \<notin> set (check_sd_sections world)"
  "NoSpawnRooms sid \<notin> set (check_sd_host_port world)"
  "NoSpawnRooms sid \<notin> set (check_percent world)"
  "NoSpawnRooms sid \<notin> set (check_duplicate_ids world)"
  "NoSpawnRooms sid \<notin> set (spawn_errors world ss)"
proof -
  show "NoSpawnRooms sid \<notin> set (check_exits world)"
    by (auto simp: check_exits_def split: if_splits option.splits)
  show "NoSpawnRooms sid \<notin> set (check_start world)"
    by (auto simp: check_start_def split: if_splits option.splits)
  show "NoSpawnRooms sid \<notin> set (check_connectivity world)"
    by (auto simp: check_connectivity_def split: if_splits option.splits)
  show "NoSpawnRooms sid \<notin> set (check_room_text world)"
    by (auto simp: check_room_text_def split: if_splits option.splits)
  show "NoSpawnRooms sid \<notin> set (check_object_locations world)"
    by (auto simp: check_object_locations_def split: if_splits option.splits)
  show "NoSpawnRooms sid \<notin> set (check_object_text world)"
    by (auto simp: check_object_text_def split: if_splits option.splits)
  show "NoSpawnRooms sid \<notin> set (check_loot world)"
    by (auto simp: check_loot_def split: if_splits option.splits)
  show "NoSpawnRooms sid \<notin> set (check_sprite_name world)"
    by (auto simp: check_sprite_name_def split: if_splits option.splits)
  show "NoSpawnRooms sid \<notin> set (check_transform_object world)"
    by (auto simp: check_transform_object_def split: if_splits option.splits)
  show "NoSpawnRooms sid \<notin> set (check_transform_new_object world)"
    by (auto simp: check_transform_new_object_def split: if_splits option.splits)
  show "NoSpawnRooms sid \<notin> set (check_transform_requires world)"
    by (auto simp: check_transform_requires_def split: if_splits option.splits)
  show "NoSpawnRooms sid \<notin> set (check_transform_new_location world)"
    by (auto simp: check_transform_new_location_def split: if_splits option.splits)
  show "NoSpawnRooms sid \<notin> set (check_respawn world)"
    by (auto simp: check_respawn_def split: if_splits option.splits)
  show "NoSpawnRooms sid \<notin> set (check_sd_sections world)"
    by (auto simp: check_sd_sections_def split: if_splits option.splits)
  show "NoSpawnRooms sid \<notin> set (check_sd_host_port world)"
    by (auto simp: check_sd_host_port_def split: if_splits option.splits)
  show "NoSpawnRooms sid \<notin> set (check_percent world)"
    by (auto simp: check_percent_def check_pct_def split: if_splits)
  show "NoSpawnRooms sid \<notin> set (check_duplicate_ids world)"
    using duplicates_msgs by (fastforce simp: check_duplicate_ids_def)
  show "NoSpawnRooms sid \<notin> set (spawn_errors world ss)"
    by (auto simp: spawn_errors_def)
qed

text \<open>
  Claim C2. When the validator reports at least one error for the assembled world, the
  orchestrator returns the failed result that carries exactly the validator's error list
  (and its warnings), with an empty map of written files, and the state is the one it
  started from: the disk is unchanged and no call of the serializer (or of the verifier)
  is recorded. This holds for every serializer.
\<close>

theorem failed_validation_writes_nothing:
  assumes "errors (validate world) \<noteq> []"
  shows "generate_stages_9_to_11 write_all output_dir th world st =
           (\<lparr> success = False, result_world = Some world, written_files = [],
              validation_errors = errors (validate world),
              validation_warnings = warnings (validate world),
              roundtrip_errors = [], summary = world_summary world,
              theme_used = Some th \<rparr>, st)"
  using assms
  by (simp add: generate_stages_9_to_11_def run_pipeline_stages_9_to_11_def is_valid_def Let_def)

text \<open>
  Claim C8. A result is valid exactly when its error list is empty. The message for an
  empty spawn-room list is never among the validator's errors; for a sprite of the world
  with an empty spawn-room list it is among the warnings, and no spawn-room error is
  reported for that sprite (sprite ids being the keys of a dictionary, hence distinct).
  When the validator reports no error, the orchestrator goes on to call the serializer,
  whatever the warnings are.
\<close>

theorem empty_spawn_list_is_warning:
  "(is_valid res \<longleftrightarrow> errors res = [])
   \<and> NoSpawnRooms sid \<notin> set (errors (validate world))
   \<and> (distinct (dict_keys (sprites world)) \<and> (sid, s) \<in> set (sprites world) \<and> spawn_rooms s = []
        \<longrightarrow> NoSpawnRooms sid \<in> set (warnings (validate world))
            \<and> (\<forall>r. SpawnRoomMissing sid r \<notin> set (errors (validate world))))
   \<and> (errors (validate world) = []
        \<longrightarrow> calls (snd (generate_stages_9_to_11 write_all output_dir th world st))
              \<noteq> calls st
            \<and> hd (drop (length (calls st))
                       (calls (snd (generate_stages_9_to_11 write_all output_dir th world st))))
                = WriteAllCalled output_dir)"
proof (intro conjI impI)
  show "is_valid res \<longleftrightarrow> errors res = []" by (simp add: is_valid_def)
  show "NoSpawnRooms sid \<notin> set (errors (validate world))"
    by (simp add: validate_errors other_checks_not_warning)
next
  assume a: "distinct (dict_keys (sprites world)) \<and> (sid, s) \<in> set (sprites world) \<and> spawn_rooms s = []"
  then show "NoSpawnRooms sid \<in> set (warnings (validate world))"
    using spawn_warning_present[of sid s "sprites world"] by (simp add: validate_warnings)
  show "\<forall>r. SpawnRoomMissing sid r \<notin> set (errors (validate world))"
  proof (intro allI notI)
    fix r
    assume "SpawnRoomMissing sid r \<in> set (errors (validate world))"
    then have "SpawnRoomMissing sid r \<in> set (spawn_errors world (sprites world))"
      by (simp add: validate_errors other_checks_not_spawn)
    then obtain s' where s': "(sid, s') \<in> set (sprites world)" "r \<in> set (spawn_rooms s')"
      using spawn_errors_of_entry by blast
    have "s' = s"
      using a s'(1) by (metis dict_keys_def eq_key_imp_eq_value)
    then show False using a s'(2) by simp
  qed
next
  assume e: "errors (validate world) = []"
  let ?st' = "snd (generate_stages_9_to_11 write_all output_dir th world st)"
  have "\<exists>rest. calls ?st' = calls st @ WriteAllCalled output_dir # rest"
    using e
    by (auto simp: generate_stages_9_to_11_def run_pipeline_stages_9_to_11_def is_valid_def Let_def
             split: sum.splits prod.splits)
  then obtain rest where c: "calls ?st' = calls st @ WriteAllCalled output_dir # rest" by blast
  show "calls ?st' \<noteq> calls st" using c by simp
  show "hd (drop (length (calls st)) (calls ?st')) = WriteAllCalled output_dir" using c by simp
qed

theorem failed_validation_writes_nothing_witness:
  "errors (validate dangling_world) = [ExitMissing ''entrance'' ''up'' ''attic'']
   \<and> generate_stages_9_to_11 example_writer ''out'' ORIGINAL dangling_world
         \<lparr> disk_state = [], calls = [] \<rparr> =
       (\<lparr> success = False, result_world = Some dangling_world, written_files = [],
          validation_errors = [ExitMissing ''entrance'' ''up'' ''attic''],
          validation_warnings = [],
          roundtrip_errors = [], summary = world_summary dangling_world,
          theme_used = Some ORIGINAL \<rparr>, \<lparr> disk_state = [], calls = [] \<rparr>)"
proof -
  have e: "errors (validate dangling_world) = [ExitMissing ''entrance'' ''up'' ''attic'']"
    by code_simp
  have w: "warnings (validate dangling_world) = []"
    by (simp add: validate_warnings spawn_warnings_def dangling_world_def scenario_world_def)
  have ne: "errors (validate dangling_world) \<noteq> []" using e by simp
  show ?thesis
    using failed_validation_writes_nothing
            [OF ne, of example_writer "''out''" ORIGINAL "\<lparr> disk_state = [], calls = [] \<rparr>"]
    by (simp add: e w)
qed

theorem empty_spawn_list_is_warning_witness:
  "is_valid (validate homeless_world)
   \<and> warnings (validate homeless_world) = [NoSpawnRooms ''igor_template'']
   \<and> list_all (\<lambda>m. m \<noteq> SpawnRoomMissing ''igor_template'' ''entrance'')
         (errors (validate homeless_world))
   \<and> hd (calls (snd (generate_stages_9_to_11 example_writer ''out'' ORIGINAL homeless_world
                       \<lparr> disk_state = [], calls = [] \<rparr>)))
       = WriteAllCalled ''out''"
proof -
  have e: "errors (validate homeless_world) = []" by code_simp
  have w: "warnings (validate homeless_world) = [NoSpawnRooms ''igor_template'']"
    by (simp add: validate_warnings spawn_warnings_def homeless_world_def homeless_sprite_def)
  have d: "distinct (dict_keys (sprites homeless_world))
           \<and> (''igor_template'', homeless_sprite) \<in> set (sprites homeless_world)
           \<and> spawn_rooms homeless_sprite = []"
    by (simp add: homeless_world_def homeless_sprite_def dict_keys_def)
  show ?thesis
    using e w d
      empty_spawn_list_is_warning
        [of "validate homeless_world" "''igor_template''" homeless_world homeless_sprite
            example_writer "''out''" ORIGINAL "\<lparr> disk_state = [], calls = [] \<rparr>"]
    by (simp add: list_all_iff)
qed

section \<open>The auto-repair pass: results\<close>

lemma dict_set_keys: "set (dict_keys (dict_set d k v)) = insert k (set (dict_keys d))"
  by (induction d k v rule: dict_set.induct) (auto simp: dict_keys_def)

lemma dict_get_distinct:
  "distinct (map fst d) \<Longrightarrow> dict_get d k = Some v \<Longrightarrow> (k, v') \<in> set d \<Longrightarrow> v' = v"
  by (simp add: dict_get_def)

lemma repair_exit_filter:
  assumes "distinct (map fst opts)"
  shows "repair_exit V d opts = filter (\<lambda>(k, v). \<not> (k = d \<and> v \<notin> V)) opts"
proof (cases "dict_get opts d")
  case None
  then have "\<forall>(k, v)\<in>set opts. k \<noteq> d"
    by (auto simp: dict_get_def map_of_eq_None_iff image_iff) 
  then have "filter (\<lambda>(k, v). \<not> (k = d \<and> v \<notin> V)) opts = opts"
    by (intro filter_True) auto
  then show ?thesis using None by (simp add: repair_exit_def)
next
  case (Some target)
  have v: "\<And>v. (d, v) \<in> set opts \<Longrightarrow> v = target"
    using dict_get_distinct[OF assms Some] by blast
  show ?thesis
  proof (cases "target \<in> V")
    case True
    then have "filter (\<lambda>(k, v). \<not> (k = d \<and> v \<notin> V)) opts = opts"
      using v by (intro filter_True) auto
    then show ?thesis using Some True by (simp add: repair_exit_def)
  next
    case False
    have "filter (\<lambda>(k, v). \<not> (k = d \<and> v \<notin> V)) opts = filter (\<lambda>(k', v). k' \<noteq> d) opts"
      using v False by (intro filter_cong) auto
    then show ?thesis using Some False by (simp add: repair_exit_def remove_option_def)
  qed
qed

lemma fold_repair_exit_filter:
  "distinct (map fst opts) \<Longrightarrow>
   fold (repair_exit V) ds opts = filter (\<lambda>(k, v). \<not> (k \<in> set ds \<and> v \<notin> V)) opts"
proof (induction ds arbitrary: opts)
  case Nil
  then show ?case by simp
next
  case (Cons d ds)
  let ?o = "filter (\<lambda>(k, v). \<not> (k = d \<and> v \<notin> V)) opts"
  have d: "distinct (map fst ?o)" using Cons.prems by (simp add: distinct_map_filter)
  have "fold (repair_exit V) (d # ds) opts = fold (repair_exit V) ds ?o"
    by (simp add: repair_exit_filter[OF Cons.prems])
  also have "\<dots> = filter (\<lambda>(k, v). \<not> (k \<in> set ds \<and> v \<notin> V)) ?o"
    by (rule Cons.IH[OF d])
  also have "\<dots> = filter (\<lambda>(k, v). \<not> (k \<in> set (d # ds) \<and> v \<notin> V)) opts"
    by (auto intro: filter_cong)
  finally show ?case .
qed

lemma repair_rooms_keys: "dict_keys (repair_rooms cfg) = dict_keys cfg"
  by (simp add: repair_rooms_def dict_keys_def repair_room_section_def comp_def)

lemma repair_rooms_pruned:
  assumes "\<forall>sec\<in>set cfg. distinct (map fst (snd sec))"
  shows "list_all2 (exits_pruned (set (dict_keys cfg))) cfg (repair_rooms cfg)"
  unfolding repair_rooms_def list_all2_map2
  using assms
  by (intro list_all2_all_nthI)
     (auto simp: exits_pruned_def repair_room_section_def fold_repair_exit_filter)

lemma fold_repair_exit_subset: "set (fold (repair_exit V) ds opts) \<subseteq> set opts"
proof (induction ds arbitrary: opts)
  case Nil
  show ?case by simp
next
  case (Cons d ds)
  have "set (repair_exit V d opts) \<subseteq> set opts"
    by (auto simp: repair_exit_def remove_option_def split: option.splits)
  then show ?case using Cons.IH[of "repair_exit V d opts"] by auto
qed

lemma repair_rooms_exit_targets: "exit_targets (repair_rooms cfg) \<subseteq> exit_targets cfg"
  using fold_repair_exit_subset
  by (fastforce simp: exit_targets_def repair_rooms_def repair_room_section_def)

lemma fallback_room_valid: "fallback_room valid pick = Inr fb \<Longrightarrow> fb \<in> set valid"
  by (auto simp: fallback_room_def split: if_splits)

lemma map_sections_all2:
  "map_sections f xs = Inr ys \<Longrightarrow> list_all2 (\<lambda>x y. f x = Inr y) xs ys"
  by (induction xs arbitrary: ys) (auto split: sum.splits)

lemma repair_object_section_rel:
  "repair_object_section valid pick sec = Inr sec' \<Longrightarrow> relocated_or_same valid sec sec'"
  by (auto simp: repair_object_section_def relocated_or_same_def
           split: option.splits if_splits sum.splits dest: fallback_room_valid)

lemma fixed_spawns_some:
  assumes "fixed_spawns valid pick raw = Inr (Some fixed)"
  shows "fixed \<noteq> [] \<and> set fixed \<subseteq> set valid
         \<and> (set fixed \<subseteq> set (spawn_entries raw) \<or> length fixed = 1)"
proof -
  let ?vs = "filter (\<lambda>r. r \<in> set valid) (spawn_entries raw)"
  from assms obtain fb where fb: "fallback_room valid pick = Inr fb"
    and f: "fixed = (if ?vs \<noteq> [] then ?vs else [fb])"
    by (auto simp: fixed_spawns_def Let_def split: if_splits sum.splits)
  have "fb \<in> set valid" using fb by (rule fallback_room_valid)
  then show ?thesis unfolding f by auto
qed

lemma repair_sprite_section_rel:
  assumes "repair_sprite_section valid pick sec = Inr sec'"
  shows "respawned_or_same valid sec sec'"
proof (cases "dict_get (snd sec) ''spawn_rooms''")
  case None
  then show ?thesis using assms by (simp add: repair_sprite_section_def respawned_or_same_def)
next
  case (Some raw)
  then have og: "opt_get (snd sec) ''spawn_rooms'' = raw" by (simp add: opt_get_def)
  show ?thesis
  proof (cases "fixed_spawns valid pick raw")
    case (Inl e)
    then show ?thesis using assms Some by (simp add: repair_sprite_section_def)
  next
    case (Inr r)
    show ?thesis
    proof (cases r)
      case None
      then show ?thesis
        using assms Some Inr by (simp add: repair_sprite_section_def respawned_or_same_def)
    next
      case (Some fixed)
      have "sec' = (fst sec, dict_set (snd sec) ''spawn_rooms'' (py_join '', '' fixed))"
        using assms \<open>dict_get (snd sec) ''spawn_rooms'' = Some raw\<close> Inr Some
        by (simp add: repair_sprite_section_def)
      then show ?thesis
        using fixed_spawns_some[of valid pick raw fixed] Inr Some og
        unfolding respawned_or_same_def by blast
    qed
  qed
qed


lemma relocated_keys:
  "list_all2 (relocated_or_same valid) xs ys \<Longrightarrow> dict_keys ys = dict_keys xs"
  unfolding dict_keys_def
  by (induction rule: list_all2_induct) (auto simp: relocated_or_same_def)

lemma respawned_keys:
  "list_all2 (respawned_or_same valid) xs ys \<Longrightarrow> dict_keys ys = dict_keys xs"
  unfolding dict_keys_def
  by (induction rule: list_all2_induct) (auto simp: respawned_or_same_def)

lemma dict_set_entries_subset: "set (dict_set d k v) \<subseteq> insert (k, v) (set d)"
  by (induction d k v rule: dict_set.induct) auto

lemma relocated_locations:
  assumes "list_all2 (relocated_or_same valid) xs ys"
  shows "object_locations ys \<subseteq> object_locations xs \<union> set valid"
proof
  fix v assume "v \<in> object_locations ys"
  then obtain sec' where s': "sec' \<in> set ys" and l: "(''location'', v) \<in> set (snd sec')"
    and ne: "v \<noteq> []" "v \<noteq> ''none''"
    by (auto simp: object_locations_def)
  from assms s' obtain sec where s: "sec \<in> set xs" and r: "relocated_or_same valid sec sec'"
    by (metis in_set_conv_nth list_all2_conv_all_nth)
  from r consider "sec' = sec"
    | fb where "fb \<in> set valid" "sec' = (fst sec, dict_set (snd sec) ''location'' fb)"
    unfolding relocated_or_same_def by blast
  then show "v \<in> object_locations xs \<union> set valid"
  proof cases
    case 1
    then show ?thesis using s l ne unfolding object_locations_def by blast
  next
    case 2
    then have "(''location'', v) \<in> insert (''location'', fb) (set (snd sec))"
      using l dict_set_entries_subset[of "snd sec" "''location''" fb] by auto
    then show ?thesis using 2(1) s ne unfolding object_locations_def by blast
  qed
qed

lemma split_on_no_sep: "c \<notin> set x \<Longrightarrow> split_on c x = [x]"
  by (induction x) auto

lemma split_on_append: "c \<notin> set x \<Longrightarrow> split_on c (x @ c # ys) = x # split_on c ys"
  by (induction x) auto

lemma split_on_not_Nil: "split_on c s \<noteq> []"
  by (induction s) (auto split: list.splits)

lemma py_strip_Nil: "py_strip [] = []"
  by (simp add: py_strip_def)

lemma py_strip_space_Cons: "py_strip (CHR '' '' # w) = py_strip w"
  by (simp add: py_strip_def is_space_def)

lemma spawn_entries_space_Cons: "spawn_entries (CHR '' '' # s) = spawn_entries s"
proof -
  obtain w ws where w: "split_on CHR '','' s = w # ws"
    using split_on_not_Nil[of "CHR '',''" s] by (cases "split_on CHR '','' s") auto
  then show ?thesis by (simp add: spawn_entries_def py_strip_space_Cons)
qed

lemma spawn_entries_append:
  "CHR '','' \<notin> set x \<Longrightarrow>
   spawn_entries (x @ CHR '','' # s) = (if py_strip x \<noteq> [] then [py_strip x] else []) @ spawn_entries s"
  by (simp add: spawn_entries_def split_on_append)

lemma spawn_entries_join:
  "\<forall>x\<in>set xs. clean_id x \<Longrightarrow> spawn_entries (py_join '', '' xs) = xs"
proof (induction "'', ''" xs rule: py_join.induct)
  case 1
  show ?case by (simp add: spawn_entries_def py_strip_Nil)
next
  case (2 x)
  then show ?case by (simp add: spawn_entries_def clean_id_def split_on_no_sep)
next
  case (3 x y ys)
  have c: "clean_id x" using 3(2) by simp
  have "py_join '', '' (x # y # ys) = x @ CHR '','' # CHR '' '' # py_join '', '' (y # ys)" by simp
  then have "spawn_entries (py_join '', '' (x # y # ys))
             = [x] @ spawn_entries (CHR '' '' # py_join '', '' (y # ys))"
    using c spawn_entries_append[of x] by (simp add: clean_id_def)
  then show ?case using 3 by (simp add: spawn_entries_space_Cons)
qed

lemma respawned_spawn_ids:
  assumes "list_all2 (respawned_or_same valid) xs ys" and "\<forall>r\<in>set valid. clean_id r"
  shows "spawn_room_ids ys \<subseteq> spawn_room_ids xs \<union> set valid"
proof
  fix v assume "v \<in> spawn_room_ids ys"
  then obtain sec' raw' where s': "sec' \<in> set ys" and l: "(''spawn_rooms'', raw') \<in> set (snd sec')"
    and v: "v \<in> set (spawn_entries raw')"
    by (auto simp: spawn_room_ids_def)
  from assms(1) s' obtain sec where s: "sec \<in> set xs" and r: "respawned_or_same valid sec sec'"
    by (metis in_set_conv_nth list_all2_conv_all_nth)
  from r consider "sec' = sec"
    | fixed where "set fixed \<subseteq> set valid"
        "sec' = (fst sec, dict_set (snd sec) ''spawn_rooms'' (py_join '', '' fixed))"
    unfolding respawned_or_same_def by blast
  then show "v \<in> spawn_room_ids xs \<union> set valid"
  proof cases
    case 1
    then show ?thesis using s l v unfolding spawn_room_ids_def by blast
  next
    case 2
    have "(''spawn_rooms'', raw') \<in> insert (''spawn_rooms'', py_join '', '' fixed) (set (snd sec))"
      using l 2(2) dict_set_entries_subset[of "snd sec" "''spawn_rooms''" "py_join '', '' fixed"]
      by auto
    then consider "raw' = py_join '', '' fixed" | "(''spawn_rooms'', raw') \<in> set (snd sec)"
      by auto
    then show ?thesis
    proof cases
      case 1
      have "\<forall>x\<in>set fixed. clean_id x" using 2(1) assms(2) by blast
      then have "spawn_entries raw' = fixed" unfolding 1 by (rule spawn_entries_join)
      then show ?thesis using v 2(1) by auto
    next
      case 2
      then show ?thesis using s v unfolding spawn_room_ids_def by blast
    qed
  qed
qed

text \<open>
  Claim C3. Whenever the repair pass returns, the sections of the three artifacts are the
  ones it started with, by name and in order; every exit target afterwards was an exit
  target before; every object location afterwards was a location before or is a room;
  an object section is unchanged or has its location set to an existing room; a sprite
  section is unchanged or has its spawn rooms set to a non-empty list of existing rooms,
  a selection of its old entries or one single room; and, option names within a section
  being distinct, a room section loses exactly the direction options whose target is no
  room. Where the room identifiers read back as themselves from a comma-separated option,
  the spawn-room entries read from the repaired sprites are entries read before or rooms.
  (\<open>auto_repair_returns\<close>: the pass does return whenever there is at least one room.)
\<close>

theorem auto_repair_no_new_identifiers:
  assumes "auto_repair pick rooms_cfg obj_cfg spr_cfg = Inr (rooms', obj', spr')"
  shows "dict_keys rooms' = dict_keys rooms_cfg \<and> dict_keys obj' = dict_keys obj_cfg
         \<and> dict_keys spr' = dict_keys spr_cfg
         \<and> exit_targets rooms' \<subseteq> exit_targets rooms_cfg
         \<and> object_locations obj' \<subseteq> object_locations obj_cfg \<union> set (dict_keys rooms_cfg)
         \<and> ((\<forall>r\<in>set (dict_keys rooms_cfg). clean_id r)
              \<longrightarrow> spawn_room_ids spr' \<subseteq> spawn_room_ids spr_cfg \<union> set (dict_keys rooms_cfg))
         \<and> ((\<forall>sec\<in>set rooms_cfg. distinct (map fst (snd sec)))
              \<longrightarrow> list_all2 (exits_pruned (set (dict_keys rooms_cfg))) rooms_cfg rooms')
         \<and> list_all2 (relocated_or_same (dict_keys rooms_cfg)) obj_cfg obj'
         \<and> list_all2 (respawned_or_same (dict_keys rooms_cfg)) spr_cfg spr'"
proof -
  let ?valid = "dict_keys rooms_cfg"
  have r: "rooms' = repair_rooms rooms_cfg"
    and o: "map_sections (repair_object_section ?valid pick) obj_cfg = Inr obj'"
    and s: "map_sections (repair_sprite_section ?valid pick) spr_cfg = Inr spr'"
    using assms by (auto simp: auto_repair_def Let_def repair_rooms_keys split: sum.splits)
  have ro: "list_all2 (relocated_or_same ?valid) obj_cfg obj'"
    using map_sections_all2[OF o] repair_object_section_rel
    by (rule list_all2_mono)
  have rs: "list_all2 (respawned_or_same ?valid) spr_cfg spr'"
    using map_sections_all2[OF s] repair_sprite_section_rel
    by (rule list_all2_mono)
  show ?thesis
    using repair_rooms_keys[of rooms_cfg] repair_rooms_exit_targets[of rooms_cfg]
      repair_rooms_pruned[of rooms_cfg] relocated_keys[OF ro] respawned_keys[OF rs]
      relocated_locations[OF ro] respawned_spawn_ids[OF rs] ro rs
    unfolding r by blast
qed


lemma map_sections_returns:
  "(\<And>x. \<exists>y. f x = Inr y) \<Longrightarrow> \<exists>ys. map_sections f xs = Inr ys"
proof (induction xs)
  case Nil
  show ?case by simp
next
  case (Cons x xs)
  obtain y where "f x = Inr y" using Cons.prems by blast
  moreover obtain ys where "map_sections f xs = Inr ys" using Cons by blast
  ultimately show ?case by simp
qed

lemma auto_repair_returns:
  assumes "rooms_cfg \<noteq> []"
  shows "\<exists>res. auto_repair pick rooms_cfg obj_cfg spr_cfg = Inr res"
proof -
  let ?valid = "dict_keys (repair_rooms rooms_cfg)"
  have "?valid \<noteq> []" using assms unfolding repair_rooms_keys by (simp add: dict_keys_def)
  then have "\<exists>fb. fallback_room ?valid pick = Inr fb"
    by (simp add: fallback_room_def)
  then obtain fb where fb: "fallback_room ?valid pick = Inr fb" by blast
  have "\<And>sec. \<exists>y. repair_object_section ?valid pick sec = Inr y"
    using fb by (auto simp: repair_object_section_def split: option.splits)
  then obtain o' where o: "map_sections (repair_object_section ?valid pick) obj_cfg = Inr o'"
    using map_sections_returns by blast
  have "\<And>sec. \<exists>y. repair_sprite_section ?valid pick sec = Inr y"
    using fb by (auto simp: repair_sprite_section_def fixed_spawns_def Let_def split: option.splits)
  then obtain s' where s: "map_sections (repair_sprite_section ?valid pick) spr_cfg = Inr s'"
    using map_sections_returns by blast
  show ?thesis using o s by (simp add: auto_repair_def Let_def)
qed

lemma sample_repair:
  "auto_repair 0 sample_rooms_cfg sample_obj_cfg sample_spr_cfg =
     Inr ([(''entrance'', [(''name'', ''Entrance''), (''north'', ''hall'')]),
           (''hall'', [(''name'', ''Hall''), (''south'', ''entrance'')])],
          [(''starter_key'', [(''name'', ''access key''), (''location'', ''entrance'')]),
           (''crafted_result'', [(''name'', ''combined item''), (''location'', ''none'')])],
          [(''igor_template'', [(''spawn_rooms'', ''hall'')]),
           (''sentry_template'', [(''spawn_rooms'', ''entrance'')]),
           (''queen_template'', [(''spawn_rooms'', ''hall'')])])"
  by code_simp

theorem auto_repair_no_new_identifiers_witness:
  "auto_repair 0 sample_rooms_cfg sample_obj_cfg sample_spr_cfg =
     Inr ([(''entrance'', [(''name'', ''Entrance''), (''north'', ''hall'')]),
           (''hall'', [(''name'', ''Hall''), (''south'', ''entrance'')])],
          [(''starter_key'', [(''name'', ''access key''), (''location'', ''entrance'')]),
           (''crafted_result'', [(''name'', ''combined item''), (''location'', ''none'')])],
          [(''igor_template'', [(''spawn_rooms'', ''hall'')]),
           (''sentry_template'', [(''spawn_rooms'', ''entrance'')]),
           (''queen_template'', [(''spawn_rooms'', ''hall'')])])
   \<and> exit_targets [(''entrance'', [(''name'', ''Entrance''), (''north'', ''hall'')]),
                     (''hall'', [(''name'', ''Hall''), (''south'', ''entrance'')])]
         \<subseteq> exit_targets sample_rooms_cfg
   \<and> object_locations
           [(''starter_key'', [(''name'', ''access key''), (''location'', ''entrance'')]),
            (''crafted_result'', [(''name'', ''combined item''), (''location'', ''none'')])]
         \<subseteq> object_locations sample_obj_cfg \<union> {''entrance'', ''hall''}
   \<and> spawn_room_ids
           [(''igor_template'', [(''spawn_rooms'', ''hall'')]),
            (''sentry_template'', [(''spawn_rooms'', ''entrance'')]),
            (''queen_template'', [(''spawn_rooms'', ''hall'')])]
         \<subseteq> spawn_room_ids sample_spr_cfg \<union> {''entrance'', ''hall''}"
proof -
  have k: "dict_keys sample_rooms_cfg = [''entrance'', ''hall'']"
    by (simp add: sample_rooms_cfg_def dict_keys_def)
  have c: "\<forall>r\<in>set (dict_keys sample_rooms_cfg). clean_id r"
    unfolding k by (simp add: clean_id_def py_strip_def is_space_def)
  show ?thesis
    using auto_repair_no_new_identifiers [OF sample_repair] c sample_repair
    unfolding k by simp
qed

section \<open>The room graph generator: requests whose identifiers are distinct\<close>

text \<open>
  The adjacency structure the generator builds is in order for every random source: every
  round of the spanning-tree loop finds a candidate with a free slot (the room attached
  last has one), so the rerouting branch is never taken; the bonus loop only adds edges;
  the breadth-first search then reaches every room, and the safety net has nothing to do.
  When the identifiers of step 2 are pairwise distinct, the room map has one record for
  each room, every room is reachable from the first, and every exit is answered by the
  paired exit of the room it leads to.
\<close>

lemma random_shuffle_set [simp]: "set (fst (random_shuffle xs g)) = set xs"
proof (induction xs arbitrary: g)
  case Nil
  show ?case by simp
next
  case (Cons x xs)
  have "set (take k ys) \<union> set (drop k ys) = set ys" for k and ys :: "'a list"
    by (metis append_take_drop_id set_append)
  with Cons [of g] show ?case
    by (auto simp: Let_def split: prod.splits)
qed

lemma random_shuffle_length [simp]: "length (fst (random_shuffle xs g)) = length xs"
proof (induction xs arbitrary: g)
  case Nil
  show ?case by simp
next
  case (Cons x xs)
  from Cons [of g] show ?case
    by (auto simp: Let_def split: prod.splits)
qed

lemma get_available_direction_Some:
  assumes "get_available_direction adj a b g = (Some (d, r), g')"
  shows "(d, r) \<in> set DIRECTION_PAIRS \<and> d \<notin> used_directions adj a \<and> r \<notin> used_directions adj b"
proof -
  obtain ps g1 where s: "random_shuffle DIRECTION_PAIRS g = (ps, g1)" by (cases "random_shuffle DIRECTION_PAIRS g")
  have ps: "set ps = set DIRECTION_PAIRS" using random_shuffle_set [of DIRECTION_PAIRS g] s by simp
  from assms s have "find (\<lambda>(d_a, d_b). d_a \<notin> used_directions adj a \<and> d_b \<notin> used_directions adj b) ps = Some (d, r)"
    by (simp add: get_available_direction_def)
  then have "(d, r) \<in> set ps \<and> d \<notin> used_directions adj a \<and> r \<notin> used_directions adj b"
    by (auto simp: find_Some_iff) (metis nth_mem)
  with ps show ?thesis by simp
qed

lemma get_available_direction_None:
  assumes "get_available_direction adj a b g = (None, g')"
    and "(d, r) \<in> set DIRECTION_PAIRS"
  shows "d \<in> used_directions adj a \<or> r \<in> used_directions adj b"
proof -
  obtain ps g1 where s: "random_shuffle DIRECTION_PAIRS g = (ps, g1)" by (cases "random_shuffle DIRECTION_PAIRS g")
  have ps: "set ps = set DIRECTION_PAIRS" using random_shuffle_set [of DIRECTION_PAIRS g] s by simp
  from assms s have "find (\<lambda>(d_a, d_b). d_a \<notin> used_directions adj a \<and> d_b \<notin> used_directions adj b) ps = None"
    by (simp add: get_available_direction_def)
  then show ?thesis using assms(2) ps by (auto simp: find_None_iff)
qed

lemma add_edge_length [simp]: "length (add_edge adj i j d r) = length adj"
  by (simp add: add_edge_def adj_append_def)

lemma add_edge_nth:
  assumes "i < length adj" "j < length adj" "i \<noteq> j" "k < length adj"
  shows "add_edge adj i j d r ! k =
           (if k = i then adj ! i @ [(j, d, r)] else if k = j then adj ! j @ [(i, r, d)] else adj ! k)"
  using assms by (auto simp: add_edge_def adj_append_def adj_at_def)

lemma used_directions_nth:
  "k < length adj \<Longrightarrow> used_directions adj k = (\<lambda>(j, d, r). d) ` set (adj ! k)"
  by (simp add: used_directions_def adj_at_def)

lemma graph_ok_add_edge:
  assumes ok: "graph_ok n adj" and i: "i < n" and j: "j < n" and ij: "i \<noteq> j"
    and p: "paired d r" and di: "d \<notin> used_directions adj i" and rj: "r \<notin> used_directions adj j"
  shows "graph_ok n (add_edge adj i j d r)"
proof -
  have len: "length adj = n" using ok by (simp add: graph_ok_def)
  have nth: "add_edge adj i j d r ! k =
           (if k = i then adj ! i @ [(j, d, r)] else if k = j then adj ! j @ [(i, r, d)] else adj ! k)"
    if "k < n" for k
    using add_edge_nth [of i adj j k d r] i j ij that len by simp
  have mono: "set (adj ! k) \<subseteq> set (add_edge adj i j d r ! k)" if "k < n" for k
    using nth [OF that] by auto
  have p': "paired r d" using p by (auto simp: paired_def)
  have e: "\<forall>(j', d', r') \<in> set (add_edge adj i j d r ! k).
             j' < n \<and> paired d' r' \<and> (k, r', d') \<in> set (add_edge adj i j d r ! j')" if k: "k < n" for k
  proof (clarify)
    fix j' d' r' assume a: "(j', d', r') \<in> set (add_edge adj i j d r ! k)"
    show "j' < n \<and> paired d' r' \<and> (k, r', d') \<in> set (add_edge adj i j d r ! j')"
    proof (cases "(j', d', r') \<in> set (adj ! k)")
      case True
      with ok k have "j' < n \<and> paired d' r' \<and> (k, r', d') \<in> set (adj ! j')"
        by (auto simp: graph_ok_def)
      with mono [of j'] show ?thesis by auto
    next
      case False
      with a nth [OF k] have "(k = i \<and> (j', d', r') = (j, d, r)) \<or> (k = j \<and> (j', d', r') = (i, r, d))"
        by (auto split: if_splits)
      then show ?thesis using i j ij p p' nth [OF i] nth [OF j] by auto
    qed
  qed
  have dist: "distinct (map (\<lambda>(j, d, r). d) (add_edge adj i j d r ! k))" if k: "k < n" for k
  proof -
    have "distinct (map (\<lambda>(j, d, r). d) (adj ! k))" using ok k by (simp add: graph_ok_def)
    moreover have "d \<notin> (\<lambda>(j, d, r). d) ` set (adj ! i)"
      using di i len by (simp add: used_directions_nth)
    moreover have "r \<notin> (\<lambda>(j, d, r). d) ` set (adj ! j)"
      using rj j len by (simp add: used_directions_nth)
    ultimately show ?thesis using nth [OF k] by auto
  qed
  show ?thesis
    unfolding graph_ok_def using len e dist by simp
qed

lemma try_candidates_result:
  assumes "try_candidates adj i cs g = ((adj', b), g')"
  shows "(b \<longrightarrow> (\<exists>t \<in> set cs. \<exists>d r. (d, r) \<in> set DIRECTION_PAIRS \<and> d \<notin> used_directions adj i
                     \<and> r \<notin> used_directions adj t \<and> adj' = add_edge adj i t d r))
       \<and> (\<not> b \<longrightarrow> adj' = adj \<and> (\<forall>t \<in> set cs. \<forall>(d, r) \<in> set DIRECTION_PAIRS.
                     d \<in> used_directions adj i \<or> r \<in> used_directions adj t))"
  using assms
proof (induction cs arbitrary: g)
  case Nil
  then show ?case by simp
next
  case (Cons t cs)
  obtain p g1 where q: "get_available_direction adj i t g = (p, g1)"
    by (cases "get_available_direction adj i t g")
  show ?case
  proof (cases p)
    case None
    with q Cons.prems have "try_candidates adj i cs g1 = ((adj', b), g')" by simp
    from Cons.IH [OF this] get_available_direction_None [OF q [unfolded None]]
    show ?thesis by auto
  next
    case (Some dr)
    obtain d r where dr: "dr = (d, r)" by (cases dr)
    from q Some dr Cons.prems have "adj' = add_edge adj i t d r" "b" by auto
    with get_available_direction_Some [OF q [unfolded Some dr]] show ?thesis by auto
  qed
qed


lemma has_parents_add_edge:
  assumes hp: "has_parents m adj" and len: "length adj = n" and m: "m \<le> n"
    and i: "i < n" and j: "j < n" and ij: "i \<noteq> j"
  shows "has_parents m (add_edge adj i j d r)"
  unfolding has_parents_def
proof (intro allI impI)
  fix k assume k: "0 < k \<and> k < m"
  with hp obtain p d' r' where p: "p < k" "(p, d', r') \<in> set (adj ! k)"
    by (auto simp: has_parents_def)
  have "k < length adj" using k m len by simp
  from add_edge_nth [OF _ _ ij this, of d r] i j len p(2)
  have "(p, d', r') \<in> set (add_edge adj i j d r ! k)" by auto
  with p(1) show "\<exists>j'<k. \<exists>d' r'. (j', d', r') \<in> set (add_edge adj i j d r ! k)" by blast
qed

lemma attach_room_inv:
  assumes inv: "tree_inv n i adj" and i0: "0 < i" and i: "i < n"
  shows "tree_inv n (Suc i) (fst (attach_room i (adj, g)))"
proof -
  have ok: "graph_ok n adj" and hp: "has_parents i adj"
    and empty: "\<And>k. i \<le> k \<Longrightarrow> k < n \<Longrightarrow> adj ! k = []"
    and prev: "used_directions adj (i - 1) \<subseteq> fst ` set DIRECTION_PAIRS"
    using inv i0 by (auto simp: tree_inv_def)
  have len: "length adj = n" using ok by (simp add: graph_ok_def)
  obtain cs g1 where sh: "random_shuffle [0 ..< i] g = (cs, g1)"
    by (cases "random_shuffle [0 ..< i] g")
  have cs: "set cs = {0 ..< i}" using random_shuffle_set [of "[0 ..< i]" g] sh by simp
  obtain adj1 b g2 where tc: "try_candidates adj i cs g1 = ((adj1, b), g2)"
    by (cases "try_candidates adj i cs g1") auto
  have ui: "used_directions adj i = {}"
    using empty [of i] i len by (simp add: used_directions_nth)
  have b: b
  proof (rule ccontr)
    assume "\<not> b"
    with try_candidates_result [OF tc]
    have "\<forall>t \<in> set cs. \<forall>(d, r) \<in> set DIRECTION_PAIRS.
            d \<in> used_directions adj i \<or> r \<in> used_directions adj t" by simp
    moreover have "i - 1 \<in> set cs" using cs i0 by auto
    moreover have "(''north'', ''south'') \<in> set DIRECTION_PAIRS" by (simp add: DIRECTION_PAIRS_def)
    ultimately have "''south'' \<in> used_directions adj (i - 1)" using ui by blast
    with prev show False by (auto simp: DIRECTION_PAIRS_def)
  qed
  with try_candidates_result [OF tc] obtain t d r where
    t: "t \<in> set cs" and dr: "(d, r) \<in> set DIRECTION_PAIRS"
    and di: "d \<notin> used_directions adj i" and rt: "r \<notin> used_directions adj t"
    and adj1: "adj1 = add_edge adj i t d r"
    by blast
  have ti: "t < i" using t cs by simp
  then have tn: "t < n" and it: "i \<noteq> t" using i by auto
  have res: "fst (attach_room i (adj, g)) = adj1"
    using sh tc b by (simp add: attach_room_def)
  have nth: "adj1 ! k = (if k = i then adj ! i @ [(t, d, r)]
                         else if k = t then adj ! t @ [(i, r, d)] else adj ! k)" if "k < n" for k
    unfolding adj1 using add_edge_nth [of i adj t k d r] i tn it that len by simp
  have 1: "graph_ok n adj1"
    unfolding adj1 using ok i tn it dr di rt
    by (intro graph_ok_add_edge) (auto simp: paired_def)
  have "has_parents i adj1"
    unfolding adj1 using hp len i tn it by (intro has_parents_add_edge [where n = n]) auto
  moreover have "(t, d, r) \<in> set (adj1 ! i)" using nth [OF i] by simp
  ultimately have 2: "has_parents (Suc i) adj1"
    using ti unfolding has_parents_def
    by (metis less_Suc_eq)
  have 3: "\<forall>k. Suc i \<le> k \<and> k < n \<longrightarrow> adj1 ! k = []"
    using nth empty ti by auto
  have "adj1 ! i = [(t, d, r)]" using nth [OF i] empty [of i] i by simp
  then have "used_directions adj1 i = {d}"
    using i len by (simp add: used_directions_nth adj1)
  with dr have 4: "used_directions adj1 (Suc i - 1) \<subseteq> fst ` set DIRECTION_PAIRS"
    by force
  show ?thesis
    unfolding res tree_inv_def using 1 2 3 4 by simp
qed

lemma tree_inv_start: "0 < n \<Longrightarrow> tree_inv n 1 (replicate n [])"
  by (auto simp: tree_inv_def graph_ok_def has_parents_def used_directions_def adj_at_def)

lemma fold_attach_room_inv:
  assumes "0 < n" "1 \<le> m" "m \<le> n"
  shows "tree_inv n m (fst (fold attach_room [1 ..< m] (replicate n [], g)))"
  using assms(2,3)
proof (induction m rule: dec_induct)
  case base
  show ?case using tree_inv_start [OF assms(1)] by simp
next
  case (step m)
  obtain adj g' where st: "fold attach_room [1 ..< m] (replicate n [], g) = (adj, g')"
    by (cases "fold attach_room [1 ..< m] (replicate n [], g)")
  have "tree_inv n m adj" using step st by simp
  then have "tree_inv n (Suc m) (fst (attach_room m (adj, g')))"
    using step by (intro attach_room_inv) auto
  moreover have "fold attach_room [1 ..< Suc m] (replicate n [], g)
      = attach_room m (fold attach_room [1 ..< m] (replicate n [], g))"
    using step(1) by simp
  ultimately show ?case by (simp only: st)
qed

lemma spanning_tree_inv:
  assumes "0 < n"
  shows "graph_ok n (fst (spanning_tree n g)) \<and> has_parents n (fst (spanning_tree n g))"
  using fold_attach_room_inv [OF assms, of n g] assms
  by (simp add: spanning_tree_def tree_inv_def)

lemma randbelow_less: "0 < n \<Longrightarrow> fst (randbelow n g) < n"
  by (simp add: randbelow_def)

lemma bonus_loop_inv:
  assumes n: "0 < n"
  shows "graph_ok n adj \<Longrightarrow> has_parents n adj \<Longrightarrow>
         graph_ok n (fst (bonus_loop n attempts added adj g))
         \<and> has_parents n (fst (bonus_loop n attempts added adj g))"
proof (induction "bonus_count n * 20 - attempts" arbitrary: attempts added adj g rule: less_induct)
  case less
  note ok = less.prems(1) and hp = less.prems(2)
  show ?case
  proof (cases "added < bonus_count n \<and> attempts < bonus_count n * 20")
    case False
    then have "bonus_loop n attempts added adj g = (adj, g)"
      by (subst bonus_loop.simps) auto
    then show ?thesis using ok hp by simp
  next
    case True
    then have m: "bonus_count n * 20 - (attempts + 1) < bonus_count n * 20 - attempts" by linarith
    note IH = less.hyps [OF m]
    obtain i g1 where r1: "randbelow n g = (i, g1)" by (cases "randbelow n g")
    obtain j g2 where r2: "randbelow n g1 = (j, g2)" by (cases "randbelow n g1")
    have i: "i < n" using randbelow_less [OF n, of g] r1 by simp
    have j: "j < n" using randbelow_less [OF n, of g1] r2 by simp
    have len: "length adj = n" using ok by (simp add: graph_ok_def)
    obtain p g3 where q: "get_available_direction adj i j g2 = (p, g3)"
      by (cases "get_available_direction adj i j g2")
    consider (same) "i = j \<or> j \<in> set (map (\<lambda>(t, d, r). t) (adj_at adj i))"
      | (none) "i \<noteq> j" "j \<notin> set (map (\<lambda>(t, d, r). t) (adj_at adj i))" "p = None"
      | (some) d r where "i \<noteq> j" "j \<notin> set (map (\<lambda>(t, d, r). t) (adj_at adj i))" "p = Some (d, r)"
      by (cases p) auto
    then show ?thesis
    proof cases
      case same
      then have "bonus_loop n attempts added adj g = bonus_loop n (attempts + 1) added adj g2"
        using True r1 r2 by (auto simp: bonus_loop.simps [of n attempts added adj g])
      then show ?thesis using IH [OF ok hp, of added g2] by simp
    next
      case none
      then have "bonus_loop n attempts added adj g = bonus_loop n (attempts + 1) added adj g3"
        using True r1 r2 q by (simp add: bonus_loop.simps [of n attempts added adj g])
      then show ?thesis using IH [OF ok hp, of added g3] by simp
    next
      case some
      then have e: "bonus_loop n attempts added adj g
                  = bonus_loop n (attempts + 1) (added + 1) (add_edge adj i j d r) g3"
        using True r1 r2 q by (simp add: bonus_loop.simps [of n attempts added adj g])
      from get_available_direction_Some [OF q [unfolded some(3)]]
      have g: "(d, r) \<in> set DIRECTION_PAIRS" "d \<notin> used_directions adj i"
          "r \<notin> used_directions adj j" by auto
      have a: "graph_ok n (add_edge adj i j d r)"
        using ok i j some(1) g by (intro graph_ok_add_edge) (auto simp: paired_def)
      have b: "has_parents n (add_edge adj i j d r)"
        using hp len i j some(1) by (intro has_parents_add_edge [where n = n]) auto
      show ?thesis
        unfolding e using IH [OF a b, of "added + 1" g3] by simp
    qed
  qed
qed


lemma bfs_adj_closed:
  "set reachable \<union> set queue \<subseteq> set (bfs_adj adj queue reachable)
   \<and> (\<forall>x \<in> set (bfs_adj adj queue reachable) - set reachable.
         \<forall>(nb, d, r) \<in> set (adj_at adj x). nb \<in> set (bfs_adj adj queue reachable))"
proof (induction adj queue reachable rule: bfs_adj.induct)
  case (1 adj reachable)
  show ?case by simp
next
  case (2 adj cur queue reachable)
  show ?case
  proof (cases "cur \<in> set reachable")
    case True
    with 2(1) [OF True] show ?thesis by auto
  next
    case False
    let ?new = "filter (\<lambda>nb. nb \<notin> set (cur # reachable)) (map (\<lambda>(nb, d, r). nb) (adj_at adj cur))"
    let ?R = "bfs_adj adj (queue @ ?new) (cur # reachable)"
    have res: "bfs_adj adj (cur # queue) reachable = ?R" using False by simp
    from 2(2) [OF False]
    have a: "set (cur # reachable) \<union> set (queue @ ?new) \<subseteq> set ?R"
      and b: "\<forall>x \<in> set ?R - set (cur # reachable). \<forall>(nb, d, r) \<in> set (adj_at adj x). nb \<in> set ?R"
      by blast+
    have c: "\<forall>(nb, d, r) \<in> set (adj_at adj cur). nb \<in> set ?R"
    proof (clarify)
      fix nb d r assume e: "(nb, d, r) \<in> set (adj_at adj cur)"
      show "nb \<in> set ?R"
      proof (cases "nb \<in> set (cur # reachable)")
        case True
        with a show ?thesis by blast
      next
        case False
        with e have "nb \<in> set ?new" by force
        with a show ?thesis by auto
      qed
    qed
    show ?thesis
      unfolding res using a b c by auto
  qed
qed

lemma bfs_adj_all:
  assumes ok: "graph_ok n adj" and hp: "has_parents n adj"
  shows "k < n \<Longrightarrow> k \<in> set (bfs_adj adj [0] [])"
proof (induction k rule: less_induct)
  case (less k)
  let ?R = "bfs_adj adj [0] []"
  have len: "length adj = n" using ok by (simp add: graph_ok_def)
  show ?case
  proof (cases "k = 0")
    case True
    then show ?thesis using bfs_adj_closed [of "[]" "[0]" adj] by simp
  next
    case False
    with hp less.prems obtain j d r where j: "j < k" "(j, d, r) \<in> set (adj ! k)"
      by (auto simp: has_parents_def)
    with ok less.prems have "(k, r, d) \<in> set (adj ! j)" by (auto simp: graph_ok_def)
    then have e: "(k, r, d) \<in> set (adj_at adj j)" using j(1) less.prems len by (simp add: adj_at_def)
    have "j \<in> set ?R" using less.IH [OF j(1)] j(1) less.prems by simp
    with bfs_adj_closed [of "[]" "[0]" adj] e show ?thesis by auto
  qed
qed

lemma verify_connectivity_id:
  assumes "graph_ok n adj" "has_parents n adj"
  shows "verify_connectivity n adj g = (adj, g)"
proof -
  have "filter (\<lambda>k. k \<notin> set (bfs_adj adj [0] [])) [0 ..< n] = []"
    using bfs_adj_all [OF assms] by (auto simp: filter_empty_conv)
  then show ?thesis by (simp add: verify_connectivity_def)
qed

lemma generate_adjacency_ok:
  assumes "0 < n"
  shows "graph_ok n (fst (generate_adjacency n g)) \<and> has_parents n (fst (generate_adjacency n g))"
proof -
  obtain adj g1 where s: "spanning_tree n g = (adj, g1)" by (cases "spanning_tree n g")
  obtain adj2 g2 where b: "bonus_loop n 0 0 adj g1 = (adj2, g2)" by (cases "bonus_loop n 0 0 adj g1")
  have "graph_ok n adj \<and> has_parents n adj" using spanning_tree_inv [OF assms, of g] s by simp
  then have "graph_ok n adj2 \<and> has_parents n adj2"
    using bonus_loop_inv [OF assms, of adj 0 0 g1] b by simp
  then show ?thesis
    using verify_connectivity_id [of n adj2 g2] s b by (simp add: generate_adjacency_def)
qed


lemma dict_set_fresh: "k \<notin> fst ` set d \<Longrightarrow> dict_set d k v = d @ [(k, v)]"
  by (induction d k v rule: dict_set.induct) auto

lemma paired_all_directions: "paired d r \<Longrightarrow> d \<in> set ALL_DIRECTIONS"
  by (auto simp: paired_def ALL_DIRECTIONS_def DIRECTION_PAIRS_def)

lemma room_exits_fold:
  assumes "\<forall>(j, d, r) \<in> set es. d \<in> set ALL_DIRECTIONS"
    and "distinct (map fst acc @ map (\<lambda>(j, d, r). d) es)"
  shows "fold (\<lambda>(j, direction, r) ex.
             if direction \<in> set ALL_DIRECTIONS then dict_set ex direction (ids ! j) else ex) es acc
         = acc @ map (\<lambda>(j, d, r). (d, ids ! j)) es"
  using assms
proof (induction es arbitrary: acc)
  case Nil
  show ?case by simp
next
  case (Cons e es)
  obtain j d r where e: "e = (j, d, r)" by (cases e)
  have d: "d \<in> set ALL_DIRECTIONS" "d \<notin> fst ` set acc" using Cons.prems e by auto
  have "distinct (map fst (acc @ [(d, ids ! j)]) @ map (\<lambda>(j, d, r). d) es)"
    using Cons.prems(2) e by auto
  moreover have "\<forall>(j, d, r) \<in> set es. d \<in> set ALL_DIRECTIONS" using Cons.prems(1) by simp
  ultimately have "fold (\<lambda>(j, direction, r) ex.
             if direction \<in> set ALL_DIRECTIONS then dict_set ex direction (ids ! j) else ex) es
           (acc @ [(d, ids ! j)])
         = (acc @ [(d, ids ! j)]) @ map (\<lambda>(j, d, r). (d, ids ! j)) es"
    by (rule Cons.IH [rotated])
  then show ?case using d by (simp add: e dict_set_fresh)
qed

lemma graph_okD:
  assumes "graph_ok n adj" "k < n" "(j, d, r) \<in> set (adj ! k)"
  shows "j < n" "paired d r" "(k, r, d) \<in> set (adj ! j)"
proof -
  from assms(1,2) have "\<forall>(j, d, r) \<in> set (adj ! k). j < n \<and> paired d r \<and> (k, r, d) \<in> set (adj ! j)"
    unfolding graph_ok_def by blast
  with assms(3) show "j < n" "paired d r" "(k, r, d) \<in> set (adj ! j)" by auto
qed

lemma room_exits_graph_ok:
  assumes "graph_ok n adj" "i < n"
  shows "room_exits ids (adj_at adj i) = map (\<lambda>(j, d, r). (d, ids ! j)) (adj ! i)"
proof -
  have len: "length adj = n" using assms(1) by (simp add: graph_ok_def)
  have "\<forall>(j, d, r) \<in> set (adj ! i). d \<in> set ALL_DIRECTIONS"
    using graph_okD(2) [OF assms] paired_all_directions by blast
  moreover have "distinct (map fst [] @ map (\<lambda>(j, d, r). d) (adj ! i))"
    using assms by (simp add: graph_ok_def)
  ultimately show ?thesis
    unfolding room_exits_def using room_exits_fold [of "adj ! i" "[]" ids] assms(2) len
    by (simp add: adj_at_def)
qed

lemma build_room_shape:
  "\<exists>room g'. build_room ids names adj th wname i (rs, g) = (dict_set rs (ids ! i) room, g')
      \<and> exits room = room_exits ids (adj_at adj i) \<and> is_start room = (i = 0)"
proof -
  obtain description g1 where
    "generate_description (names ! i) th wname (room_exits ids (adj_at adj i)) g = (description, g1)"
    by (cases "generate_description (names ! i) th wname (room_exits ids (adj_at adj i)) g")
  then have "build_room ids names adj th wname i (rs, g)
      = (dict_set rs (ids ! i)
           \<lparr> room_id = ids ! i, room_name = names ! i,
             room_description = escape_percent description,
             exits = room_exits ids (adj_at adj i), room_properties = [],
             is_start = (i = 0) \<rparr>, g1)"
    by (simp add: build_room_def Let_def)
  then show ?thesis by (metis Room.select_convs(4) Room.select_convs(6))
qed

lemma fold_build_room_distinct:
  assumes d: "distinct ids" and m: "m \<le> length ids"
  shows "\<exists>rs g'. fold (build_room ids names adj th wname) [0 ..< m] ([], g) = (rs, g')
           \<and> map fst rs = take m ids
           \<and> (\<forall>i<m. exits (snd (rs ! i)) = room_exits ids (adj_at adj i)
                      \<and> is_start (snd (rs ! i)) = (i = 0))"
  using m
proof (induction m)
  case 0
  show ?case by simp
next
  case (Suc m)
  then obtain rs g' where f: "fold (build_room ids names adj th wname) [0 ..< m] ([], g) = (rs, g')"
    and k: "map fst rs = take m ids"
    and r: "\<forall>i<m. exits (snd (rs ! i)) = room_exits ids (adj_at adj i)
                      \<and> is_start (snd (rs ! i)) = (i = 0)"
    by auto
  from build_room_shape [of ids names adj th wname m rs g']
  obtain room g'' where b: "build_room ids names adj th wname m (rs, g') = (dict_set rs (ids ! m) room, g'')"
    and e: "exits room = room_exits ids (adj_at adj m)" "is_start room = (m = 0)"
    by blast
  have m: "m < length ids" using Suc.prems by simp
  have len: "length rs = m" using k m by (metis length_map length_take min.absorb2 less_imp_le)
  have "ids ! m \<notin> set (take m ids)"
    using d m by (auto simp: in_set_conv_nth distinct_conv_nth)
  then have "ids ! m \<notin> fst ` set rs" using k by (metis list.set_map)
  then have ds: "dict_set rs (ids ! m) room = rs @ [(ids ! m, room)]" by (rule dict_set_fresh)
  have 1: "fold (build_room ids names adj th wname) [0 ..< Suc m] ([], g) = (rs @ [(ids ! m, room)], g'')"
    using f b ds by simp
  have 2: "map fst (rs @ [(ids ! m, room)]) = take (Suc m) ids"
    using k m by (simp add: take_Suc_conv_app_nth)
  have 3: "\<forall>i<Suc m. exits (snd ((rs @ [(ids ! m, room)]) ! i)) = room_exits ids (adj_at adj i)
                      \<and> is_start (snd ((rs @ [(ids ! m, room)]) ! i)) = (i = 0)"
    using r e len by (auto simp: nth_append less_Suc_eq)
  show ?case using 1 2 3 by blast
qed


lemma dedup_ids_length [simp]: "length (dedup_ids seen xs) = length xs"
  by (induction xs arbitrary: seen) (auto split: option.splits)

lemma dedup_names_length [simp]: "length (dedup_names seen xs) = length xs"
  by (induction xs arbitrary: seen) (auto split: option.splits)

lemma overlay_custom_length [simp]: "length (overlay_custom ns cs) = length ns"
  by (induction ns cs rule: overlay_custom.induct) auto

lemma pad_prefixes_length: "n \<le> length (pad_prefixes n ps)"
  by (induction n ps rule: pad_prefixes.induct) (subst pad_prefixes.simps, auto)

lemma generate_names_length: "length (fst (generate_names n th custom g)) = n"
proof -
  obtain ps g1 where s: "random_shuffle (pad_prefixes n (suggested_room_prefixes th)) g = (ps, g1)"
    by (cases "random_shuffle (pad_prefixes n (suggested_room_prefixes th)) g")
  have "length ps = length (pad_prefixes n (suggested_room_prefixes th))"
    using random_shuffle_length [of "pad_prefixes n (suggested_room_prefixes th)" g] s by simp
  then have "n \<le> length ps" using pad_prefixes_length [of n "suggested_room_prefixes th"] by simp
  then show ?thesis using s by (simp add: generate_names_def Let_def)
qed

lemma clamp_room_count_pos: "0 < clamp_room_count rc"
  by (simp add: clamp_room_count_def)

lemma rooms_of_graph:
  assumes ok: "graph_ok n adj" and hp: "has_parents n adj" and n: "0 < n"
    and d: "distinct ids" and len: "length ids = n"
    and keys: "map fst rs = ids"
    and ex: "\<forall>i<n. exits (snd (rs ! i)) = room_exits ids (adj_at adj i)"
  shows "\<forall>rid \<in> set (dict_keys rs). reachable_from rs (hd (dict_keys rs)) rid"
    and "\<forall>a ra d b. dict_get rs a = Some ra \<and> (d, b) \<in> set (exits ra)
           \<longrightarrow> (\<exists>rb r. dict_get rs b = Some rb \<and> paired d r \<and> (r, a) \<in> set (exits rb))"
proof -
  have lrs: "length rs = n" using keys len by (metis length_map)
  have get: "dict_get rs (ids ! i) = Some (snd (rs ! i))" if "i < n" for i
  proof -
    have "(ids ! i, snd (rs ! i)) \<in> set rs"
      using that lrs keys by (metis nth_map nth_mem prod.collapse)
    moreover have "distinct (map fst rs)" using keys d by simp
    ultimately show ?thesis by (simp add: dict_get_def)
  qed
  have exi: "exits (snd (rs ! i)) = map (\<lambda>(j, d, r). (d, ids ! j)) (adj ! i)" if "i < n" for i
    using ex that room_exits_graph_ok [OF ok that, of ids] by simp
  have step: "(ids ! i, ids ! j) \<in> exit_step rs" if "i < n" "(j, d', r') \<in> set (adj ! i)" for i j d' r'
  proof -
    have "(d', ids ! j) \<in> set (exits (snd (rs ! i)))"
      using exi [OF that(1)] that(2) by force
    with get [OF that(1)] show ?thesis by (auto simp: exit_step_def)
  qed
  have reach: "(ids ! 0, ids ! k) \<in> (exit_step rs)\<^sup>*" if "k < n" for k
    using that
  proof (induction k rule: less_induct)
    case (less k)
    show ?case
    proof (cases "k = 0")
      case True
      then show ?thesis by simp
    next
      case False
      with hp less.prems obtain j d' r' where j: "j < k" "(j, d', r') \<in> set (adj ! k)"
        by (auto simp: has_parents_def)
      have jn: "j < n" using j(1) less.prems by simp
      have "(k, r', d') \<in> set (adj ! j)" using graph_okD(3) [OF ok less.prems j(2)] .
      then have "(ids ! j, ids ! k) \<in> exit_step rs" using step [OF jn] by blast
      with less.IH [OF j(1) jn] show ?thesis by simp
    qed
  qed
  have hd: "hd (dict_keys rs) = ids ! 0"
  proof -
    have "ids \<noteq> []" using n len by auto
    then show ?thesis using keys by (simp add: dict_keys_def hd_conv_nth)
  qed
  show "\<forall>rid \<in> set (dict_keys rs). reachable_from rs (hd (dict_keys rs)) rid"
  proof
    fix rid assume "rid \<in> set (dict_keys rs)"
    then obtain k where "k < n" "rid = ids ! k"
      using keys len by (auto simp: dict_keys_def in_set_conv_nth)
    with reach hd show "reachable_from rs (hd (dict_keys rs)) rid"
      by (simp add: reachable_from_def)
  qed
  show "\<forall>a ra d b. dict_get rs a = Some ra \<and> (d, b) \<in> set (exits ra)
           \<longrightarrow> (\<exists>rb r. dict_get rs b = Some rb \<and> paired d r \<and> (r, a) \<in> set (exits rb))"
  proof (intro allI impI)
    fix a ra d' b assume h: "dict_get rs a = Some ra \<and> (d', b) \<in> set (exits ra)"
    then have "(a, ra) \<in> set rs" by (auto simp: dict_get_def dest: map_of_SomeD)
    then obtain i where i: "i < n" "rs ! i = (a, ra)" using lrs by (auto simp: in_set_conv_nth)
    have a: "a = ids ! i" using i keys lrs by (metis fst_conv nth_map)
    have "(d', b) \<in> set (map (\<lambda>(j, d, r). (d, ids ! j)) (adj ! i))"
      using h exi [OF i(1)] i(2) by simp
    then obtain j r' where e: "(j, d', r') \<in> set (adj ! i)" "b = ids ! j" by auto
    note g = graph_okD [OF ok i(1) e(1)]
    have "(r', ids ! i) \<in> set (exits (snd (rs ! j)))"
      using exi [OF g(1)] g(3) by force
    with get [OF g(1)] g(2) a e(2)
    show "\<exists>rb r. dict_get rs b = Some rb \<and> paired d' r \<and> (r, a) \<in> set (exits rb)"
      by blast
  qed
qed

text \<open>
  The room map of a request whose identifiers are pairwise distinct: its keys are the
  identifiers in order, it has as many records as rooms were asked for (after clamping),
  every room is reachable from the first one, and every exit is mutual and paired.
\<close>

lemma generate_distinct_ids:
  assumes "distinct (generate_ids (fst (generate_names (clamp_room_count room_count) th custom_names g)))"
  shows "dict_keys (fst (generate room_count th wname custom_names g))
           = generate_ids (fst (generate_names (clamp_room_count room_count) th custom_names g))"
    and "length (fst (generate room_count th wname custom_names g)) = clamp_room_count room_count"
    and "\<forall>rid \<in> set (dict_keys (fst (generate room_count th wname custom_names g))).
           reachable_from (fst (generate room_count th wname custom_names g))
             (hd (dict_keys (fst (generate room_count th wname custom_names g)))) rid"
    and "\<forall>a ra d b. dict_get (fst (generate room_count th wname custom_names g)) a = Some ra
                    \<and> (d, b) \<in> set (exits ra)
           \<longrightarrow> (\<exists>rb r. dict_get (fst (generate room_count th wname custom_names g)) b = Some rb
                        \<and> paired d r \<and> (r, a) \<in> set (exits rb))"
proof -
  define n where "n = clamp_room_count room_count"
  obtain names g1 where gn: "generate_names n th custom_names g = (names, g1)"
    by (cases "generate_names n th custom_names g")
  define ids where "ids = generate_ids names"
  obtain adj g2 where ga: "generate_adjacency n g1 = (adj, g2)"
    by (cases "generate_adjacency n g1")
  have n: "0 < n" unfolding n_def by (rule clamp_room_count_pos)
  have d: "distinct ids" using assms gn by (simp add: ids_def n_def)
  have len: "length ids = n"
    using generate_names_length [of n th custom_names g] gn by (simp add: ids_def generate_ids_def)
  have ok: "graph_ok n adj" and hp: "has_parents n adj"
    using generate_adjacency_ok [OF n, of g1] ga by simp_all
  from fold_build_room_distinct [OF d, of n names adj th wname g2] len
  obtain rs g' where f: "fold (build_room ids names adj th wname) [0 ..< n] ([], g2) = (rs, g')"
    and keys: "map fst rs = ids"
    and ex: "\<forall>i<n. exits (snd (rs ! i)) = room_exits ids (adj_at adj i)"
    by auto
  have gen: "fst (generate room_count th wname custom_names g) = rs"
    using gn ga f by (simp add: generate_def Let_def n_def [symmetric] ids_def [symmetric])
  have idsq: "generate_ids (fst (generate_names (clamp_room_count room_count) th custom_names g)) = ids"
    using gn by (simp add: ids_def n_def)
  show "dict_keys (fst (generate room_count th wname custom_names g))
           = generate_ids (fst (generate_names (clamp_room_count room_count) th custom_names g))"
    unfolding gen idsq using keys by (simp add: dict_keys_def)
  show "length (fst (generate room_count th wname custom_names g)) = clamp_room_count room_count"
    unfolding gen using keys len by (metis length_map n_def)
  show "\<forall>rid \<in> set (dict_keys (fst (generate room_count th wname custom_names g))).
           reachable_from (fst (generate room_count th wname custom_names g))
             (hd (dict_keys (fst (generate room_count th wname custom_names g)))) rid"
    unfolding gen by (rule rooms_of_graph(1) [OF ok hp n d len keys ex])
  show "\<forall>a ra d b. dict_get (fst (generate room_count th wname custom_names g)) a = Some ra
                    \<and> (d, b) \<in> set (exits ra)
           \<longrightarrow> (\<exists>rb r. dict_get (fst (generate room_count th wname custom_names g)) b = Some rb
                        \<and> paired d r \<and> (r, a) \<in> set (exits rb))"
    unfolding gen by (rule rooms_of_graph(2) [OF ok hp n d len keys ex])
qed

text \<open>A request without custom names whose identifiers are distinct.\<close>

lemma generate_distinct_ids_example:
  "distinct (generate_ids (fst (generate_names (clamp_room_count 4) scenario_theme [] [])))"
  by code_simp

subsection \<open>The request with colliding names, for every theme and random source\<close>

text \<open>
  The five custom names replace whatever names the shuffle produced, so the names of the
  request do not depend on the theme or on the random source; and the keys of the room
  map are the identifiers without their repeats.
\<close>

lemma overlay_custom_all:
  "length ns = length cs \<Longrightarrow> \<forall>c \<in> set cs. py_strip c \<noteq> [] \<Longrightarrow> overlay_custom ns cs = map py_strip cs"
  by (induction ns cs rule: overlay_custom.induct) auto

lemma colliding_names_strip: "map py_strip colliding_names = colliding_names"
  by code_simp

lemma colliding_names_not_blank: "list_all (\<lambda>c. py_strip c \<noteq> []) colliding_names"
  by code_simp

lemma colliding_names_dedup: "dedup_names [] (colliding_names [0 := ''Entrance'']) = colliding_names"
  by code_simp

lemma generate_names_colliding: "fst (generate_names 5 th colliding_names g) = colliding_names"
proof -
  obtain ps g1 where s: "random_shuffle (pad_prefixes 5 (suggested_room_prefixes th)) g = (ps, g1)"
    by (cases "random_shuffle (pad_prefixes 5 (suggested_room_prefixes th)) g")
  have "length ps = length (pad_prefixes 5 (suggested_room_prefixes th))"
    using random_shuffle_length [of "pad_prefixes 5 (suggested_room_prefixes th)" g] s by simp
  then have "5 \<le> length ps" using pad_prefixes_length [of 5 "suggested_room_prefixes th"] by simp
  then have l: "length (take 5 ps) = length (take 5 colliding_names)"
    by (simp add: colliding_names_def)
  have t: "take 5 colliding_names = colliding_names" by (simp add: colliding_names_def)
  have "\<forall>c \<in> set (take 5 colliding_names). py_strip c \<noteq> []"
    unfolding t using colliding_names_not_blank by (simp add: list_all_iff)
  from overlay_custom_all [OF l this]
  have "overlay_custom (take 5 ps) (take 5 colliding_names) = colliding_names"
    by (simp add: t colliding_names_strip)
  then show ?thesis
    using s by (simp add: generate_names_def Let_def colliding_names_dedup)
qed

lemma dict_set_keys_list:
  "dict_keys (dict_set d k v) = (if k \<in> set (dict_keys d) then dict_keys d else dict_keys d @ [k])"
  by (induction d k v rule: dict_set.induct) (auto simp: dict_keys_def)

lemma fold_build_room_keys:
  "dict_keys (fst (fold (build_room ids names adj th wname) xs (rs, g)))
     = fold (\<lambda>i ks. if ids ! i \<in> set ks then ks else ks @ [ids ! i]) xs (dict_keys rs)"
proof (induction xs arbitrary: rs g)
  case Nil
  show ?case by simp
next
  case (Cons i xs)
  from build_room_shape [of ids names adj th wname i rs g]
  obtain room g' where b: "build_room ids names adj th wname i (rs, g) = (dict_set rs (ids ! i) room, g')"
    by blast
  show ?case
    using Cons [of "dict_set rs (ids ! i) room" g'] by (simp add: b dict_set_keys_list)
qed

section \<open>The room graph generator and the verifier: results\<close>

lemma room_exits_keys_fold:
  "set (dict_keys (fold (\<lambda>(j, direction, r) ex.
             if direction \<in> set ALL_DIRECTIONS then dict_set ex direction (ids ! j) else ex)
       es ex0)) \<subseteq> set (dict_keys ex0) \<union> set ALL_DIRECTIONS"
proof (induction es arbitrary: ex0)
  case Nil
  show ?case by simp
next
  case (Cons e es)
  obtain j direction r where e: "e = (j, direction, r)" by (cases e)
  show ?case
    using Cons.IH[of "if direction \<in> set ALL_DIRECTIONS then dict_set ex0 direction (ids ! j) else ex0"]
    by (auto simp: e dict_set_keys)
qed

lemma room_exits_keys: "set (dict_keys (room_exits ids es)) \<subseteq> set ALL_DIRECTIONS"
  using room_exits_keys_fold[of ids es "[]"] by (simp add: room_exits_def dict_keys_def)

lemma all_directions_engine: "set ALL_DIRECTIONS = set ENGINE_DIRECTIONS"
  by (auto simp: ALL_DIRECTIONS_def DIRECTION_PAIRS_def ENGINE_DIRECTIONS_def)

lemma build_room_sanctioned:
  assumes "\<forall>(rid, room)\<in>set (fst st). exits_sanctioned room"
  shows "\<forall>(rid, room)\<in>set (fst (build_room ids names adj th wname i st)). exits_sanctioned room"
proof -
  obtain rs g where st: "st = (rs, g)" by (cases st)
  define ex where "ex = room_exits ids (adj_at adj i)"
  obtain description g1 where d: "generate_description (names ! i) th wname ex g = (description, g1)"
    by (cases "generate_description (names ! i) th wname ex g")
  define room where
    "room = \<lparr> room_id = ids ! i, room_name = names ! i,
              room_description = escape_percent description,
              exits = ex, room_properties = [], is_start = (i = 0) \<rparr>"
  have b: "fst (build_room ids names adj th wname i st) = dict_set rs (ids ! i) room"
    by (simp add: build_room_def st Let_def ex_def[symmetric] d room_def)
  have "exits_sanctioned room"
    using room_exits_keys[of ids "adj_at adj i"]
    by (simp add: exits_sanctioned_def room_def ex_def all_directions_engine)
  then show ?thesis
    unfolding b using assms dict_set_entries_subset[of rs "ids ! i" room] st by auto
qed

lemma fold_build_room_sanctioned:
  "\<forall>(rid, room)\<in>set (fst st). exits_sanctioned room \<Longrightarrow>
   \<forall>(rid, room)\<in>set (fst (fold (build_room ids names adj th wname) is st)). exits_sanctioned room"
proof (induction "is" arbitrary: st)
  case Nil
  then show ?case by simp
next
  case (Cons i "is")
  have "\<forall>(rid, room)\<in>set (fst (build_room ids names adj th wname i st)). exits_sanctioned room"
    using Cons.prems by (rule build_room_sanctioned)
  then show ?case using Cons.IH by simp
qed

lemma generate_sanctioned:
  "\<forall>(rid, room)\<in>set (fst (generate room_count th wname custom_names g)). exits_sanctioned room"
proof -
  obtain names g1 where n: "generate_names (clamp_room_count room_count) th custom_names g = (names, g1)"
    by (cases "generate_names (clamp_room_count room_count) th custom_names g")
  obtain adj g2 where a: "generate_adjacency (clamp_room_count room_count) g1 = (adj, g2)"
    by (cases "generate_adjacency (clamp_room_count room_count) g1")
  have "generate room_count th wname custom_names g =
          fold (build_room (generate_ids names) names adj th wname)
            [0 ..< clamp_room_count room_count] ([], g2)"
    by (simp add: generate_def Let_def n a)
  then show ?thesis
    using fold_build_room_sanctioned[of "([], g2)"] by simp
qed

lemma errors_verify_all_present:
  assumes "\<forall>(fname, path)\<in>set (filemap output_dir). dict_get dk path \<noteq> None"
      and "dict_get dk (path_join output_dir ''rooms.ini'') = Some rooms_file"
      and "(s, d) \<in> set (ini_sections rooms_file)"
  shows "set (verify_room_section (set (dict_keys (ini_sections rooms_file))) (s, d))
           \<subseteq> set (errors (verify dk output_dir))"
proof -
  have m: "concat (map (\<lambda>(fname, path). if dict_get dk path = None then [FileMissing path] else [])
                     (filemap output_dir)) = []"
    using assms(1) by (auto simp: concat_eq_Nil_conv)
  have f: "opt_get (filemap output_dir) ''rooms'' = path_join output_dir ''rooms.ini''"
    by (simp add: filemap_def opt_get_def dict_get_def)
  show ?thesis
    using assms(2,3)
    by (auto simp: verify_def Let_def m new_result_def f)
qed


lemma invalid_for_engine_iff:
  "dr \<in> set INVALID_FOR_ENGINE \<longleftrightarrow> dr \<in> set DIRECTIONS \<and> dr \<notin> set ENGINE_DIRECTIONS"
  by (auto simp: INVALID_FOR_ENGINE_def DIRECTIONS_def ENGINE_DIRECTIONS_def)

lemma verify_room_section_invalid_label:
  "dr \<in> set INVALID_FOR_ENGINE \<Longrightarrow> dr \<in> set (dict_keys d) \<Longrightarrow>
   ExitNotReadByEngine s dr \<in> set (verify_room_section room_set (s, d))"
  by (auto simp: verify_room_section_def)

lemma generate_colliding_names:
  "generate 5 scenario_theme ''W'' colliding_names [] =
   ([(''entrance'',
      \<lparr>room_id = ''entrance'', room_name = ''Entrance'',
         room_description =
           ''The Entrance of W. A quiet place with an atmosphere that feels entirely in keeping with this place. Exits lead south, west, down.'',
         exits = [(''south'', ''a_1''), (''west'', ''a''), (''down'', ''a_1'')],
         room_properties = [], is_start = True\<rparr>),
     (''a_1'',
      \<lparr>room_id = ''a_1'', room_name = ''A'',
         room_description =
           ''The A of W. A quiet place with an atmosphere that feels entirely in keeping with this place. Exits lead up.'',
         exits = [(''up'', ''entrance'')], room_properties = [], is_start = False\<rparr>),
     (''a'',
      \<lparr>room_id = ''a'', room_name = ''a'',
         room_description =
           ''The a of W. A quiet place with an atmosphere that feels entirely in keeping with this place. Exits lead east.'',
         exits = [(''east'', ''entrance'')], room_properties = [], is_start = False\<rparr>),
     (''b'',
      \<lparr>room_id = ''b'', room_name = ''b'',
         room_description =
           ''The b of W. A quiet place with an atmosphere that feels entirely in keeping with this place. Exits lead north.'',
         exits = [(''north'', ''a_1'')], room_properties = [], is_start = False\<rparr>)],
    [])"
  by code_simp

lemma colliding_rooms_exits:
  "map (\<lambda>(rid, room). (rid, exits room)) colliding_rooms =
     [(''entrance'', [(''south'', ''a_1''), (''west'', ''a''), (''down'', ''a_1'')]),
      (''a_1'', [(''up'', ''entrance'')]),
      (''a'', [(''east'', ''entrance'')]),
      (''b'', [(''north'', ''a_1'')])]"
  by (simp add: colliding_rooms_def generate_colliding_names)

text \<open>
  Claim C5. For every request and every random outcome, the exit labels of every room the
  generator returns are among north, south, east, west, up and down. And the round-trip
  verifier: the direction labels of the program are the twelve of \<open>DIRECTIONS\<close>; when
  the six artifact files are all there and a section of the rooms file has an option
  named by a direction label that is not one of the engine's six, the verifier reports
  that section and label as an error, and the result is not valid.
\<close>

theorem sanctioned_direction_labels:
  "(\<forall>(rid, room)\<in>set (fst (generate room_count th wname custom_names g)).
       set (dict_keys (exits room)) \<subseteq> {''north'', ''south'', ''east'', ''west'', ''up'', ''down''})
   \<and> ((\<forall>(fname, path)\<in>set (filemap output_dir). dict_get dk path \<noteq> None)
        \<and> dict_get dk (path_join output_dir ''rooms.ini'') = Some rooms_file
        \<and> (s, d) \<in> set (ini_sections rooms_file)
        \<and> dr \<in> set DIRECTIONS \<and> dr \<notin> set ENGINE_DIRECTIONS \<and> dr \<in> set (dict_keys d)
        \<longrightarrow> ExitNotReadByEngine s dr \<in> set (errors (verify dk output_dir))
            \<and> \<not> is_valid (verify dk output_dir))"
proof (intro conjI impI)
  show "\<forall>(rid, room)\<in>set (fst (generate room_count th wname custom_names g)).
       set (dict_keys (exits room)) \<subseteq> {''north'', ''south'', ''east'', ''west'', ''up'', ''down''}"
    using generate_sanctioned[of room_count th wname custom_names g]
    by (auto simp: exits_sanctioned_def ENGINE_DIRECTIONS_def)
next
  assume a: "(\<forall>(fname, path)\<in>set (filemap output_dir). dict_get dk path \<noteq> None)
        \<and> dict_get dk (path_join output_dir ''rooms.ini'') = Some rooms_file
        \<and> (s, d) \<in> set (ini_sections rooms_file)
        \<and> dr \<in> set DIRECTIONS \<and> dr \<notin> set ENGINE_DIRECTIONS \<and> dr \<in> set (dict_keys d)"
  then have "dr \<in> set INVALID_FOR_ENGINE" by (simp add: invalid_for_engine_iff)
  then have "ExitNotReadByEngine s dr
               \<in> set (verify_room_section (set (dict_keys (ini_sections rooms_file))) (s, d))"
    using a by (simp add: verify_room_section_invalid_label)
  then show e: "ExitNotReadByEngine s dr \<in> set (errors (verify dk output_dir))"
    using errors_verify_all_present[of output_dir dk rooms_file s d] a by blast
  then show "\<not> is_valid (verify dk output_dir)"
    by (auto simp: is_valid_def)
qed

theorem sanctioned_direction_labels_witness:
  "list_all exits_sanctioned (map snd colliding_rooms)
   \<and> length colliding_rooms = 4
   \<and> ExitNotReadByEngine ''entrance'' ''northeast'' \<in> set (errors (verify sample_disk ''out''))
   \<and> \<not> is_valid (verify sample_disk ''out'')"
proof -
  have p: "\<forall>(fname, path)\<in>set (filemap ''out''). dict_get sample_disk path \<noteq> None"
    by (simp add: filemap_def path_join_def sample_disk_def dict_get_def)
  have r: "dict_get sample_disk (path_join ''out'' ''rooms.ini'') =
             Some \<lparr> ini_sections =
                      [(''entrance'', [(''name'', ''Entrance''), (''north'', ''hall''), (''northeast'', ''hall'')]),
                       (''hall'', [(''name'', ''Hall''), (''south'', ''entrance'')])],
                    ini_lines = [] \<rparr>"
    by (simp add: path_join_def sample_disk_def dict_get_def)
  have l: "length colliding_rooms = 4"
    by (simp add: colliding_rooms_def generate_colliding_names)
  have d: "''northeast'' \<in> set DIRECTIONS \<and> ''northeast'' \<notin> set ENGINE_DIRECTIONS"
    by (simp add: DIRECTIONS_def ENGINE_DIRECTIONS_def)
  note t = sanctioned_direction_labels
        [of 5 scenario_theme "''W''" colliding_names "[]" "''out''" sample_disk
            "\<lparr> ini_sections =
                      [(''entrance'', [(''name'', ''Entrance''), (''north'', ''hall''), (''northeast'', ''hall'')]),
                       (''hall'', [(''name'', ''Hall''), (''south'', ''entrance'')])],
                    ini_lines = [] \<rparr>"
            "''entrance''"
            "[(''name'', ''Entrance''), (''north'', ''hall''), (''northeast'', ''hall'')]"
            "''northeast''"]
  from t have "\<forall>(rid, room)\<in>set colliding_rooms.
       set (dict_keys (exits room)) \<subseteq> {''north'', ''south'', ''east'', ''west'', ''up'', ''down''}"
    unfolding colliding_rooms_def by (rule conjunct1)
  then have 1: "list_all exits_sanctioned (map snd colliding_rooms)"
    unfolding list_all_iff exits_sanctioned_def ENGINE_DIRECTIONS_def by fastforce
  from t p r d have 2: "ExitNotReadByEngine ''entrance'' ''northeast'' \<in> set (errors (verify sample_disk ''out''))
      \<and> \<not> is_valid (verify sample_disk ''out'')"
    by (simp add: dict_keys_def)
  show ?thesis using 1 2 l by simp
qed

text \<open>
  Claim C9 at the request with colliding names, for every theme, world name and random
  outcome. The names are pairwise distinct, but \<open>a\<close> and \<open>A\<close> give the same
  identifier, and the suffixed identifier \<open>a_1\<close> made up for the second of them is the
  identifier of the room named \<open>a 1\<close>: the de-duplication loop records only the
  identifiers that come in, not the ones it makes up. Five rooms were asked for; the
  identifier list has a repeat and the room map has four entries.
\<close>

theorem colliding_ids_fewer_rooms:
  "clamp_room_count 5 = 5
   \<and> distinct colliding_names
   \<and> generate_ids (fst (generate_names (clamp_room_count 5) th colliding_names g))
       = [''entrance'', ''a_1'', ''a'', ''a_1'', ''b'']
   \<and> \<not> distinct (generate_ids (fst (generate_names (clamp_room_count 5) th colliding_names g)))
   \<and> dict_keys (fst (generate 5 th wname colliding_names g)) = [''entrance'', ''a_1'', ''a'', ''b'']
   \<and> length (fst (generate 5 th wname colliding_names g)) = 4"
proof -
  have c: "clamp_room_count 5 = 5" by (simp add: clamp_room_count_def)
  have ids: "generate_ids colliding_names = [''entrance'', ''a_1'', ''a'', ''a_1'', ''b'']"
    by code_simp
  obtain names g1 where gn: "generate_names 5 th colliding_names g = (names, g1)"
    by (cases "generate_names 5 th colliding_names g")
  then have names: "names = colliding_names" using generate_names_colliding [of th g] by simp
  obtain adj g2 where ga: "generate_adjacency 5 g1 = (adj, g2)" by (cases "generate_adjacency 5 g1")
  have u: "[0 ..< 5] = [0, 1, 2, 3, 4]" by (simp add: upt_rec)
  have "fst (generate 5 th wname colliding_names g)
      = fst (fold (build_room (generate_ids names) names adj th wname) [0 ..< 5] ([], g2))"
    using gn ga by (simp add: generate_def c Let_def)
  then have "dict_keys (fst (generate 5 th wname colliding_names g))
      = fold (\<lambda>i ks. if generate_ids names ! i \<in> set ks then ks else ks @ [generate_ids names ! i])
          [0 ..< 5] (dict_keys ([] :: (string \<times> Room) list))"
    by (simp only: fold_build_room_keys)
  also have "\<dots> = [''entrance'', ''a_1'', ''a'', ''b'']"
    unfolding names ids u by (simp add: dict_keys_def)
  finally have k: "dict_keys (fst (generate 5 th wname colliding_names g))
      = [''entrance'', ''a_1'', ''a'', ''b'']" .
  then have "length (dict_keys (fst (generate 5 th wname colliding_names g))) = 4" by simp
  then have l: "length (fst (generate 5 th wname colliding_names g)) = 4"
    by (simp add: dict_keys_def)
  have d: "distinct colliding_names" by (simp add: colliding_names_def)
  show ?thesis using c d ids gn names k l by simp
qed

lemma colliding_rooms_closed:
  assumes "(x, y) \<in> (exit_step colliding_rooms)\<^sup>*" and "x \<in> {''entrance'', ''a_1'', ''a''}"
  shows "y \<in> {''entrance'', ''a_1'', ''a''}"
  using assms
proof (induction rule: rtrancl_induct)
  case base
  then show ?case by simp
next
  case (step y z)
  then have "y \<in> {''entrance'', ''a_1'', ''a''}" by blast
  moreover have "(y, z) \<in> exit_step colliding_rooms" by (rule step(2))
  ultimately show ?case
    by (auto simp: exit_step_def colliding_rooms_def generate_colliding_names dict_get_def
             split: if_splits)
qed

text \<open>
  Claim C1 at the same request. Room 3 overwrote the record of room 1 in the map, and with
  it the exit that led on to room 4: \<open>entrance\<close> is the start room, and the room \<open>b\<close>
  of the returned map cannot be reached from it. (The breadth-first search of the
  validator finds the three other rooms only.)
\<close>

theorem colliding_ids_unreachable_room:
  "map (\<lambda>(rid, room). (rid, is_start room)) colliding_rooms
     = [(''entrance'', True), (''a_1'', False), (''a'', False), (''b'', False)]
   \<and> \<not> reachable_from colliding_rooms ''entrance'' ''b''
   \<and> bfs_rooms colliding_rooms [''entrance''] [] = [''a'', ''a_1'', ''entrance'']"
proof -
  have "\<not> reachable_from colliding_rooms ''entrance'' ''b''"
    using colliding_rooms_closed[of "''entrance''" "''b''"] by (auto simp: reachable_from_def)
  moreover have "bfs_rooms colliding_rooms [''entrance''] [] = [''a'', ''a_1'', ''entrance'']"
    unfolding colliding_rooms_def generate_colliding_names
    by (simp add: room_successors_def dict_get_def dict_keys_def)
  ultimately show ?thesis
    by (simp add: colliding_rooms_def generate_colliding_names)
qed

text \<open>
  Claim C10 at the same request. The start room's exit \<open>south\<close> leads to \<open>a_1\<close>, and
  the room \<open>a_1\<close> of the returned map has no exit \<open>north\<close> at all: its only exit is
  \<open>up\<close>.
\<close>

theorem colliding_ids_exit_not_mutual:
  "map_option exits (dict_get colliding_rooms ''entrance'')
     = Some [(''south'', ''a_1''), (''west'', ''a''), (''down'', ''a_1'')]
   \<and> map_option exits (dict_get colliding_rooms ''a_1'') = Some [(''up'', ''entrance'')]
   \<and> dict_get [(''south'', ''a_1''), (''west'', ''a''), (''down'', ''a_1'')] ''south'' = Some ''a_1''
   \<and> dict_get [(''up'', ''entrance'')] ''north'' = None"
  by (simp add: colliding_rooms_def generate_colliding_names dict_get_def)

section \<open>Physics packages keep the references of a world resolved\<close>

lemma random_room_in:
  "rooms world \<noteq> [] \<Longrightarrow> random_room world g = (r, g') \<Longrightarrow> r \<in> room_ids world"
  by (auto simp: random_room_def room_ids_def dict_keys_def randbelow_def)

lemma set_room_property_keys [simp]:
  "dict_keys (rooms (set_room_property world rid k v)) = dict_keys (rooms world)"
  by (auto simp: set_room_property_def dict_keys_def)

lemma last_room_in: "rooms world \<noteq> [] \<Longrightarrow> last (map fst (rooms world)) \<in> room_ids world"
  unfolding room_ids_def dict_keys_def
  by (metis last_in_set map_is_Nil_conv)

lemma first_room_in: "rooms world \<noteq> [] \<Longrightarrow> fst (rooms world ! 0) \<in> room_ids world"
  unfolding room_ids_def dict_keys_def
  by (metis length_greater_0_conv list.set_map nth_map nth_mem length_map)

lemma build_energy_result:
  "rooms world \<noteq> [] \<Longrightarrow>
   \<exists>pkg world' g'. build_energy world th g = Inr ((pkg, world'), g') \<and> package_closed pkg world
      \<and> (world' = world \<or> (\<exists>rid k v. world' = set_room_property world rid k v))"
  apply (simp add: build_energy_def Let_def split: prod.splits)
  apply (auto simp: package_closed_def transformation_closed_def dict_keys_def
      new_GameObject_def new_Transformation_def last_room_in first_room_in
      dest: random_room_in)
  done

lemma build_lock_key_result:
  "rooms world \<noteq> [] \<Longrightarrow>
   \<exists>pkg world' g'. build_lock_key world th g = Inr ((pkg, world'), g') \<and> package_closed pkg world
      \<and> (world' = world \<or> (\<exists>rid k v. world' = set_room_property world rid k v))"
  apply (simp add: build_lock_key_def Let_def split: prod.splits)
  apply (auto simp: package_closed_def transformation_closed_def dict_keys_def
      new_GameObject_def new_Transformation_def last_room_in first_room_in
      dest: random_room_in)
  done

lemma build_crafting_result:
  "rooms world \<noteq> [] \<Longrightarrow>
   \<exists>pkg world' g'. build_crafting world th g = Inr ((pkg, world'), g') \<and> package_closed pkg world
      \<and> (world' = world \<or> (\<exists>rid k v. world' = set_room_property world rid k v))"
  apply (simp add: build_crafting_def Let_def split: prod.splits)
  apply (auto simp: package_closed_def transformation_closed_def dict_keys_def
      new_GameObject_def new_Transformation_def last_room_in first_room_in
      dest: random_room_in)
  done

lemma build_explosives_result:
  "rooms world \<noteq> [] \<Longrightarrow>
   \<exists>pkg world' g'. build_explosives world th g = Inr ((pkg, world'), g') \<and> package_closed pkg world
      \<and> (world' = world \<or> (\<exists>rid k v. world' = set_room_property world rid k v))"
  apply (simp add: build_explosives_def Let_def split: prod.splits)
  apply (auto simp: package_closed_def transformation_closed_def dict_keys_def
      new_GameObject_def new_Transformation_def last_room_in first_room_in
      dest: random_room_in)
  done

lemma build_disguise_result:
  "rooms world \<noteq> [] \<Longrightarrow>
   \<exists>pkg world' g'. build_disguise world th g = Inr ((pkg, world'), g') \<and> package_closed pkg world
      \<and> (world' = world \<or> (\<exists>rid k v. world' = set_room_property world rid k v))"
  apply (simp add: build_disguise_def Let_def split: prod.splits)
  apply (auto simp: package_closed_def transformation_closed_def dict_keys_def
      new_GameObject_def new_Transformation_def last_room_in first_room_in
      dest: random_room_in)
  done

lemma build_bribery_result:
  "rooms world \<noteq> [] \<Longrightarrow>
   \<exists>pkg world' g'. build_bribery world th g = Inr ((pkg, world'), g') \<and> package_closed pkg world
      \<and> (world' = world \<or> (\<exists>rid k v. world' = set_room_property world rid k v))"
  apply (simp add: build_bribery_def Let_def split: prod.splits)
  apply (auto simp: package_closed_def transformation_closed_def dict_keys_def
      new_GameObject_def new_Transformation_def last_room_in first_room_in
      dest: random_room_in)
  done

lemma build_medical_result:
  "rooms world \<noteq> [] \<Longrightarrow>
   \<exists>pkg world' g'. build_medical world th g = Inr ((pkg, world'), g') \<and> package_closed pkg world
      \<and> (world' = world \<or> (\<exists>rid k v. world' = set_room_property world rid k v))"
  apply (simp add: build_medical_def Let_def split: prod.splits)
  apply (auto simp: package_closed_def transformation_closed_def dict_keys_def
      new_GameObject_def new_Transformation_def last_room_in first_room_in
      dest: random_room_in)
  done

lemma build_magic_result:
  "rooms world \<noteq> [] \<Longrightarrow>
   \<exists>pkg world' g'. build_magic world th g = Inr ((pkg, world'), g') \<and> package_closed pkg world
      \<and> (world' = world \<or> (\<exists>rid k v. world' = set_room_property world rid k v))"
  apply (simp add: build_magic_def Let_def split: prod.splits)
  apply (auto simp: package_closed_def transformation_closed_def dict_keys_def
      new_GameObject_def new_Transformation_def last_room_in first_room_in
      dest: random_room_in)
  done

lemma build_teleportation_result:
  "rooms world \<noteq> [] \<Longrightarrow>
   \<exists>pkg world' g'. build_teleportation world th g = Inr ((pkg, world'), g') \<and> package_closed pkg world
      \<and> (world' = world \<or> (\<exists>rid k v. world' = set_room_property world rid k v))"
  apply (simp add: build_teleportation_def Let_def split: prod.splits)
  apply (auto simp: package_closed_def transformation_closed_def dict_keys_def
      new_GameObject_def new_Transformation_def last_room_in first_room_in
      dest: random_room_in)
  done

lemma build_temperature_result:
  "rooms world \<noteq> [] \<Longrightarrow>
   \<exists>pkg world' g'. build_temperature world th g = Inr ((pkg, world'), g') \<and> package_closed pkg world
      \<and> (world' = world \<or> (\<exists>rid k v. world' = set_room_property world rid k v))"
  apply (simp add: build_temperature_def Let_def split: prod.splits)
  apply (auto simp: package_closed_def transformation_closed_def dict_keys_def
      new_GameObject_def new_Transformation_def last_room_in first_room_in
      dest: random_room_in)
  done

lemma build_growth_result:
  "rooms world \<noteq> [] \<Longrightarrow>
   \<exists>pkg world' g'. build_growth world th g = Inr ((pkg, world'), g') \<and> package_closed pkg world
      \<and> (world' = world \<or> (\<exists>rid k v. world' = set_room_property world rid k v))"
  apply (simp add: build_growth_def Let_def split: prod.splits)
  apply (auto simp: package_closed_def transformation_closed_def dict_keys_def
      new_GameObject_def new_Transformation_def last_room_in first_room_in
      dest: random_room_in)
  done

lemma build_alien_tech_result:
  "rooms world \<noteq> [] \<Longrightarrow>
   \<exists>pkg world' g'. build_alien_tech world th g = Inr ((pkg, world'), g') \<and> package_closed pkg world
      \<and> (world' = world \<or> (\<exists>rid k v. world' = set_room_property world rid k v))"
  apply (simp add: build_alien_tech_def Let_def split: prod.splits)
  apply (auto simp: package_closed_def transformation_closed_def dict_keys_def
      new_GameObject_def new_Transformation_def last_room_in first_room_in
      dest: random_room_in)
  done

lemma get_package_result:
  assumes "rooms world \<noteq> []"
  shows "\<exists>pkg world' g'. get_package p world th g = Inr ((pkg, world'), g')
           \<and> package_closed pkg world
      \<and> (world' = world \<or> (\<exists>rid k v. world' = set_room_property world rid k v))"
proof (cases p)
  case TEMPERATURE
  then show ?thesis using build_temperature_result[OF assms, of th g] by (simp add: get_package_def)
next
  case ENERGY
  then show ?thesis using build_energy_result[OF assms, of th g] by (simp add: get_package_def)
next
  case LOCK_KEY
  then show ?thesis using build_lock_key_result[OF assms, of th g] by (simp add: get_package_def)
next
  case CRAFTING
  then show ?thesis using build_crafting_result[OF assms, of th g] by (simp add: get_package_def)
next
  case TELEPORTATION
  then show ?thesis using build_teleportation_result[OF assms, of th g] by (simp add: get_package_def)
next
  case DISGUISE
  then show ?thesis using build_disguise_result[OF assms, of th g] by (simp add: get_package_def)
next
  case EXPLOSIVES
  then show ?thesis using build_explosives_result[OF assms, of th g] by (simp add: get_package_def)
next
  case BRIBERY
  then show ?thesis using build_bribery_result[OF assms, of th g] by (simp add: get_package_def)
next
  case MAGIC
  then show ?thesis using build_magic_result[OF assms, of th g] by (simp add: get_package_def)
next
  case MEDICAL
  then show ?thesis using build_medical_result[OF assms, of th g] by (simp add: get_package_def)
next
  case GROWTH
  then show ?thesis using build_growth_result[OF assms, of th g] by (simp add: get_package_def)
next
  case ALIEN_TECH
  then show ?thesis using build_alien_tech_result[OF assms, of th g] by (simp add: get_package_def)
qed

lemma get_package_no_rooms: "rooms world = [] \<Longrightarrow> get_package p world th g = Inl IndexError"
  by (cases p)
     (simp_all add: get_package_def build_energy_def build_lock_key_def build_crafting_def
        build_explosives_def build_disguise_def build_bribery_def build_medical_def
        build_magic_def build_teleportation_def build_temperature_def build_growth_def
        build_alien_tech_def)


lemma dict_update_keys: "set (dict_keys (dict_update d e)) = set (dict_keys d) \<union> set (dict_keys e)"
  unfolding dict_update_def
proof (induction e arbitrary: d)
  case Nil
  show ?case by (simp add: dict_keys_def)
next
  case (Cons a e)
  obtain k v where a: "a = (k, v)" by (cases a)
  have "set (dict_keys (fold (\<lambda>(k, v) acc. dict_set acc k v) e (dict_set d k v)))
        = set (dict_keys (dict_set d k v)) \<union> set (dict_keys e)"
    by (rule Cons.IH)
  moreover have "dict_keys ((k, v) # e) = k # dict_keys e" by (simp add: dict_keys_def)
  ultimately show ?case by (simp add: a dict_set_keys)
qed

lemma dict_update_entries: "set (dict_update d e) \<subseteq> set d \<union> set e"
  unfolding dict_update_def
proof (induction e arbitrary: d)
  case Nil
  show ?case by simp
next
  case (Cons a e)
  obtain k v where a: "a = (k, v)" by (cases a)
  have "set (fold (\<lambda>(k, v) acc. dict_set acc k v) e (dict_set d k v)) \<subseteq> set (dict_set d k v) \<union> set e"
    by (rule Cons.IH)
  with dict_set_entries [of d k v] show ?case by (auto simp: a)
qed

lemma set_room_property_room_ids [simp]:
  "room_ids (set_room_property world rid k v) = room_ids world"
  unfolding room_ids_def by simp

lemma set_room_property_fields [simp]:
  "objects (set_room_property world rid k v) = objects world"
  "sprites (set_room_property world rid k v) = sprites world"
  "transformations (set_room_property world rid k v) = transformations world"
  "combat (set_room_property world rid k v) = combat world"
  by (simp_all add: set_room_property_def)

lemma set_room_property_exits:
  "(rid', r') \<in> set (rooms (set_room_property world rid k v))
   \<Longrightarrow> \<exists>r. (rid', r) \<in> set (rooms world) \<and> exits r' = exits r"
  by (auto simp: set_room_property_def split: if_splits)

lemma check_exits_iff:
  "check_exits world = [] \<longleftrightarrow>
     (\<forall>rid r d t. (rid, r) \<in> set (rooms world) \<longrightarrow> (d, t) \<in> set (exits r) \<longrightarrow> t \<in> room_ids world)"
  unfolding check_exits_def by (fastforce split: if_splits)

lemma check_object_location_exists_iff:
  "check_object_location_exists world = [] \<longleftrightarrow>
     (\<forall>oid ob. (oid, ob) \<in> set (objects world) \<longrightarrow>
         location ob = [] \<or> location ob = ''none'' \<or> location ob \<in> room_ids world
         \<or> location ob \<in> object_ids world)"
  unfolding check_object_location_exists_def by (fastforce split: if_splits)

lemma spawn_errors_iff:
  "spawn_errors world ss = [] \<longleftrightarrow>
     (\<forall>sid s. (sid, s) \<in> set ss \<longrightarrow> set (spawn_rooms s) \<subseteq> room_ids world)"
  unfolding spawn_errors_def by (fastforce simp: filter_empty_conv)

lemma check_loot_iff:
  "check_loot world = [] \<longleftrightarrow>
     (\<forall>sid s. (sid, s) \<in> set (sprites world) \<longrightarrow>
         loot_on_death s = [] \<or> loot_on_death s \<in> object_ids world)"
  unfolding check_loot_def by (fastforce split: if_splits)

lemma check_transform_object_iff:
  "check_transform_object world = [] \<longleftrightarrow>
     (\<forall>tid t. (tid, t) \<in> set (transformations world) \<longrightarrow> subject_object_id t \<in> object_ids world)"
  unfolding check_transform_object_def by (fastforce split: if_splits)

lemma check_transform_new_object_iff:
  "check_transform_new_object world = [] \<longleftrightarrow>
     (\<forall>tid t. (tid, t) \<in> set (transformations world) \<longrightarrow>
        new_object_id t = [] \<or> new_object_id t \<in> object_ids world)"
  unfolding check_transform_new_object_def by (fastforce split: if_splits)

lemma check_transform_requires_iff:
  "check_transform_requires world = [] \<longleftrightarrow>
     (\<forall>tid t. (tid, t) \<in> set (transformations world) \<longrightarrow>
        (requires_object t = [] \<or> requires_object t \<in> object_ids world)
        \<and> (requires_object_2 t = [] \<or> requires_object_2 t \<in> object_ids world))"
  unfolding check_transform_requires_def by (fastforce split: if_splits)

lemma check_transform_new_location_iff:
  "check_transform_new_location world = [] \<longleftrightarrow>
     (\<forall>tid t. (tid, t) \<in> set (transformations world) \<longrightarrow>
        new_location t = [] \<or> new_location t \<in> room_ids world)"
  unfolding check_transform_new_location_def by (fastforce split: if_splits)

lemma check_respawn_iff:
  "check_respawn world = [] \<longleftrightarrow>
     (respawn_location (combat world) = [] \<or> respawn_location (combat world) \<in> room_ids world)"
  unfolding check_respawn_def by simp


lemma inject_fields [simp]:
  "rooms (inject pkg world) = rooms world"
  "sprites (inject pkg world) = sprites world"
  "combat (inject pkg world) = combat world"
  "room_ids (inject pkg world) = room_ids world"
  "object_ids (inject pkg world) = object_ids world \<union> set (dict_keys (pkg_objects pkg))"
  by (simp_all add: inject_def room_ids_def object_ids_def dict_update_keys)

lemma inject_objects:
  "set (objects (inject pkg world)) \<subseteq> set (objects world) \<union> set (pkg_objects pkg)"
  by (simp add: inject_def dict_update_entries)

lemma inject_transformations:
  "set (transformations (inject pkg world))
     \<subseteq> set (transformations world) \<union> set (pkg_transformations pkg)"
  by (simp add: inject_def dict_update_entries)

lemma package_closed_objectD:
  "package_closed pkg world \<Longrightarrow> (oid, ob) \<in> set (pkg_objects pkg)
   \<Longrightarrow> location ob = ''none'' \<or> location ob \<in> room_ids world"
  by (auto simp: package_closed_def list_all_iff)

lemma package_closed_transformationD:
  "package_closed pkg world \<Longrightarrow> (tid, t) \<in> set (pkg_transformations pkg)
   \<Longrightarrow> transformation_closed (dict_keys (pkg_objects pkg)) (room_ids world) t"
  by (auto simp: package_closed_def list_all_iff)

lemma concat_map_subset:
  assumes "\<And>x. x \<in> set xs \<Longrightarrow> set (f x) \<subseteq> B"
  shows "set (concat (map f xs)) \<subseteq> B"
  using assms by auto

lemma inject_adds_no_unresolved:
  assumes closed: "package_closed pkg world"
    and w': "world' = world \<or> (\<exists>rid k v. world' = set_room_property world rid k v)"
  shows "set (unresolved_references (inject pkg world')) \<subseteq> set (unresolved_references world)"
proof -
  have rids: "room_ids world' = room_ids world"
    and objs: "objects world' = objects world"
    and sprs: "sprites world' = sprites world"
    and trs: "transformations world' = transformations world"
    and cmb: "combat world' = combat world"
    using w' by auto
  have oids: "object_ids world' = object_ids world"
    by (simp add: object_ids_def objs)
  have ex: "\<exists>r. (rid, r) \<in> set (rooms world) \<and> exits r' = exits r"
    if "(rid, r') \<in> set (rooms world')" for rid r'
    using w' that set_room_property_exits by blast
  have 1: "set (check_exits (inject pkg world')) \<subseteq> set (check_exits world)"
  proof
    fix m assume "m \<in> set (check_exits (inject pkg world'))"
    then obtain rid r' d t where a: "(rid, r') \<in> set (rooms world')" "(d, t) \<in> set (exits r')"
        "t \<notin> room_ids world" "m = ExitMissing rid d t"
      by (auto simp: check_exits_def rids split: if_splits)
    from ex [OF a(1)] obtain r where "(rid, r) \<in> set (rooms world)" "exits r' = exits r" by blast
    with a show "m \<in> set (check_exits world)"
      by (force simp: check_exits_def)
  qed
  have 2: "set (check_object_location_exists (inject pkg world'))
             \<subseteq> set (check_object_location_exists world)"
  proof
    fix m assume "m \<in> set (check_object_location_exists (inject pkg world'))"
    then obtain oid ob where a: "(oid, ob) \<in> set (objects (inject pkg world'))"
        "location ob \<noteq> []" "location ob \<noteq> ''none''" "location ob \<notin> room_ids world"
        "location ob \<notin> object_ids world" "m = ObjectLocationMissing oid (location ob)"
      by (auto simp: check_object_location_exists_def rids oids split: if_splits)
    from a(1) inject_objects [of pkg world']
    have "(oid, ob) \<in> set (objects world) \<or> (oid, ob) \<in> set (pkg_objects pkg)"
      by (auto simp: objs)
    with package_closed_objectD [OF closed] a(3,4) have "(oid, ob) \<in> set (objects world)"
      by blast
    with a show "m \<in> set (check_object_location_exists world)"
      by (force simp: check_object_location_exists_def)
  qed
  have 3: "spawn_errors (inject pkg world') (sprites (inject pkg world'))
             = spawn_errors world (sprites world)"
    by (simp add: spawn_errors_def rids sprs)
  have 4: "set (check_loot (inject pkg world')) \<subseteq> set (check_loot world)"
    by (auto simp: check_loot_def sprs oids split: if_splits)
  have tr: "(tid, t) \<in> set (transformations world)
            \<or> transformation_closed (dict_keys (pkg_objects pkg)) (room_ids world) t"
    if "(tid, t) \<in> set (transformations (inject pkg world'))" for tid t
    using that inject_transformations [of pkg world'] package_closed_transformationD [OF closed]
    by (auto simp: trs)
  have 5: "set (check_transform_object (inject pkg world')) \<subseteq> set (check_transform_object world)"
  proof
    fix m assume "m \<in> set (check_transform_object (inject pkg world'))"
    then obtain tid t where a: "(tid, t) \<in> set (transformations (inject pkg world'))"
        "subject_object_id t \<notin> object_ids world"
        "subject_object_id t \<notin> set (dict_keys (pkg_objects pkg))"
        "m = TransformObjectMissing tid (subject_object_id t)"
      by (auto simp: check_transform_object_def oids split: if_splits)
    with tr [OF a(1)] have "(tid, t) \<in> set (transformations world)"
      by (auto simp: transformation_closed_def)
    with a show "m \<in> set (check_transform_object world)"
      by (force simp: check_transform_object_def)
  qed
  have 6: "set (check_transform_new_object (inject pkg world'))
             \<subseteq> set (check_transform_new_object world)"
  proof
    fix m assume "m \<in> set (check_transform_new_object (inject pkg world'))"
    then obtain tid t where a: "(tid, t) \<in> set (transformations (inject pkg world'))"
        "new_object_id t \<noteq> []"
        "new_object_id t \<notin> object_ids world"
        "new_object_id t \<notin> set (dict_keys (pkg_objects pkg))"
        "m = TransformNewObjectMissing tid (new_object_id t)"
      by (auto simp: check_transform_new_object_def oids split: if_splits)
    with tr [OF a(1)] have "(tid, t) \<in> set (transformations world)"
      by (auto simp: transformation_closed_def)
    with a show "m \<in> set (check_transform_new_object world)"
      by (force simp: check_transform_new_object_def)
  qed
  have 7: "set (check_transform_requires (inject pkg world'))
             \<subseteq> set (check_transform_requires world)"
  proof
    fix m assume "m \<in> set (check_transform_requires (inject pkg world'))"
    then obtain tid t where a: "(tid, t) \<in> set (transformations (inject pkg world'))"
        "(requires_object t \<noteq> [] \<and> requires_object t \<notin> object_ids world
          \<and> requires_object t \<notin> set (dict_keys (pkg_objects pkg))
          \<and> m = TransformRequiresObjectMissing tid (requires_object t))
         \<or> (requires_object_2 t \<noteq> [] \<and> requires_object_2 t \<notin> object_ids world
          \<and> requires_object_2 t \<notin> set (dict_keys (pkg_objects pkg))
          \<and> m = TransformRequiresObject2Missing tid (requires_object_2 t))"
      by (auto simp: check_transform_requires_def oids split: if_splits)
    with tr [OF a(1)] have "(tid, t) \<in> set (transformations world)"
      by (auto simp: transformation_closed_def)
    with a(2) show "m \<in> set (check_transform_requires world)"
      by (force simp: check_transform_requires_def)
  qed
  have 8: "set (check_transform_new_location (inject pkg world'))
             \<subseteq> set (check_transform_new_location world)"
  proof
    fix m assume "m \<in> set (check_transform_new_location (inject pkg world'))"
    then obtain tid t where a: "(tid, t) \<in> set (transformations (inject pkg world'))"
        "new_location t \<noteq> []"
        "new_location t \<notin> room_ids world"
        "m = TransformNewLocationMissing tid (new_location t)"
      by (auto simp: check_transform_new_location_def rids split: if_splits)
    with tr [OF a(1)] have "(tid, t) \<in> set (transformations world)"
      by (auto simp: transformation_closed_def)
    with a show "m \<in> set (check_transform_new_location world)"
      by (force simp: check_transform_new_location_def)
  qed
  have 9: "check_respawn (inject pkg world') = check_respawn world"
    by (simp add: check_respawn_def rids cmb)
  show ?thesis
    unfolding unresolved_references_def set_append 3 9
    using 1 2 4 5 6 7 8 by blast
qed

text \<open>
  Claim C6. For a world that has at least one room, a physics type \<open>p\<close> and any random
  source, \<^verbatim>\<open>get_package\<close> returns a package that is closed over the world: the subject,
  result and prerequisite object of each of its transformations is an object of the
  package, a destination room is a room of the world, and each of its objects is located
  in a room of the world or is held back with the location \<^verbatim>\<open>'none'\<close>. The builder leaves
  the set of rooms as it was. Injecting the package into the world the builder hands back
  adds no unresolved reference: every dangling exit, object location, spawn room, loot
  object, transformation object or room and respawn room reported after the injection was
  reported before it, so a world without unresolved references has none afterwards.
  Every builder draws a random room first and raises \<^verbatim>\<open>IndexError\<close> on a world without
  rooms (see \<open>get_package_no_rooms\<close>).
\<close>

theorem physics_package_closed_injection_resolved:
  assumes "rooms world \<noteq> []"
  shows "\<exists>pkg world' g'.
           get_package p world th g = Inr ((pkg, world'), g')
           \<and> package_closed pkg world
           \<and> room_ids world' = room_ids world
           \<and> set (unresolved_references (inject pkg world')) \<subseteq> set (unresolved_references world)
           \<and> (unresolved_references world = [] \<longrightarrow> unresolved_references (inject pkg world') = [])"
proof -
  from get_package_result [OF assms, of p th g]
  obtain pkg world' g' where r: "get_package p world th g = Inr ((pkg, world'), g')"
      and c: "package_closed pkg world"
      and w: "world' = world \<or> (\<exists>rid k v. world' = set_room_property world rid k v)"
    by blast
  have s: "set (unresolved_references (inject pkg world')) \<subseteq> set (unresolved_references world)"
    by (rule inject_adds_no_unresolved [OF c w])
  have "room_ids world' = room_ids world" using w by auto
  moreover have "unresolved_references world = [] \<longrightarrow> unresolved_references (inject pkg world') = []"
    using s by auto
  ultimately show ?thesis using r c s by blast
qed

text \<open>
  The energy package built for the small world of two rooms, whose references all resolve.
\<close>

theorem physics_package_closed_injection_resolved_witness:
  "rooms scenario_world \<noteq> [] \<and> unresolved_references scenario_world = []
   \<and> (\<exists>pkg world' g'.
         get_package ENERGY scenario_world scenario_theme [1, 0, 5] = Inr ((pkg, world'), g')
         \<and> package_closed pkg scenario_world
         \<and> room_ids world' = room_ids scenario_world
         \<and> unresolved_references (inject pkg world') = [])"
proof -
  have a: "rooms scenario_world \<noteq> []" by (simp add: scenario_world_def)
  have b: "unresolved_references scenario_world = []" by code_simp
  show ?thesis
    using a b physics_package_closed_injection_resolved [of scenario_world ENERGY scenario_theme "[1, 0, 5]"]
    by auto
qed

end
